(* ===== verification/Prelude.thy ===== *)
theory Prelude
  imports Main "HOL-Library.Word"
begin

text \<open>
  Shared ground of the development: the faults of C (undefined behaviour and
  aborts) as values, the type of a stateful C routine that may fault, its
  sequencing combinators with a weakest-precondition calculus, and the integer
  conversions of the target (a 32-bit \<open>int\<close> and \<open>size_t\<close>, an 8-bit \<open>char\<close>).
\<close>

subsection \<open>Faults and stateful routines\<close>

text \<open>
  A routine takes the state and either faults or returns a value and the new state.
  The faults are the undefined behaviours the source can run into, and \<open>Aborted\<close>
  for a failing \<^verbatim>\<open>ESP_ERROR_CHECK\<close>.
\<close>

datatype fault =
    Null_Deref
  | Use_After_Free
  | Bad_Free
  | Out_Of_Bounds
  | Indeterminate
  | Signed_Overflow
  | Aborted

type_synonym ('s, 'a) act = "'s \<Rightarrow> fault + ('a \<times> 's)"

definition ret :: "'a \<Rightarrow> ('s, 'a) act" where
  "ret x = (\<lambda>s. Inr (x, s))"

definition throw :: "fault \<Rightarrow> ('s, 'a) act" where
  "throw f = (\<lambda>s. Inl f)"

definition bnd :: "('s, 'a) act \<Rightarrow> ('a \<Rightarrow> ('s, 'b) act) \<Rightarrow> ('s, 'b) act" where
  "bnd m f = (\<lambda>s. case m s of Inl e \<Rightarrow> Inl e | Inr (x, t) \<Rightarrow> f x t)"

definition andthen :: "('s, 'a) act \<Rightarrow> ('s, 'b) act \<Rightarrow> ('s, 'b) act" where
  "andthen m k = bnd m (\<lambda>_. k)"

definition gets :: "('s \<Rightarrow> 'a) \<Rightarrow> ('s, 'a) act" where
  "gets f = (\<lambda>s. Inr (f s, s))"

definition modify :: "('s \<Rightarrow> 's) \<Rightarrow> ('s, unit) act" where
  "modify f = (\<lambda>s. Inr ((), f s))"

text \<open>A conditional statement without an else branch.\<close>

definition when_do :: "bool \<Rightarrow> ('s, unit) act \<Rightarrow> ('s, unit) act" where
  "when_do b m = (if b then m else ret ())"

text \<open>
  A routine on a part of the state (one heap, say) run on the whole state: \<open>g\<close>
  reads the part and \<open>u\<close> is the record's update of it.
\<close>

definition zoom :: "('s \<Rightarrow> 'm) \<Rightarrow> (('m \<Rightarrow> 'm) \<Rightarrow> 's \<Rightarrow> 's) \<Rightarrow> ('m, 'a) act \<Rightarrow> ('s, 'a) act" where
  "zoom g u m = (\<lambda>s. case m (g s) of Inl e \<Rightarrow> Inl e | Inr (x, p) \<Rightarrow> Inr (x, u (\<lambda>_. p) s))"

text \<open>Recursion may pass through \<open>bnd\<close> and \<open>andthen\<close>.\<close>

lemma bnd_cong [fundef_cong]:
  assumes "m s = m' s'" and "\<And>x t. m' s' = Inr (x, t) \<Longrightarrow> f x t = f' x t"
  shows "bnd m f s = bnd m' f' s'"
  using assms by (auto simp: bnd_def split: sum.split prod.split)

lemma andthen_cong [fundef_cong]:
  assumes "m s = m' s'" and "\<And>x t. m' s' = Inr (x, t) \<Longrightarrow> k t = k' t"
  shows "andthen m k s = andthen m' k' s'"
  unfolding andthen_def using assms by (intro bnd_cong) auto

subsection \<open>Weakest preconditions\<close>

text \<open>
  \<open>wp m Q s\<close>: run in \<open>s\<close>, \<open>m\<close> does not fault and ends in a value and a state that
  satisfy \<open>Q\<close>. \<open>wlp m Q s\<close>: if \<open>m\<close> does not fault, its result satisfies \<open>Q\<close>.
\<close>

definition wp :: "('s, 'a) act \<Rightarrow> ('a \<Rightarrow> 's \<Rightarrow> bool) \<Rightarrow> 's \<Rightarrow> bool" where
  "wp m Q s = (case m s of Inl _ \<Rightarrow> False | Inr (x, t) \<Rightarrow> Q x t)"

definition wlp :: "('s, 'a) act \<Rightarrow> ('a \<Rightarrow> 's \<Rightarrow> bool) \<Rightarrow> 's \<Rightarrow> bool" where
  "wlp m Q s = (case m s of Inl _ \<Rightarrow> True | Inr (x, t) \<Rightarrow> Q x t)"

named_theorems wp_simps "equations that push a weakest precondition through a routine"
named_theorems run_simps "equations that run a routine on a state"

lemma wp_ret [wp_simps]: "wp (ret x) Q = Q x"
  by (simp add: wp_def ret_def fun_eq_iff)

lemma wp_throw [wp_simps]: "wp (throw f) Q s = False"
  by (simp add: wp_def throw_def)

lemma wp_gets [wp_simps]: "wp (gets h) Q s = Q (h s) s"
  by (simp add: wp_def gets_def)

lemma wp_modify [wp_simps]: "wp (modify h) Q s = Q () (h s)"
  by (simp add: wp_def modify_def)

lemma wp_bnd [wp_simps]: "wp (bnd m f) Q = wp m (\<lambda>x. wp (f x) Q)"
  by (simp add: wp_def bnd_def fun_eq_iff split: sum.split prod.split)

lemma wp_andthen [wp_simps]: "wp (andthen m k) Q = wp m (\<lambda>_. wp k Q)"
  by (simp add: andthen_def wp_bnd)

lemma wp_zoom [wp_simps]:
  "wp (zoom g u m) Q s = wp m (\<lambda>x p. Q x (u (\<lambda>_. p) s)) (g s)"
  by (simp add: wp_def zoom_def split: sum.split prod.split)

lemma wp_if [wp_simps]: "wp (if b then m else k) Q s = (if b then wp m Q s else wp k Q s)"
  by simp

lemma wp_when_do [wp_simps]: "wp (when_do b m) Q s = (if b then wp m Q s else Q () s)"
  by (simp add: when_do_def wp_ret)

lemma wlp_ret [wp_simps]: "wlp (ret x) Q = Q x"
  by (simp add: wlp_def ret_def fun_eq_iff)

lemma wlp_throw [wp_simps]: "wlp (throw f) Q s = True"
  by (simp add: wlp_def throw_def)

lemma wlp_gets [wp_simps]: "wlp (gets h) Q s = Q (h s) s"
  by (simp add: wlp_def gets_def)

lemma wlp_modify [wp_simps]: "wlp (modify h) Q s = Q () (h s)"
  by (simp add: wlp_def modify_def)

lemma wlp_bnd [wp_simps]: "wlp (bnd m f) Q = wlp m (\<lambda>x. wlp (f x) Q)"
  by (simp add: wlp_def bnd_def fun_eq_iff split: sum.split prod.split)

lemma wlp_andthen [wp_simps]: "wlp (andthen m k) Q = wlp m (\<lambda>_. wlp k Q)"
  by (simp add: andthen_def wlp_bnd)

lemma wlp_zoom [wp_simps]:
  "wlp (zoom g u m) Q s = wlp m (\<lambda>x p. Q x (u (\<lambda>_. p) s)) (g s)"
  by (simp add: wlp_def zoom_def split: sum.split prod.split)

lemma wlp_if [wp_simps]: "wlp (if b then m else k) Q s = (if b then wlp m Q s else wlp k Q s)"
  by simp

lemma wlp_when_do [wp_simps]: "wlp (when_do b m) Q s = (if b then wlp m Q s else Q () s)"
  by (simp add: when_do_def wlp_ret)

text \<open>Composition: a routine's specification used in a larger proof.\<close>

lemma wp_mono:
  assumes "wp m Q s" and "\<And>x t. Q x t \<Longrightarrow> R x t"
  shows "wp m R s"
  using assms by (auto simp: wp_def split: sum.splits)

lemma wp_runD: "wp m Q s \<Longrightarrow> \<exists>x t. m s = Inr (x, t) \<and> Q x t"
  by (auto simp: wp_def split: sum.splits)

lemma wp_runI: "m s = Inr (x, t) \<Longrightarrow> Q x t \<Longrightarrow> wp m Q s"
  by (auto simp: wp_def)

text \<open>Running a routine on a given state, used to evaluate witnesses.\<close>

lemma run_ret [run_simps]: "ret x s = Inr (x, s)"
  by (simp add: ret_def)

lemma run_throw [run_simps]: "throw f s = Inl f"
  by (simp add: throw_def)

lemma run_gets [run_simps]: "gets h s = Inr (h s, s)"
  by (simp add: gets_def)

lemma run_modify [run_simps]: "modify h s = Inr ((), h s)"
  by (simp add: modify_def)

lemma run_bnd [run_simps]: "bnd m k s = (case m s of Inl e \<Rightarrow> Inl e | Inr (x, t) \<Rightarrow> k x t)"
  by (simp add: bnd_def)

lemma run_andthen [run_simps]:
  "andthen m k s = (case m s of Inl e \<Rightarrow> Inl e | Inr (x, t) \<Rightarrow> k t)"
  by (simp add: andthen_def bnd_def)

lemma run_when_do [run_simps]: "when_do b m s = (if b then m s else Inr ((), s))"
  by (simp add: when_do_def ret_def)

lemma run_zoom [run_simps]:
  "zoom g u m s = (case m (g s) of Inl e \<Rightarrow> Inl e | Inr (x, p) \<Rightarrow> Inr (x, u (\<lambda>_. p) s))"
  by (simp add: zoom_def)

lemma run_if [run_simps]: "(if b then m else k) s = (if b then m s else k s)"
  by simp

subsection \<open>Integers of the target\<close>

text \<open>
  The target of \<^verbatim>\<open>platformio.ini\<close> has a 32-bit \<open>int\<close> and a 32-bit \<open>size_t\<close>. Whether plain
  \<open>char\<close> is signed is left to the implementation by C; it is the argument \<open>sc\<close>.
\<close>

type_synonym byte = "8 word"

definition char_to_int :: "bool \<Rightarrow> byte \<Rightarrow> int" where
  "char_to_int sc b = (if sc then sint b else uint b)"

definition int_to_char :: "int \<Rightarrow> byte" where
  "int_to_char i = word_of_int i"

definition size_t_of_int :: "int \<Rightarrow> nat" where
  "size_t_of_int i = nat (i mod 2 ^ 32)"

text \<open>Division of C truncates towards zero.\<close>

definition c_div :: "int \<Rightarrow> int \<Rightarrow> int" where
  "c_div a b = sgn a * sgn b * (\<bar>a\<bar> div \<bar>b\<bar>)"

lemma int_to_char_char_to_int [simp]: "int_to_char (char_to_int sc b) = b"
  by (simp add: int_to_char_def char_to_int_def)

lemma size_t_of_int_nonneg:
  "0 \<le> i \<Longrightarrow> i < 2 ^ 32 \<Longrightarrow> size_t_of_int i = nat i"
  by (simp add: size_t_of_int_def)

lemma size_t_of_int_neg:
  assumes "- (2 ^ 31) \<le> i" and "i < 0"
  shows "2 ^ 31 \<le> size_t_of_int i"
proof -
  have "i mod 2 ^ 32 = (i + 2 ^ 32) mod 2 ^ 32" by simp
  also have "\<dots> = i + 2 ^ 32"
    using assms by (intro mod_pos_pos_trivial) auto
  finally show ?thesis
    using assms by (simp add: size_t_of_int_def)
qed

end
