(* ===== verification/CMemory.thy ===== *)
theory CMemory
  imports Prelude
begin

text \<open>
  The C heap, split by the type of the blocks (strings, byte buffers, structures of
  each kind), as is usual for type-safe C: \<open>malloc\<close>/\<open>calloc\<close>/\<open>strdup\<close> create a block,
  \<open>free\<close> removes it, a load or store checks that the pointer is neither NULL nor
  dangling. Whether an allocation succeeds is decided by the field \<open>plan\<close>, so that every
  theorem holds for every pattern of allocation failures. The interface is the locale
  \<open>c_heap\<close>, interpreted below on these operations.
\<close>

type_synonym ptr = "nat option"

abbreviation NULL :: ptr where "NULL \<equiv> None"

record 'o mem =
  blocks :: "nat \<rightharpoonup> 'o"
  next_addr :: nat
  plan :: "nat \<Rightarrow> nat \<Rightarrow> bool"

text \<open>
  \<open>plan m k n\<close>: the allocation request number \<open>k\<close>, of \<open>n\<close> bytes, succeeds. A new
  block's address is the number of its request, so addresses are never reused.
\<close>

definition mem_alloc :: "nat \<Rightarrow> 'o \<Rightarrow> ('o mem, ptr) act" where
  "mem_alloc n x = (\<lambda>m.
     if plan m (next_addr m) n
     then Inr (Some (next_addr m),
               m\<lparr>blocks := (blocks m)(next_addr m \<mapsto> x), next_addr := Suc (next_addr m)\<rparr>)
     else Inr (NULL, m\<lparr>next_addr := Suc (next_addr m)\<rparr>))"

definition mem_free :: "ptr \<Rightarrow> ('o mem, unit) act" where
  "mem_free p = (\<lambda>m. case p of
       None \<Rightarrow> Inr ((), m)
     | Some a \<Rightarrow> (if blocks m a = None then Inl Bad_Free
                 else Inr ((), m\<lparr>blocks := (blocks m)(a := None)\<rparr>)))"

definition mem_load :: "ptr \<Rightarrow> ('o mem, 'o) act" where
  "mem_load p = (\<lambda>m. case p of
       None \<Rightarrow> Inl Null_Deref
     | Some a \<Rightarrow> (case blocks m a of None \<Rightarrow> Inl Use_After_Free | Some x \<Rightarrow> Inr (x, m)))"

definition mem_store :: "ptr \<Rightarrow> 'o \<Rightarrow> ('o mem, unit) act" where
  "mem_store p x = (\<lambda>m. case p of
       None \<Rightarrow> Inl Null_Deref
     | Some a \<Rightarrow> (if blocks m a = None then Inl Use_After_Free
                 else Inr ((), m\<lparr>blocks := (blocks m)(a \<mapsto> x)\<rparr>)))"

definition mem_modify :: "ptr \<Rightarrow> ('o \<Rightarrow> 'o) \<Rightarrow> ('o mem, unit) act" where
  "mem_modify p f = bnd (mem_load p) (\<lambda>x. mem_store p (f x))"

text \<open>Addresses not yet handed out hold no block.\<close>

definition mem_ok :: "'o mem \<Rightarrow> bool" where
  "mem_ok m \<longleftrightarrow> (\<forall>a \<ge> next_addr m. blocks m a = None)"

definition empty_mem :: "(nat \<Rightarrow> nat \<Rightarrow> bool) \<Rightarrow> 'o mem" where
  "empty_mem pl = \<lparr>blocks = Map.empty, next_addr = 0, plan = pl\<rparr>"

lemma mem_ok_empty [simp]: "mem_ok (empty_mem pl)"
  by (simp add: mem_ok_def empty_mem_def)

lemma mem_ok_fresh: "mem_ok m \<Longrightarrow> blocks m (next_addr m) = None"
  by (simp add: mem_ok_def)

lemma mem_ok_fail: "mem_ok m \<Longrightarrow> mem_ok (m\<lparr>next_addr := Suc (next_addr m)\<rparr>)"
  and mem_ok_new: "mem_ok m \<Longrightarrow>
    mem_ok (m\<lparr>blocks := (blocks m)(next_addr m \<mapsto> x), next_addr := Suc (next_addr m)\<rparr>)"
  and mem_ok_upd: "mem_ok m \<Longrightarrow> blocks m a \<noteq> None \<Longrightarrow> mem_ok (m\<lparr>blocks := (blocks m)(a := y)\<rparr>)"
  by (auto simp: mem_ok_def)

subsection \<open>Weakest preconditions and runs of the operations\<close>

lemma wp_mem_alloc [wp_simps]:
  "wp (mem_alloc n x) Q m =
     (if plan m (next_addr m) n
      then Q (Some (next_addr m))
             (m\<lparr>blocks := (blocks m)(next_addr m \<mapsto> x), next_addr := Suc (next_addr m)\<rparr>)
      else Q NULL (m\<lparr>next_addr := Suc (next_addr m)\<rparr>))"
  by (simp add: wp_def mem_alloc_def)

lemma wlp_mem_alloc [wp_simps]:
  "wlp (mem_alloc n x) Q m =
     (if plan m (next_addr m) n
      then Q (Some (next_addr m))
             (m\<lparr>blocks := (blocks m)(next_addr m \<mapsto> x), next_addr := Suc (next_addr m)\<rparr>)
      else Q NULL (m\<lparr>next_addr := Suc (next_addr m)\<rparr>))"
  by (simp add: wlp_def mem_alloc_def)

lemma wp_mem_free [wp_simps]:
  "wp (mem_free p) Q m =
     (case p of None \<Rightarrow> Q () m
      | Some a \<Rightarrow> blocks m a \<noteq> None \<and> Q () (m\<lparr>blocks := (blocks m)(a := None)\<rparr>))"
  by (simp add: wp_def mem_free_def split: option.split)

lemma wlp_mem_free [wp_simps]:
  "wlp (mem_free p) Q m =
     (case p of None \<Rightarrow> Q () m
      | Some a \<Rightarrow> blocks m a \<noteq> None \<longrightarrow> Q () (m\<lparr>blocks := (blocks m)(a := None)\<rparr>))"
  by (simp add: wlp_def mem_free_def split: option.split)

lemma wp_mem_load [wp_simps]:
  "wp (mem_load p) Q m = (\<exists>a x. p = Some a \<and> blocks m a = Some x \<and> Q x m)"
  by (simp add: wp_def mem_load_def split: option.split)

lemma wlp_mem_load [wp_simps]:
  "wlp (mem_load p) Q m = (\<forall>a x. p = Some a \<longrightarrow> blocks m a = Some x \<longrightarrow> Q x m)"
  by (simp add: wlp_def mem_load_def split: option.split)

lemma wp_mem_store [wp_simps]:
  "wp (mem_store p x) Q m =
     (\<exists>a. p = Some a \<and> blocks m a \<noteq> None \<and> Q () (m\<lparr>blocks := (blocks m)(a \<mapsto> x)\<rparr>))"
  by (simp add: wp_def mem_store_def split: option.split)

lemma wlp_mem_store [wp_simps]:
  "wlp (mem_store p x) Q m =
     (\<forall>a. p = Some a \<longrightarrow> blocks m a \<noteq> None \<longrightarrow> Q () (m\<lparr>blocks := (blocks m)(a \<mapsto> x)\<rparr>))"
  by (simp add: wlp_def mem_store_def split: option.split)

lemma wp_mem_modify [wp_simps]:
  "wp (mem_modify p f) Q m =
     (\<exists>a x. p = Some a \<and> blocks m a = Some x \<and> Q () (m\<lparr>blocks := (blocks m)(a \<mapsto> f x)\<rparr>))"
  by (auto simp: mem_modify_def wp_simps)

lemma wlp_mem_modify [wp_simps]:
  "wlp (mem_modify p f) Q m =
     (\<forall>a x. p = Some a \<longrightarrow> blocks m a = Some x \<longrightarrow>
        Q () (m\<lparr>blocks := (blocks m)(a \<mapsto> f x)\<rparr>))"
  by (auto simp: mem_modify_def wp_simps)

lemmas mem_run [run_simps] = mem_alloc_def mem_free_def mem_load_def mem_store_def
lemmas mem_modify_run [run_simps] = mem_modify_def

subsection \<open>The interface\<close>

text \<open>
  What the clients of the heap rely on: \<open>view\<close> gives the live blocks, an allocation
  adds a fresh one or fails, \<open>release\<close> removes exactly its argument and needs it live.
\<close>

locale c_heap =
  fixes alloc :: "nat \<Rightarrow> 'o \<Rightarrow> ('m, ptr) act"
    and release :: "ptr \<Rightarrow> ('m, unit) act"
    and load :: "ptr \<Rightarrow> ('m, 'o) act"
    and view :: "'m \<Rightarrow> nat \<rightharpoonup> 'o"
    and invar :: "'m \<Rightarrow> bool"
  assumes alloc_spec: "invar m \<Longrightarrow>
      wp (alloc n x) (\<lambda>p m'. invar m' \<and>
          (case p of None \<Rightarrow> view m' = view m
           | Some a \<Rightarrow> view m a = None \<and> view m' = (view m)(a \<mapsto> x))) m"
    and release_spec: "invar m \<Longrightarrow> view m a \<noteq> None \<Longrightarrow>
      wp (release (Some a)) (\<lambda>_ m'. invar m' \<and> view m' = (view m)(a := None)) m"
    and release_null: "wp (release NULL) (\<lambda>_ m'. m' = m) m"
    and load_spec: "view m a = Some x \<Longrightarrow> wp (load (Some a)) (\<lambda>y m'. y = x \<and> m' = m) m"
begin

text \<open>Releasing a list of pointers, NULLs included.\<close>

primrec release_all :: "ptr list \<Rightarrow> ('m, unit) act" where
  "release_all [] = ret ()"
| "release_all (p # ps) = andthen (release p) (release_all ps)"

text \<open>
  Releasing a list of pointers that are live and pairwise different (NULLs apart) never
  faults, and removes exactly these blocks.
\<close>

lemma release_all_spec:
  assumes "invar m" and "distinct (filter (\<lambda>p. p \<noteq> NULL) ps)"
    and "\<forall>a. Some a \<in> set ps \<longrightarrow> view m a \<noteq> None"
  shows "wp (release_all ps)
           (\<lambda>_ m'. invar m' \<and> view m' = view m |` (- {a. Some a \<in> set ps})) m"
  using assms
proof (induction ps arbitrary: m)
  case Nil
  then show ?case by (simp add: wp_simps restrict_map_def)
next
  case (Cons p ps)
  show ?case
  proof (cases p)
    case None
    have "wp (release NULL) (\<lambda>_. wp (release_all ps)
           (\<lambda>_ m'. invar m' \<and> view m' = view m |` (- {a. Some a \<in> set ps}))) m"
      by (rule wp_mono [OF release_null]) (use Cons None in auto)
    with None show ?thesis by (simp add: wp_andthen)
  next
    case (Some a)
    have live: "view m a \<noteq> None" using Cons.prems Some by auto
    have "wp (release (Some a)) (\<lambda>_. wp (release_all ps)
           (\<lambda>_ m'. invar m' \<and> view m' = view m |` (- {b. Some b \<in> set (p # ps)}))) m"
    proof (rule wp_mono [OF release_spec [OF Cons.prems(1) live]])
      fix u m1
      assume *: "invar m1 \<and> view m1 = (view m)(a := None)"
      have "wp (release_all ps)
           (\<lambda>_ m'. invar m' \<and> view m' = view m1 |` (- {b. Some b \<in> set ps})) m1"
        by (rule Cons.IH) (use Cons.prems Some * in auto)
      then show "wp (release_all ps)
           (\<lambda>_ m'. invar m' \<and> view m' = view m |` (- {b. Some b \<in> set (p # ps)})) m1"
        by (rule wp_mono) (use * Some in \<open>auto simp: restrict_map_def fun_eq_iff\<close>)
    qed
    with Some show ?thesis by (simp add: wp_andthen)
  qed
qed

end

interpretation heap: c_heap mem_alloc mem_free mem_load blocks mem_ok
  by unfold_locales
    (auto simp: wp_simps mem_ok_def less_Suc_eq_le Suc_le_eq split: option.splits)

end
