(* ===== verification/Sdkconfig.thy ===== *)
theory Sdkconfig
  imports Main
begin

text \<open>
  The configuration of the project, \<^verbatim>\<open>sdkconfig.h\<close>: its macros in the order of the file, each
  with the number or the string it stands for. \<open>main.c\<close> includes the file; the only value the
  program's own code depends on is the tick rate, through \<open>portTICK_PERIOD_MS\<close>. The macros that
  are absent matter too: without \<open>CONFIG_FREERTOS_UNICORE\<close> the scheduler runs tasks on both cores,
  so the orders of statements of two tasks are not limited to those of time slicing.
\<close>

datatype macro_value = Num int | Str string

definition sdkconfig_1 :: "(string \<times> macro_value) list" where
  "sdkconfig_1 =
    [(''CONFIG_ENABLE_ARDUINO_DEPENDS'', Num 1),
     (''CONFIG_AUTOSTART_ARDUINO'', Num 1),
     (''CONFIG_ARDUINO_RUNNING_CORE'', Num 1),
     (''CONFIG_ARDUINO_UDP_RUN_CORE1'', Num 1),
     (''CONFIG_ARDUINO_EVENT_RUN_CORE1'', Num 1),
     (''CONFIG_ARDUINO_EVENT_RUNNING_CORE'', Num 1),
     (''CONFIG_ARDUINO_UDP_RUNNING_CORE'', Num 1),
     (''CONFIG_GATTC_ENABLE'', Num 1),
     (''CONFIG_ESP32_PHY_MAX_TX_POWER'', Num 20),
     (''CONFIG_TRACEMEM_RESERVE_DRAM'', Num 0x0),
     (''CONFIG_FREERTOS_MAX_TASK_NAME_LEN'', Num 16),
     (''CONFIG_MQTT_TRANSPORT_SSL'', Num 1),
     (''CONFIG_BLE_SMP_ENABLE'', Num 1),
     (''CONFIG_FATFS_LFN_NONE'', Num 1),
     (''CONFIG_SDP_INITIAL_TRACE_LEVEL'', Num 2),
     (''CONFIG_MB_SERIAL_TASK_PRIO'', Num 10),
     (''CONFIG_MQTT_PROTOCOL_311'', Num 1),
     (''CONFIG_TCP_RECVMBOX_SIZE'', Num 6),
     (''CONFIG_FATFS_CODEPAGE_437'', Num 1),
     (''CONFIG_BLE_SCAN_DUPLICATE'', Num 1),
     (''CONFIG_AVDT_TRACE_LEVEL_WARNING'', Num 1),
     (''CONFIG_AWS_IOT_SHADOW_MAX_SIMULTANEOUS_ACKS'', Num 10),
     (''CONFIG_TCP_WND_DEFAULT'', Num 5744),
     (''CONFIG_PARTITION_TABLE_OFFSET'', Num 0x8000),
     (''CONFIG_SW_COEXIST_ENABLE'', Num 1),
     (''CONFIG_SPIFFS_USE_MAGIC_LENGTH'', Num 1),
     (''CONFIG_AVCT_INITIAL_TRACE_LEVEL'', Num 2),
     (''CONFIG_IPC_TASK_STACK_SIZE'', Num 1024),
     (''CONFIG_WIFI_PROV_SCAN_MAX_ENTRIES'', Num 16),
     (''CONFIG_FATFS_PER_FILE_CACHE'', Num 1),
     (''CONFIG_ESPTOOLPY_FLASHFREQ'', Str ''40m''),
     (''CONFIG_AWS_IOT_SHADOW_MAX_SIZE_OF_THING_NAME'', Num 20),
     (''CONFIG_MBEDTLS_KEY_EXCHANGE_RSA'', Num 1),
     (''CONFIG_UDP_RECVMBOX_SIZE'', Num 6),
     (''CONFIG_SPI_FLASH_YIELD_DURING_ERASE'', Num 1),
     (''CONFIG_FREERTOS_QUEUE_REGISTRY_SIZE'', Num 0),
     (''CONFIG_MBEDTLS_AES_C'', Num 1),
     (''CONFIG_MBEDTLS_ECP_DP_SECP521R1_ENABLED'', Num 1),
     (''CONFIG_ESP32_WIFI_SOFTAP_BEACON_MAX_LEN'', Num 752),
     (''CONFIG_MBEDTLS_GCM_C'', Num 1),
     (''CONFIG_ESPTOOLPY_FLASHSIZE'', Str ''2MB''),
     (''CONFIG_HEAP_POISONING_DISABLED'', Num 1),
     (''CONFIG_SPIFFS_CACHE_WR'', Num 1),
     (''CONFIG_BROWNOUT_DET_LVL_SEL_0'', Num 1),
     (''CONFIG_ESP32_WIFI_DYNAMIC_TX_BUFFER'', Num 1),
     (''CONFIG_SPIFFS_CACHE'', Num 1),
     (''CONFIG_INT_WDT'', Num 1),
     (''CONFIG_BTDM_CONTROLLER_BLE_MAX_CONN'', Num 3),
     (''CONFIG_MBEDTLS_SSL_PROTO_TLS1'', Num 1),
     (''CONFIG_ESP_GRATUITOUS_ARP'', Num 1),
     (''CONFIG_AWS_IOT_SHADOW_MAX_SIZE_OF_UNIQUE_CLIENT_ID_BYTES'', Num 80),
     (''CONFIG_MBEDTLS_ECDSA_C'', Num 1),
     (''CONFIG_ESPTOOLPY_FLASHFREQ_40M'', Num 1),
     (''CONFIG_LOG_BOOTLOADER_LEVEL_INFO'', Num 1),
     (''CONFIG_ESPTOOLPY_FLASHSIZE_2MB'', Num 1),
     (''CONFIG_HTTPD_MAX_REQ_HDR_LEN'', Num 512),
     (''CONFIG_BTDM_CONTROLLER_PINNED_TO_CORE'', Num 0),
     (''CONFIG_AWS_IOT_MQTT_PORT'', Num 8883),
     (''CONFIG_FREERTOS_THREAD_LOCAL_STORAGE_POINTERS'', Num 1),
     (''CONFIG_MBEDTLS_ECDH_C'', Num 1),
     (''CONFIG_MBEDTLS_KEY_EXCHANGE_ELLIPTIC_CURVE'', Num 1),
     (''CONFIG_ESP32_WIFI_STATIC_RX_BUFFER_NUM'', Num 10),
     (''CONFIG_AWS_IOT_MQTT_MAX_RECONNECT_WAIT_INTERVAL'', Num 128000),
     (''CONFIG_MBEDTLS_SSL_ALPN'', Num 1),
     (''CONFIG_BTM_TRACE_LEVEL_WARNING'', Num 1),
     (''CONFIG_MBEDTLS_PEM_WRITE_C'', Num 1),
     (''CONFIG_RFCOMM_TRACE_LEVEL_WARNING'', Num 1),
     (''CONFIG_LOG_DEFAULT_LEVEL_INFO'', Num 1),
     (''CONFIG_BT_RESERVE_DRAM'', Num 0xdb5c),
     (''CONFIG_APP_COMPILE_TIME_DATE'', Num 1),
     (''CONFIG_FATFS_FS_LOCK'', Num 0),
     (''CONFIG_IP_LOST_TIMER_INTERVAL'', Num 120),
     (''CONFIG_SPIFFS_META_LENGTH'', Num 4),
     (''CONFIG_ESP32_PANIC_PRINT_REBOOT'', Num 1),
     (''CONFIG_MB_CONTROLLER_NOTIFY_QUEUE_SIZE'', Num 20),
     (''CONFIG_MBEDTLS_ECP_DP_BP384R1_ENABLED'', Num 1),
     (''CONFIG_MBEDTLS_ECP_DP_SECP256K1_ENABLED'', Num 1),
     (''CONFIG_AWS_IOT_MQTT_RX_BUF_LEN'', Num 512),
     (''CONFIG_MB_SERIAL_BUF_SIZE'', Num 256),
     (''CONFIG_CONSOLE_UART_BAUDRATE'', Num 115200),
     (''CONFIG_LWIP_MAX_SOCKETS'', Num 10),
     (''CONFIG_LWIP_NETIF_LOOPBACK'', Num 1),
     (''CONFIG_MCA_TRACE_LEVEL_WARNING'', Num 1),
     (''CONFIG_ESP32_PTHREAD_TASK_NAME_DEFAULT'', Str ''pthread''),
     (''CONFIG_EMAC_TASK_PRIORITY'', Num 20),
     (''CONFIG_TIMER_TASK_STACK_DEPTH'', Num 2048),
     (''CONFIG_TCP_MSS'', Num 1436),
     (''CONFIG_MBEDTLS_ECP_DP_CURVE25519_ENABLED'', Num 1),
     (''CONFIG_BTIF_INITIAL_TRACE_LEVEL'', Num 2),
     (''CONFIG_BTDM_CONTROLLER_BLE_MAX_CONN_EFF'', Num 3),
     (''CONFIG_EFUSE_CODE_SCHEME_COMPAT_3_4'', Num 1),
     (''CONFIG_FATFS_CODEPAGE'', Num 437),
     (''CONFIG_APPL_TRACE_LEVEL_WARNING'', Num 1),
     (''CONFIG_BTC_INITIAL_TRACE_LEVEL'', Num 2),
     (''CONFIG_ESP32_DEFAULT_CPU_FREQ_160'', Num 1),
     (''CONFIG_ULP_COPROC_RESERVE_MEM'', Num 0),
     (''CONFIG_LWIP_MAX_UDP_PCBS'', Num 16),
     (''CONFIG_ESPTOOLPY_BAUD'', Num 115200),
     (''CONFIG_INT_WDT_CHECK_CPU1'', Num 1),
     (''CONFIG_AVRC_INITIAL_TRACE_LEVEL'', Num 2),
     (''CONFIG_ADC_CAL_LUT_ENABLE'', Num 1),
     (''CONFIG_AWS_IOT_MQTT_TX_BUF_LEN'', Num 512),
     (''CONFIG_FLASHMODE_DIO'', Num 1),
     (''CONFIG_ESPTOOLPY_AFTER_RESET'', Num 1),
     (''CONFIG_OPTIMIZATION_ASSERTIONS_ENABLED'', Num 1),
     (''CONFIG_LWIP_DHCPS_MAX_STATION_NUM'', Num 8),
     (''CONFIG_TOOLPREFIX'', Str ''xtensa-esp32-elf-''),
     (''CONFIG_MBEDTLS_ECP_C'', Num 1),
     (''CONFIG_FREERTOS_IDLE_TASK_STACKSIZE'', Num 1536),
     (''CONFIG_MBEDTLS_RC4_DISABLED'', Num 1),
     (''CONFIG_GAP_TRACE_LEVEL_WARNING'', Num 1),
     (''CONFIG_CONSOLE_UART_NUM'', Num 0),
     (''CONFIG_AWS_IOT_SHADOW_MAX_JSON_TOKEN_EXPECTED'', Num 120),
     (''CONFIG_ESP32_APPTRACE_LOCK_ENABLE'', Num 1),
     (''CONFIG_PTHREAD_STACK_MIN'', Num 768),
     (''CONFIG_ESP32_RTC_CLOCK_SOURCE_INTERNAL_RC'', Num 1),
     (''CONFIG_ESPTOOLPY_BAUD_115200B'', Num 1),
     (''CONFIG_TCP_OVERSIZE_MSS'', Num 1),
     (''CONFIG_FOUR_UNIVERSAL_MAC_ADDRESS'', Num 1),
     (''CONFIG_CONSOLE_UART_DEFAULT'', Num 1),
     (''CONFIG_MBEDTLS_SSL_MAX_CONTENT_LEN'', Num 16384)]"

definition sdkconfig_2 :: "(string \<times> macro_value) list" where
  "sdkconfig_2 =
    [(''CONFIG_NUMBER_OF_UNIVERSAL_MAC_ADDRESS'', Num 4),
     (''CONFIG_GATT_TRACE_LEVEL_WARNING'', Num 1),
     (''CONFIG_ESPTOOLPY_FLASHSIZE_DETECT'', Num 1),
     (''CONFIG_TIMER_TASK_STACK_SIZE'', Num 3584),
     (''CONFIG_BTIF_TRACE_LEVEL_WARNING'', Num 1),
     (''CONFIG_ESP32_ENABLE_COREDUMP_TO_NONE'', Num 1),
     (''CONFIG_HCI_INITIAL_TRACE_LEVEL'', Num 2),
     (''CONFIG_AVDT_INITIAL_TRACE_LEVEL'', Num 2),
     (''CONFIG_MBEDTLS_X509_CRL_PARSE_C'', Num 1),
     (''CONFIG_FREERTOS_CHECK_MUTEX_GIVEN_BY_OWNER'', Num 1),
     (''CONFIG_HTTPD_PURGE_BUF_LEN'', Num 32),
     (''CONFIG_SCAN_DUPLICATE_BY_DEVICE_ADDR'', Num 1),
     (''CONFIG_AWS_IOT_SHADOW_MAX_SHADOW_TOPIC_LENGTH_WITHOUT_THINGNAME'', Num 60),
     (''CONFIG_UNITY_ENABLE_IDF_TEST_RUNNER'', Num 1),
     (''CONFIG_MB_SERIAL_TASK_STACK_SIZE'', Num 2048),
     (''CONFIG_GATTS_SEND_SERVICE_CHANGE_AUTO'', Num 1),
     (''CONFIG_LWIP_DHCPS_LEASE_UNIT'', Num 60),
     (''CONFIG_EFUSE_MAX_BLK_LEN'', Num 192),
     (''CONFIG_SPIFFS_USE_MAGIC'', Num 1),
     (''CONFIG_TCPIP_TASK_STACK_SIZE'', Num 2048),
     (''CONFIG_BLUFI_TRACE_LEVEL_WARNING'', Num 1),
     (''CONFIG_BLUEDROID_PINNED_TO_CORE_0'', Num 1),
     (''CONFIG_TASK_WDT'', Num 1),
     (''CONFIG_RFCOMM_INITIAL_TRACE_LEVEL'', Num 2),
     (''CONFIG_MAIN_TASK_STACK_SIZE'', Num 3584),
     (''CONFIG_SPIFFS_PAGE_CHECK'', Num 1),
     (''CONFIG_ESP32_WIFI_TASK_PINNED_TO_CORE_0'', Num 1),
     (''CONFIG_LWIP_MAX_ACTIVE_TCP'', Num 16),
     (''CONFIG_TASK_WDT_TIMEOUT_S'', Num 5),
     (''CONFIG_INT_WDT_TIMEOUT_MS'', Num 300),
     (''CONFIG_ESPTOOLPY_FLASHMODE'', Str ''dio''),
     (''CONFIG_BTC_TASK_STACK_SIZE'', Num 3072),
     (''CONFIG_BLUEDROID_ENABLED'', Num 1),
     (''CONFIG_NEWLIB_STDIN_LINE_ENDING_CR'', Num 1),
     (''CONFIG_MBEDTLS_KEY_EXCHANGE_ECDH_RSA'', Num 1),
     (''CONFIG_ESPTOOLPY_BEFORE'', Str ''default_reset''),
     (''CONFIG_ADC2_DISABLE_DAC'', Num 1),
     (''CONFIG_BLE_ADV_REPORT_FLOW_CONTROL_NUM'', Num 100),
     (''CONFIG_ESP32_REV_MIN_0'', Num 1),
     (''CONFIG_LOG_DEFAULT_LEVEL'', Num 3),
     (''CONFIG_FREERTOS_ASSERT_ON_UNTESTED_FUNCTION'', Num 1),
     (''CONFIG_TIMER_QUEUE_LENGTH'', Num 10),
     (''CONFIG_ESP32_REV_MIN'', Num 0),
     (''CONFIG_SUPPRESS_SELECT_DEBUG_OUTPUT'', Num 1),
     (''CONFIG_GATTS_SEND_SERVICE_CHANGE_MODE'', Num 0),
     (''CONFIG_TCPIP_TASK_AFFINITY_NO_AFFINITY'', Num 1),
     (''CONFIG_MAKE_WARN_UNDEFINED_VARIABLES'', Num 1),
     (''CONFIG_FATFS_TIMEOUT_MS'', Num 10000),
     (''CONFIG_ESP32_WIFI_DYNAMIC_RX_BUFFER_NUM'', Num 32),
     (''CONFIG_ESP_HTTP_CLIENT_ENABLE_HTTPS'', Num 1),
     (''CONFIG_PAN_INITIAL_TRACE_LEVEL'', Num 2),
     (''CONFIG_MBEDTLS_CCM_C'', Num 1),
     (''CONFIG_SPI_MASTER_ISR_IN_IRAM'', Num 1),
     (''CONFIG_MCA_INITIAL_TRACE_LEVEL'', Num 2),
     (''CONFIG_ESP32_PHY_MAX_WIFI_TX_POWER'', Num 20),
     (''CONFIG_A2D_INITIAL_TRACE_LEVEL'', Num 2),
     (''CONFIG_ESP32_RTC_CLK_CAL_CYCLES'', Num 1024),
     (''CONFIG_ESP32_WIFI_TX_BA_WIN'', Num 6),
     (''CONFIG_ESP32_WIFI_NVS_ENABLED'', Num 1),
     (''CONFIG_MDNS_MAX_SERVICES'', Num 10),
     (''CONFIG_IDF_TARGET_ESP32'', Num 1),
     (''CONFIG_EMAC_CHECK_LINK_PERIOD_MS'', Num 2000),
     (''CONFIG_MBEDTLS_ECP_DP_SECP224R1_ENABLED'', Num 1),
     (''CONFIG_SPI_FLASH_ERASE_YIELD_DURATION_MS'', Num 20),
     (''CONFIG_LIBSODIUM_USE_MBEDTLS_SHA'', Num 1),
     (''CONFIG_AWS_IOT_SDK'', Num 1),
     (''CONFIG_DMA_RX_BUF_NUM'', Num 10),
     (''CONFIG_MBEDTLS_ECP_DP_SECP384R1_ENABLED'', Num 1),
     (''CONFIG_TCP_SYNMAXRTX'', Num 6),
     (''CONFIG_MBEDTLS_KEY_EXCHANGE_ECDHE_ECDSA'', Num 1),
     (''CONFIG_BTDM_CONTROLLER_BR_EDR_MAX_SYNC_CONN_EFF'', Num 0),
     (''CONFIG_PYTHON'', Str ''python''),
     (''CONFIG_MBEDTLS_ECP_NIST_OPTIM'', Num 1),
     (''CONFIG_ESP32_TIME_SYSCALL_USE_RTC_FRC1'', Num 1),
     (''CONFIG_ESPTOOLPY_COMPRESSED'', Num 1),
     (''CONFIG_PARTITION_TABLE_FILENAME'', Str ''partitions_singleapp.csv''),
     (''CONFIG_MB_CONTROLLER_STACK_SIZE'', Num 4096),
     (''CONFIG_TCP_SND_BUF_DEFAULT'', Num 5744),
     (''CONFIG_GARP_TMR_INTERVAL'', Num 60),
     (''CONFIG_LWIP_DHCP_MAX_NTP_SERVERS'', Num 1),
     (''CONFIG_BNEP_INITIAL_TRACE_LEVEL'', Num 2),
     (''CONFIG_HCI_TRACE_LEVEL_WARNING'', Num 1),
     (''CONFIG_TCP_MSL'', Num 60000),
     (''CONFIG_MBEDTLS_SSL_PROTO_TLS1_1'', Num 1),
     (''CONFIG_LWIP_SO_REUSE_RXTOALL'', Num 1),
     (''CONFIG_MB_CONTROLLER_NOTIFY_TIMEOUT'', Num 20),
     (''CONFIG_ESP32_WIFI_MGMT_SBUF_NUM'', Num 32),
     (''CONFIG_PARTITION_TABLE_SINGLE_APP'', Num 1),
     (''CONFIG_UNITY_ENABLE_FLOAT'', Num 1),
     (''CONFIG_ESP32_WIFI_RX_BA_WIN'', Num 6),
     (''CONFIG_MBEDTLS_X509_CSR_PARSE_C'', Num 1),
     (''CONFIG_SPIFFS_USE_MTIME'', Num 1),
     (''CONFIG_BTC_TRACE_LEVEL_WARNING'', Num 1),
     (''CONFIG_EMAC_TASK_STACK_SIZE'', Num 3072),
     (''CONFIG_SMP_TRACE_LEVEL_WARNING'', Num 1),
     (''CONFIG_MB_QUEUE_LENGTH'', Num 20),
     (''CONFIG_SW_COEXIST_PREFERENCE_VALUE'', Num 2),
     (''CONFIG_MBEDTLS_KEY_EXCHANGE_ECDHE_RSA'', Num 1),
     (''CONFIG_LWIP_DHCP_DOES_ARP_CHECK'', Num 1),
     (''CONFIG_FREERTOS_TASK_FUNCTION_WRAPPER'', Num 1),
     (''CONFIG_SYSTEM_EVENT_TASK_STACK_SIZE'', Num 2304),
     (''CONFIG_BOOTLOADER_VDDSDIO_BOOST_1_9V'', Num 1),
     (''CONFIG_A2D_TRACE_LEVEL_WARNING'', Num 1),
     (''CONFIG_ESP32_DEEP_SLEEP_WAKEUP_DELAY'', Num 2000),
     (''CONFIG_AWS_IOT_MQTT_NUM_SUBSCRIBE_HANDLERS'', Num 5),
     (''CONFIG_BROWNOUT_DET_LVL'', Num 0),
     (''CONFIG_MBEDTLS_PEM_PARSE_C'', Num 1),
     (''CONFIG_SPIFFS_GC_MAX_RUNS'', Num 10),
     (''CONFIG_ESP32_APPTRACE_DEST_NONE'', Num 1),
     (''CONFIG_MBEDTLS_INTERNAL_MEM_ALLOC'', Num 1),
     (''CONFIG_MBEDTLS_SSL_PROTO_TLS1_2'', Num 1),
     (''CONFIG_MBEDTLS_KEY_EXCHANGE_DHE_RSA'', Num 1),
     (''CONFIG_ESP32_WIFI_DYNAMIC_TX_BUFFER_NUM'', Num 32),
     (''CONFIG_HTTPD_MAX_URI_LEN'', Num 512),
     (''CONFIG_MBEDTLS_ECP_DP_BP256R1_ENABLED'', Num 1),
     (''CONFIG_AVCT_TRACE_LEVEL_WARNING'', Num 1),
     (''CONFIG_MBEDTLS_ECP_DP_SECP224K1_ENABLED'', Num 1),
     (''CONFIG_TASK_WDT_CHECK_IDLE_TASK_CPU1'', Num 1),
     (''CONFIG_ESP32_DEFAULT_CPU_FREQ_MHZ'', Num 160),
     (''CONFIG_MBEDTLS_HARDWARE_AES'', Num 1),
     (''CONFIG_FREERTOS_HZ'', Num 100)]"

definition sdkconfig_3 :: "(string \<times> macro_value) list" where
  "sdkconfig_3 =
    [(''CONFIG_LOG_COLORS'', Num 1),
     (''CONFIG_OSI_TRACE_LEVEL_WARNING'', Num 1),
     (''CONFIG_ESP32_PHY_CALIBRATION_AND_DATA_STORAGE'', Num 1),
     (''CONFIG_STACK_CHECK_NONE'', Num 1),
     (''CONFIG_ADC_CAL_EFUSE_TP_ENABLE'', Num 1),
     (''CONFIG_BNEP_TRACE_LEVEL_WARNING'', Num 1),
     (''CONFIG_FREERTOS_ASSERT_FAIL_ABORT'', Num 1),
     (''CONFIG_BROWNOUT_DET'', Num 1),
     (''CONFIG_AWS_IOT_SHADOW_MAX_SIMULTANEOUS_THINGNAMES'', Num 10),
     (''CONFIG_ESP32_XTAL_FREQ'', Num 40),
     (''CONFIG_OSI_INITIAL_TRACE_LEVEL'', Num 2),
     (''CONFIG_MONITOR_BAUD_115200B'', Num 1),
     (''CONFIG_LOG_BOOTLOADER_LEVEL'', Num 3),
     (''CONFIG_MBEDTLS_TLS_ENABLED'', Num 1),
     (''CONFIG_LWIP_MAX_RAW_PCBS'', Num 16),
     (''CONFIG_BTU_TASK_STACK_SIZE'', Num 4096),
     (''CONFIG_SMP_ENABLE'', Num 1),
     (''CONFIG_HID_TRACE_LEVEL_WARNING'', Num 1),
     (''CONFIG_AVRC_TRACE_LEVEL_WARNING'', Num 1),
     (''CONFIG_MBEDTLS_SSL_SESSION_TICKETS'', Num 1),
     (''CONFIG_SPIFFS_MAX_PARTITIONS'', Num 3),
     (''CONFIG_ESP_ERR_TO_NAME_LOOKUP'', Num 1),
     (''CONFIG_BTDM_CONTROLLER_PINNED_TO_CORE_0'', Num 1),
     (''CONFIG_MBEDTLS_SSL_RENEGOTIATION'', Num 1),
     (''CONFIG_HID_INITIAL_TRACE_LEVEL'', Num 2),
     (''CONFIG_ESPTOOLPY_BEFORE_RESET'', Num 1),
     (''CONFIG_MB_EVENT_QUEUE_TIMEOUT'', Num 20),
     (''CONFIG_ESPTOOLPY_BAUD_OTHER_VAL'', Num 115200),
     (''CONFIG_SPIFFS_OBJ_NAME_LEN'', Num 32),
     (''CONFIG_ESP32_PTHREAD_TASK_PRIO_DEFAULT'', Num 5),
     (''CONFIG_BTDM_CONTROLLER_BR_EDR_MAX_ACL_CONN_EFF'', Num 0),
     (''CONFIG_PARTITION_TABLE_MD5'', Num 1),
     (''CONFIG_TCPIP_RECVMBOX_SIZE'', Num 32),
     (''CONFIG_TCP_MAXRTX'', Num 12),
     (''CONFIG_BTM_INITIAL_TRACE_LEVEL'', Num 2),
     (''CONFIG_ESPTOOLPY_AFTER'', Str ''hard_reset''),
     (''CONFIG_TCPIP_TASK_AFFINITY'', Num 0x7FFFFFFF),
     (''CONFIG_LWIP_SO_REUSE'', Num 1),
     (''CONFIG_ESP32_XTAL_FREQ_40'', Num 1),
     (''CONFIG_BTDM_CONTROLLER_MODE_BLE_ONLY'', Num 1),
     (''CONFIG_DMA_TX_BUF_NUM'', Num 10),
     (''CONFIG_LWIP_MAX_LISTENING_TCP'', Num 16),
     (''CONFIG_FREERTOS_INTERRUPT_BACKTRACE'', Num 1),
     (''CONFIG_WL_SECTOR_SIZE'', Num 4096),
     (''CONFIG_ESP32_DEBUG_OCDAWARE'', Num 1),
     (''CONFIG_MQTT_TRANSPORT_WEBSOCKET'', Num 1),
     (''CONFIG_TIMER_TASK_PRIORITY'', Num 1),
     (''CONFIG_MBEDTLS_TLS_CLIENT'', Num 1),
     (''CONFIG_AWS_IOT_MQTT_MIN_RECONNECT_WAIT_INTERVAL'', Num 1000),
     (''CONFIG_BTDM_CONTROLLER_HCI_MODE_VHCI'', Num 1),
     (''CONFIG_BT_ENABLED'', Num 1),
     (''CONFIG_ESP32_DEFAULT_PTHREAD_CORE_NO_AFFINITY'', Num 1),
     (''CONFIG_SDP_TRACE_LEVEL_WARNING'', Num 1),
     (''CONFIG_SW_COEXIST_PREFERENCE_BALANCE'', Num 1),
     (''CONFIG_MBEDTLS_ECP_DP_SECP256R1_ENABLED'', Num 1),
     (''CONFIG_MONITOR_BAUD'', Num 115200),
     (''CONFIG_ESP32_PTHREAD_TASK_CORE_DEFAULT'', Num (-1)),
     (''CONFIG_ESP32_DEBUG_STUBS_ENABLE'', Num 1),
     (''CONFIG_BLE_ESTABLISH_LINK_CONNECTION_TIMEOUT'', Num 30),
     (''CONFIG_TCPIP_LWIP'', Num 1),
     (''CONFIG_REDUCE_PHY_TX_POWER'', Num 1),
     (''CONFIG_BOOTLOADER_WDT_TIME_MS'', Num 9000),
     (''CONFIG_PAN_TRACE_LEVEL_WARNING'', Num 1),
     (''CONFIG_FREERTOS_CORETIMER_0'', Num 1),
     (''CONFIG_PARTITION_TABLE_CUSTOM_FILENAME'', Str ''partitions.csv''),
     (''CONFIG_MBEDTLS_HAVE_TIME'', Num 1),
     (''CONFIG_FREERTOS_CHECK_STACKOVERFLOW_CANARY'', Num 1),
     (''CONFIG_TCP_QUEUE_OOSEQ'', Num 1),
     (''CONFIG_GATTS_ENABLE'', Num 1),
     (''CONFIG_ADC_CAL_EFUSE_VREF_ENABLE'', Num 1),
     (''CONFIG_MBEDTLS_TLS_SERVER'', Num 1),
     (''CONFIG_MBEDTLS_TLS_SERVER_AND_CLIENT'', Num 1),
     (''CONFIG_BLE_ADV_REPORT_FLOW_CONTROL_SUPPORTED'', Num 1),
     (''CONFIG_FREERTOS_ISR_STACKSIZE'', Num 1536),
     (''CONFIG_SUPPORT_TERMIOS'', Num 1),
     (''CONFIG_OPENSSL_ASSERT_DO_NOTHING'', Num 1),
     (''CONFIG_IDF_TARGET'', Str ''esp32''),
     (''CONFIG_WL_SECTOR_SIZE_4096'', Num 1),
     (''CONFIG_OPTIMIZATION_LEVEL_DEBUG'', Num 1),
     (''CONFIG_GATT_INITIAL_TRACE_LEVEL'', Num 2),
     (''CONFIG_FREERTOS_NO_AFFINITY'', Num 0x7FFFFFFF),
     (''CONFIG_AWS_IOT_MQTT_HOST'', Str ''''),
     (''CONFIG_L2CAP_TRACE_LEVEL_WARNING'', Num 1),
     (''CONFIG_ESP32_WIFI_AMPDU_TX_ENABLED'', Num 1),
     (''CONFIG_HTTPD_ERR_RESP_NO_DELAY'', Num 1),
     (''CONFIG_MB_TIMER_INDEX'', Num 0),
     (''CONFIG_SCAN_DUPLICATE_TYPE'', Num 0),
     (''CONFIG_MBEDTLS_ECP_DP_SECP192R1_ENABLED'', Num 1),
     (''CONFIG_APPL_INITIAL_TRACE_LEVEL'', Num 2),
     (''CONFIG_MBEDTLS_ECP_DP_BP512R1_ENABLED'', Num 1),
     (''CONFIG_SPI_FLASH_ERASE_YIELD_TICKS'', Num 1),
     (''CONFIG_SMP_INITIAL_TRACE_LEVEL'', Num 2),
     (''CONFIG_MBEDTLS_KEY_EXCHANGE_ECDH_ECDSA'', Num 1),
     (''CONFIG_SPI_SLAVE_ISR_IN_IRAM'', Num 1),
     (''CONFIG_L2CAP_INITIAL_TRACE_LEVEL'', Num 2),
     (''CONFIG_SYSTEM_EVENT_QUEUE_SIZE'', Num 32),
     (''CONFIG_BT_ACL_CONNECTIONS'', Num 4),
     (''CONFIG_ESP32_WIFI_TX_BUFFER_TYPE'', Num 1),
     (''CONFIG_BOOTLOADER_WDT_ENABLE'', Num 1),
     (''CONFIG_GAP_INITIAL_TRACE_LEVEL'', Num 2),
     (''CONFIG_ESP32_WIFI_AMPDU_RX_ENABLED'', Num 1),
     (''CONFIG_LWIP_LOOPBACK_MAX_PBUFS'', Num 8),
     (''CONFIG_MB_TIMER_GROUP'', Num 0),
     (''CONFIG_SPI_FLASH_ROM_DRIVER_PATCH'', Num 1),
     (''CONFIG_MQTT_TRANSPORT_WEBSOCKET_SECURE'', Num 1),
     (''CONFIG_SPIFFS_PAGE_SIZE'', Num 256),
     (''CONFIG_MBEDTLS_ECP_DP_SECP192K1_ENABLED'', Num 1),
     (''CONFIG_ESP32_DPORT_WORKAROUND'', Num 1),
     (''CONFIG_TASK_WDT_CHECK_IDLE_TASK_CPU0'', Num 1),
     (''CONFIG_ESP32_PTHREAD_TASK_STACK_SIZE_DEFAULT'', Num 3072),
     (''CONFIG_MB_TIMER_PORT_ENABLED'', Num 1),
     (''CONFIG_DUPLICATE_SCAN_CACHE_SIZE'', Num 50),
     (''CONFIG_MONITOR_BAUD_OTHER_VAL'', Num 115200),
     (''CONFIG_NEWLIB_STDOUT_LINE_ENDING_CRLF'', Num 1),
     (''CONFIG_ESPTOOLPY_PORT'', Str ''COM19''),
     (''CONFIG_SPI_FLASH_WRITING_DANGEROUS_REGIONS_ABORTS'', Num 1),
     (''CONFIG_UNITY_ENABLE_DOUBLE'', Num 1),
     (''CONFIG_BLE_ADV_REPORT_DISCARD_THRSHOLD'', Num 20),
     (''CONFIG_BLUEDROID_PINNED_TO_CORE'', Num 0),
     (''CONFIG_ESP32_WIFI_IRAM_OPT'', Num 1),
     (''CONFIG_BLUFI_INITIAL_TRACE_LEVEL'', Num 2)]"

definition sdkconfig :: "(string \<times> macro_value) list" where
  "sdkconfig = sdkconfig_1 @ sdkconfig_2 @ sdkconfig_3"

text \<open>What the preprocessor makes of a name: an undefined one counts as 0 in a condition.\<close>

definition is_defined :: "string \<Rightarrow> bool" where
  "is_defined name = (map_of sdkconfig name \<noteq> None)"

definition macro_num :: "string \<Rightarrow> int" where
  "macro_num name = (case map_of sdkconfig name of Some (Num n) \<Rightarrow> n | _ \<Rightarrow> 0)"

lemma tick_rate: "macro_num ''CONFIG_FREERTOS_HZ'' = 100"
  by code_simp

lemma two_cores: "\<not> is_defined ''CONFIG_FREERTOS_UNICORE''"
  by code_simp

end
