(* ===== verification/WsTypes.thy ===== *)
theory WsTypes
  imports CMemory Sdkconfig
begin

text \<open>
  Data of the websocket client (\<^verbatim>\<open>protocols/websocket_client\<close>): the structures and enums
  of its header and source, the calls it makes into ESP-IDF and FreeRTOS, the
  environment that answers them, and the state its functions work on.
\<close>

subsection \<open>Constants\<close>

text \<open>Status codes (the values \<^verbatim>\<open>esp_err.h\<close> and FreeRTOS document).\<close>

abbreviation ESP_OK :: int where "ESP_OK \<equiv> 0"
abbreviation ESP_FAIL :: int where "ESP_FAIL \<equiv> - 1"
abbreviation ESP_ERR_NO_MEM :: int where "ESP_ERR_NO_MEM \<equiv> 257"
abbreviation ESP_ERR_INVALID_ARG :: int where "ESP_ERR_INVALID_ARG \<equiv> 258"
abbreviation pdPASS :: int where "pdPASS \<equiv> 1"

definition WEBSOCKET_TCP_DEFAULT_PORT :: int where "WEBSOCKET_TCP_DEFAULT_PORT = 80"
definition WEBSOCKET_SSL_DEFAULT_PORT :: int where "WEBSOCKET_SSL_DEFAULT_PORT = 443"
definition WEBSOCKET_BUFFER_SIZE_BYTE :: int where "WEBSOCKET_BUFFER_SIZE_BYTE = 4 * 1024"
definition WEBSOCKET_RECONNECT_TIMEOUT_MS :: int where "WEBSOCKET_RECONNECT_TIMEOUT_MS = 1 * 1000"
definition WEBSOCKET_TASK_PRIORITY :: int where "WEBSOCKET_TASK_PRIORITY = 15"
definition WEBSOCKET_TASK_STACK :: int where "WEBSOCKET_TASK_STACK = 4 * 1024"
definition WEBSOCKET_NETWORK_TIMEOUT_MS :: int where "WEBSOCKET_NETWORK_TIMEOUT_MS = 10 * 1000"
definition WEBSOCKET_PING_TIMEOUT_MS :: int where "WEBSOCKET_PING_TIMEOUT_MS = 10 * 1000"
definition WEBSOCKET_EVENT_QUEUE_SIZE :: int where "WEBSOCKET_EVENT_QUEUE_SIZE = 1"

text \<open>\<open>CONFIG_FREERTOS_HZ\<close> of \<^verbatim>\<open>sdkconfig.h\<close>; a tick lasts \<open>portTICK_PERIOD_MS\<close> milliseconds.\<close>

definition CONFIG_FREERTOS_HZ :: int where "CONFIG_FREERTOS_HZ = macro_num ''CONFIG_FREERTOS_HZ''"
definition portTICK_PERIOD_MS :: int where "portTICK_PERIOD_MS = 1000 div CONFIG_FREERTOS_HZ"
definition WEBSOCKET_SEND_EVENT_TIMEOUT_MS :: int where
  "WEBSOCKET_SEND_EVENT_TIMEOUT_MS = 2000 div portTICK_PERIOD_MS"

lemma FREERTOS_HZ: "CONFIG_FREERTOS_HZ = 100"
  by (simp add: CONFIG_FREERTOS_HZ_def tick_rate)

lemmas ws_consts = WEBSOCKET_TCP_DEFAULT_PORT_def WEBSOCKET_SSL_DEFAULT_PORT_def
  WEBSOCKET_BUFFER_SIZE_BYTE_def WEBSOCKET_RECONNECT_TIMEOUT_MS_def WEBSOCKET_TASK_PRIORITY_def
  WEBSOCKET_TASK_STACK_def WEBSOCKET_NETWORK_TIMEOUT_MS_def WEBSOCKET_PING_TIMEOUT_MS_def
  WEBSOCKET_EVENT_QUEUE_SIZE_def FREERTOS_HZ portTICK_PERIOD_MS_def
  WEBSOCKET_SEND_EVENT_TIMEOUT_MS_def

subsection \<open>Structures and enums\<close>

text \<open>\<open>websocket_config_storage_t\<close>: the client's own copy of its configuration.\<close>

record websocket_config_storage =
  cfg_task_stack :: int
  cfg_task_prio :: int
  cfg_uri :: ptr
  cfg_host :: ptr
  cfg_path :: ptr
  cfg_scheme :: ptr
  cfg_username :: ptr
  cfg_password :: ptr
  cfg_port :: int
  cfg_auto_reconnect :: bool
  cfg_user_context :: ptr
  cfg_network_timeout_ms :: int

text \<open>What \<open>calloc\<close> and \<open>memset\<close> leave in it.\<close>

definition zero_config_storage :: websocket_config_storage where
  "zero_config_storage = \<lparr>cfg_task_stack = 0, cfg_task_prio = 0, cfg_uri = NULL, cfg_host = NULL,
     cfg_path = NULL, cfg_scheme = NULL, cfg_username = NULL, cfg_password = NULL, cfg_port = 0,
     cfg_auto_reconnect = False, cfg_user_context = NULL, cfg_network_timeout_ms = 0\<rparr>"

datatype websocket_client_state =
    WEBSOCKET_STATE_ERROR
  | WEBSOCKET_STATE_UNKNOW
  | WEBSOCKET_STATE_INIT
  | WEBSOCKET_STATE_CONNECTED
  | WEBSOCKET_STATE_WAIT_TIMEOUT

text \<open>The enum's values; the code compares states with \<open>>=\<close>, hence the order.\<close>

fun state_val :: "websocket_client_state \<Rightarrow> int" where
  "state_val WEBSOCKET_STATE_ERROR = - 1"
| "state_val WEBSOCKET_STATE_UNKNOW = 0"
| "state_val WEBSOCKET_STATE_INIT = 1"
| "state_val WEBSOCKET_STATE_CONNECTED = 2"
| "state_val WEBSOCKET_STATE_WAIT_TIMEOUT = 3"

lemma state_val_inj: "state_val a = state_val b \<longleftrightarrow> a = b"
  by (cases a; cases b) auto

instantiation websocket_client_state :: linorder
begin

definition less_eq_websocket_client_state where
  "less_eq_websocket_client_state a b \<longleftrightarrow> state_val a \<le> state_val b"

definition less_websocket_client_state where
  "less_websocket_client_state a b \<longleftrightarrow> state_val a < state_val b"

instance
  by intro_classes
    (auto simp: less_eq_websocket_client_state_def less_websocket_client_state_def
      state_val_inj dest: antisym)

end

text \<open>\<open>struct esp_websocket_client\<close>.\<close>

record esp_websocket_client =
  cl_event_handle :: ptr
  cl_transport_list :: ptr
  cl_transport :: ptr
  cl_config :: ptr
  cl_state :: websocket_client_state
  cl_keepalive_tick_ms :: "64 word"
  cl_reconnect_tick_ms :: "64 word"
  cl_ping_tick_ms :: "64 word"
  cl_wait_timeout_ms :: int
  cl_auto_reconnect :: int
  cl_run :: bool
  cl_status_bits :: ptr
  cl_lock :: ptr
  cl_rx_buffer :: ptr
  cl_tx_buffer :: ptr
  cl_buffer_size :: int

definition zero_client :: esp_websocket_client where
  "zero_client = \<lparr>cl_event_handle = NULL, cl_transport_list = NULL, cl_transport = NULL,
     cl_config = NULL, cl_state = WEBSOCKET_STATE_UNKNOW, cl_keepalive_tick_ms = 0,
     cl_reconnect_tick_ms = 0, cl_ping_tick_ms = 0, cl_wait_timeout_ms = 0,
     cl_auto_reconnect = 0, cl_run = False, cl_status_bits = NULL, cl_lock = NULL,
     cl_rx_buffer = NULL, cl_tx_buffer = NULL, cl_buffer_size = 0\<rparr>"

text \<open>Sizes of the two structures on a target with 32-bit pointers.\<close>

definition sizeof_config_storage :: nat where "sizeof_config_storage = 48"
definition sizeof_client :: nat where "sizeof_client = 80"

datatype esp_websocket_event_id =
    WEBSOCKET_EVENT_ANY
  | WEBSOCKET_EVENT_ERROR
  | WEBSOCKET_EVENT_CONNECTED
  | WEBSOCKET_EVENT_DISCONNECTED
  | WEBSOCKET_EVENT_DATA
  | WEBSOCKET_EVENT_MAX

text \<open>\<open>esp_websocket_event_data_t\<close>: the buffer and the number of bytes in it.\<close>

record esp_websocket_event_data =
  data_ptr :: ptr
  data_len :: int

datatype esp_websocket_transport =
    WEBSOCKET_TRANSPORT_UNKNOWN
  | WEBSOCKET_TRANSPORT_OVER_TCP
  | WEBSOCKET_TRANSPORT_OVER_SSL

text \<open>
  \<open>esp_websocket_client_config_t\<close>, read only by the client: a \<^verbatim>\<open>char *\<close> field is the
  string it points to, \<open>None\<close> for NULL.
\<close>

record esp_websocket_client_config =
  conf_uri :: "string option"
  conf_host :: "string option"
  conf_port :: int
  conf_username :: "string option"
  conf_password :: "string option"
  conf_path :: "string option"
  conf_disable_auto_reconnect :: bool
  conf_user_context :: ptr
  conf_task_prio :: int
  conf_task_stack :: int
  conf_buffer_size :: int
  conf_cert_pem :: "string option"
  conf_transport :: esp_websocket_transport

definition zero_client_config :: esp_websocket_client_config where
  "zero_client_config = \<lparr>conf_uri = None, conf_host = None, conf_port = 0, conf_username = None,
     conf_password = None, conf_path = None, conf_disable_auto_reconnect = False,
     conf_user_context = NULL, conf_task_prio = 0, conf_task_stack = 0, conf_buffer_size = 0,
     conf_cert_pem = None, conf_transport = WEBSOCKET_TRANSPORT_UNKNOWN\<rparr>"

text \<open>
  The part of \<open>struct http_parser_url\<close> the client reads: offset and length of each field
  in the string that was parsed.
\<close>

record url_field =
  uf_off :: nat
  uf_len :: nat

record parsed_url =
  UF_SCHEMA :: url_field
  UF_HOST :: url_field
  UF_PORT :: url_field
  UF_PATH :: url_field
  UF_USERINFO :: url_field

subsection \<open>Calls into ESP-IDF and FreeRTOS\<close>

text \<open>
  Every call the program makes into code outside the repository, with its arguments. The
  list of calls made so far is part of the state.
\<close>

datatype event_handler_fn = Fn_xWebsocketEventHandler | Fn_vWebsocketEventHandler

datatype call =
    esp_event_loop_create int
  | esp_event_loop_delete ptr
  | esp_event_post_to ptr esp_websocket_event_id ptr int int
  | esp_event_loop_run ptr int
  | esp_event_handler_register_with ptr esp_websocket_event_id event_handler_fn ptr
  | xSemaphoreCreateMutex
  | vQueueDelete ptr
  | xSemaphoreTake ptr nat
  | xSemaphoreGive ptr
  | esp_transport_list_init
  | esp_transport_list_add ptr ptr string
  | esp_transport_list_get_transport ptr "string option"
  | esp_transport_list_destroy ptr
  | esp_transport_tcp_init
  | esp_transport_ssl_init
  | esp_transport_ws_init ptr
  | esp_transport_set_default_port ptr int
  | esp_transport_get_default_port ptr
  | esp_transport_ssl_set_cert_data ptr string nat
  | esp_transport_ws_set_path ptr string
  | esp_transport_connect ptr "string option" int int
  | esp_transport_close ptr
  | esp_transport_poll_read ptr int
  | esp_transport_read ptr int int
  | esp_transport_write ptr "byte list" int
  | xEventGroupCreate
  | vEventGroupDelete ptr
  | xEventGroupClearBits_STOPPED ptr
  | xEventGroupSetBits_STOPPED ptr
  | xEventGroupWaitBits_STOPPED ptr
  | esp_timer_get_time
  | xTaskCreate_ws string int ptr int
  | vTaskDelay int
  | vTaskDelete
  | gpio_reset_pin int
  | gpio_pad_select_gpio int
  | gpio_set_direction_output int
  | gpio_set_level int int
  | nvs_flash_init
  | nvs_flash_erase
  | tcpip_adapter_init
  | esp_event_loop_init
  | esp_wifi_init
  | esp_wifi_set_storage_RAM
  | esp_wifi_set_mode_STA
  | esp_wifi_set_config string string
  | esp_wifi_start
  | esp_wifi_connect
  | xTaskCreate_app string int int

subsection \<open>The state\<close>

text \<open>
  One heap per type of block and the list of calls. The record is extended by the
  application's own variables.
\<close>

record ws_world =
  strs :: "string mem"
  cfgs :: "websocket_config_storage mem"
  clis :: "esp_websocket_client mem"
  bufs :: "byte list mem"
  calls :: "call list"

text \<open>
  The environment: the answers to the calls, which may depend on all calls made before.
  \<open>asprintf_null\<close> says whether a failing \<open>asprintf\<close> stores NULL or leaves the pointer
  alone (C libraries differ); \<open>junk\<close> is the content of fresh \<open>malloc\<close> memory; \<open>deliver\<close> is
  what running the event loop does: the handlers registered with it.
\<close>

record 'w env =
  r_int :: "call list \<Rightarrow> call \<Rightarrow> int"
  r_ptr :: "call list \<Rightarrow> call \<Rightarrow> ptr"
  r_bytes :: "call list \<Rightarrow> call \<Rightarrow> byte list"
  http_parser_parse_url :: "string \<Rightarrow> int \<times> parsed_url"
  asprintf_null :: bool
  junk :: "nat \<Rightarrow> byte"
  deliver :: "ptr \<Rightarrow> esp_websocket_event_id \<Rightarrow> esp_websocket_event_data \<Rightarrow> ('w, unit) act"
  char_signed :: bool

type_synonym ('a, 'b) ws_act = "('a ws_world_scheme, 'b) act"
type_synonym 'a ws_env = "'a ws_world_scheme env"

definition ext_int :: "'w env \<Rightarrow> call \<Rightarrow> ('a, int) ws_act" where
  "ext_int E c = (\<lambda>w. Inr (r_int E (calls w) c, w\<lparr>calls := calls w @ [c]\<rparr>))"

definition ext_ptr :: "'w env \<Rightarrow> call \<Rightarrow> ('a, ptr) ws_act" where
  "ext_ptr E c = (\<lambda>w. Inr (r_ptr E (calls w) c, w\<lparr>calls := calls w @ [c]\<rparr>))"

definition ext_do :: "call \<Rightarrow> ('a, unit) ws_act" where
  "ext_do c = (\<lambda>w. Inr ((), w\<lparr>calls := calls w @ [c]\<rparr>))"

lemma wp_ext [wp_simps]:
  "wp (ext_int E c) Q w = Q (r_int E (calls w) c) (w\<lparr>calls := calls w @ [c]\<rparr>)"
  "wp (ext_ptr E c) Q' w = Q' (r_ptr E (calls w) c) (w\<lparr>calls := calls w @ [c]\<rparr>)"
  "wp (ext_do c) Q'' w = Q'' () (w\<lparr>calls := calls w @ [c]\<rparr>)"
  by (simp_all add: wp_def ext_int_def ext_ptr_def ext_do_def)

lemma wlp_ext [wp_simps]:
  "wlp (ext_int E c) Q w = Q (r_int E (calls w) c) (w\<lparr>calls := calls w @ [c]\<rparr>)"
  "wlp (ext_ptr E c) Q' w = Q' (r_ptr E (calls w) c) (w\<lparr>calls := calls w @ [c]\<rparr>)"
  "wlp (ext_do c) Q'' w = Q'' () (w\<lparr>calls := calls w @ [c]\<rparr>)"
  by (simp_all add: wlp_def ext_int_def ext_ptr_def ext_do_def)

lemmas ext_run [run_simps] = ext_int_def ext_ptr_def ext_do_def

subsection \<open>Access to the heaps\<close>

definition load_cli :: "ptr \<Rightarrow> ('a, esp_websocket_client) ws_act" where
  "load_cli p = zoom clis clis_update (mem_load p)"

definition upd_cli :: "ptr \<Rightarrow> (esp_websocket_client \<Rightarrow> esp_websocket_client) \<Rightarrow> ('a, unit) ws_act"
  where "upd_cli p f = zoom clis clis_update (mem_modify p f)"

definition load_cfg :: "ptr \<Rightarrow> ('a, websocket_config_storage) ws_act" where
  "load_cfg p = zoom cfgs cfgs_update (mem_load p)"

definition upd_cfg ::
  "ptr \<Rightarrow> (websocket_config_storage \<Rightarrow> websocket_config_storage) \<Rightarrow> ('a, unit) ws_act" where
  "upd_cfg p f = zoom cfgs cfgs_update (mem_modify p f)"

definition load_str :: "ptr \<Rightarrow> ('a, string) ws_act" where
  "load_str p = zoom strs strs_update (mem_load p)"

definition strdup :: "string \<Rightarrow> ('a, ptr) ws_act" where
  "strdup s = zoom strs strs_update (mem_alloc (Suc (length s)) s)"

definition free_str :: "ptr \<Rightarrow> ('a, unit) ws_act" where
  "free_str p = zoom strs strs_update (mem_free p)"

text \<open>A string argument that may be NULL.\<close>

definition str_arg :: "ptr \<Rightarrow> ('a, string option) ws_act" where
  "str_arg p = (case p of None \<Rightarrow> ret None | Some a \<Rightarrow> bnd (load_str p) (\<lambda>s. ret (Some s)))"

definition malloc_buf :: "'w env \<Rightarrow> int \<Rightarrow> ('a, ptr) ws_act" where
  "malloc_buf E n =
     zoom bufs bufs_update (mem_alloc (size_t_of_int n) (map (junk E) [0..<size_t_of_int n]))"

definition load_buf :: "ptr \<Rightarrow> ('a, byte list) ws_act" where
  "load_buf p = zoom bufs bufs_update (mem_load p)"

definition free_buf :: "ptr \<Rightarrow> ('a, unit) ws_act" where
  "free_buf p = zoom bufs bufs_update (mem_free p)"

text \<open>Copying bytes into the front of a buffer; writing past its end is a fault.\<close>

definition write_buf :: "ptr \<Rightarrow> byte list \<Rightarrow> ('a, unit) ws_act" where
  "write_buf p bs = bnd (load_buf p) (\<lambda>old.
     if length bs \<le> length old
     then zoom bufs bufs_update (mem_store p (bs @ drop (length bs) old))
     else throw Out_Of_Bounds)"

lemmas heap_access_defs = load_cli_def upd_cli_def load_cfg_def upd_cfg_def load_str_def
  strdup_def free_str_def malloc_buf_def load_buf_def free_buf_def write_buf_def

lemma heap_upd_same [simp]:
  "strs_update (\<lambda>_. strs w) w = w" "cfgs_update (\<lambda>_. cfgs w) w = w"
  "clis_update (\<lambda>_. clis w) w = w" "bufs_update (\<lambda>_. bufs w) w = w"
  by simp_all

lemma wp_loads [wp_simps]:
  "wp (load_cli p) Q w = (\<exists>a x. p = Some a \<and> blocks (clis w) a = Some x \<and> Q x w)"
  "wp (load_cfg p) Q' w = (\<exists>a x. p = Some a \<and> blocks (cfgs w) a = Some x \<and> Q' x w)"
  "wp (load_str p) Q2 w = (\<exists>a x. p = Some a \<and> blocks (strs w) a = Some x \<and> Q2 x w)"
  "wp (load_buf p) Q3 w = (\<exists>a x. p = Some a \<and> blocks (bufs w) a = Some x \<and> Q3 x w)"
  by (simp_all add: heap_access_defs wp_simps)

lemma wlp_loads [wp_simps]:
  "wlp (load_cli p) Q w = (\<forall>a x. p = Some a \<longrightarrow> blocks (clis w) a = Some x \<longrightarrow> Q x w)"
  "wlp (load_cfg p) Q' w = (\<forall>a x. p = Some a \<longrightarrow> blocks (cfgs w) a = Some x \<longrightarrow> Q' x w)"
  "wlp (load_str p) Q2 w = (\<forall>a x. p = Some a \<longrightarrow> blocks (strs w) a = Some x \<longrightarrow> Q2 x w)"
  "wlp (load_buf p) Q3 w = (\<forall>a x. p = Some a \<longrightarrow> blocks (bufs w) a = Some x \<longrightarrow> Q3 x w)"
  by (simp_all add: heap_access_defs wp_simps)

lemmas heap_access_wp [wp_simps] = upd_cli_def upd_cfg_def strdup_def free_str_def
  malloc_buf_def free_buf_def write_buf_def
lemmas heap_access_run [run_simps] = heap_access_defs

lemma wp_str_arg [wp_simps]:
  "wp (str_arg p) Q w = (case p of None \<Rightarrow> Q None w
     | Some a \<Rightarrow> (\<exists>s. blocks (strs w) a = Some s \<and> Q (Some s) w))"
  by (simp add: str_arg_def wp_simps split: option.split)

lemma wlp_str_arg [wp_simps]:
  "wlp (str_arg p) Q w = (case p of None \<Rightarrow> Q None w
     | Some a \<Rightarrow> (\<forall>s. blocks (strs w) a = Some s \<longrightarrow> Q (Some s) w))"
  by (simp add: str_arg_def wp_simps split: option.split)

lemma run_str_arg [run_simps]:
  "str_arg p w = (case p of None \<Rightarrow> Inr (None, w)
     | Some a \<Rightarrow> (case load_str p w of Inl e \<Rightarrow> Inl e | Inr (s, t) \<Rightarrow> Inr (Some s, t)))"
  by (simp add: str_arg_def run_simps split: option.split)

end
