(* ===== verification/WsConfig.thy ===== *)
theory WsConfig
  imports WsTypes
begin

text \<open>
  The configuration of the websocket client: \<open>esp_websocket_client_set_config\<close>,
  \<open>esp_websocket_client_set_uri\<close> and \<open>esp_websocket_client_destroy_config\<close>. The stored
  configuration owns its strings. The lemmas show that every operation keeps this
  ownership, compute the strings that are stored, and say which blocks are left behind.
\<close>

subsection \<open>String fields\<close>

text \<open>The six string fields of \<open>websocket_config_storage_t\<close>, so that they can be named.\<close>

datatype cfg_field = F_uri | F_host | F_path | F_scheme | F_username | F_password

fun field_get :: "cfg_field \<Rightarrow> websocket_config_storage \<Rightarrow> ptr" where
  "field_get F_uri k = cfg_uri k"
| "field_get F_host k = cfg_host k"
| "field_get F_path k = cfg_path k"
| "field_get F_scheme k = cfg_scheme k"
| "field_get F_username k = cfg_username k"
| "field_get F_password k = cfg_password k"

fun field_set :: "cfg_field \<Rightarrow> ptr \<Rightarrow> websocket_config_storage \<Rightarrow> websocket_config_storage" where
  "field_set F_uri p k = k\<lparr>cfg_uri := p\<rparr>"
| "field_set F_host p k = k\<lparr>cfg_host := p\<rparr>"
| "field_set F_path p k = k\<lparr>cfg_path := p\<rparr>"
| "field_set F_scheme p k = k\<lparr>cfg_scheme := p\<rparr>"
| "field_set F_username p k = k\<lparr>cfg_username := p\<rparr>"
| "field_set F_password p k = k\<lparr>cfg_password := p\<rparr>"

lemma field_get_set [simp]:
  "field_get f (field_set g p k) = (if f = g then p else field_get f k)"
  by (cases f; cases g) auto

lemma field_set_set [simp]: "field_set f p (field_set f p' k) = field_set f p k"
  by (cases f) auto

lemma field_set_scalars [simp]:
  "cfg_port (field_set f p k) = cfg_port k"
  "cfg_task_prio (field_set f p k) = cfg_task_prio k"
  "cfg_task_stack (field_set f p k) = cfg_task_stack k"
  "cfg_auto_reconnect (field_set f p k) = cfg_auto_reconnect k"
  "cfg_network_timeout_ms (field_set f p k) = cfg_network_timeout_ms k"
  "cfg_user_context (field_set f p k) = cfg_user_context k"
  by (cases f; simp)+

lemma field_get_scalars [simp]:
  "field_get f (k\<lparr>cfg_port := n\<rparr>) = field_get f k"
  "field_get f (k\<lparr>cfg_task_prio := n\<rparr>) = field_get f k"
  "field_get f (k\<lparr>cfg_task_stack := n\<rparr>) = field_get f k"
  "field_get f (k\<lparr>cfg_auto_reconnect := b\<rparr>) = field_get f k"
  "field_get f (k\<lparr>cfg_network_timeout_ms := n\<rparr>) = field_get f k"
  "field_get f (k\<lparr>cfg_user_context := p\<rparr>) = field_get f k"
  by (cases f; simp)+

text \<open>From here on a field is named, not unfolded.\<close>

declare field_get.simps [simp del] field_set.simps [simp del]

lemma all_cfg_field:
  "(\<forall>f. P f) \<longleftrightarrow> P F_uri \<and> P F_host \<and> P F_path \<and> P F_scheme \<and> P F_username \<and> P F_password"
  by (metis cfg_field.exhaust)

subsection \<open>Statements shared by the functions\<close>

text \<open>A step that returns a status: go on after \<open>ESP_OK\<close>, return any other status.\<close>

definition chk :: "('s, int) act \<Rightarrow> ('s, int) act \<Rightarrow> ('s, int) act" where
  "chk m k = bnd m (\<lambda>e. if e = ESP_OK then k else ret e)"

text \<open>\<open>free(cfg->f)\<close>.\<close>

definition free_field :: "ptr \<Rightarrow> cfg_field \<Rightarrow> ('a, unit) ws_act" where
  "free_field cfg f = bnd (load_cfg cfg) (\<lambda>k. free_str (field_get f k))"

text \<open>\<open>cfg->f = strdup(s)\<close> and the memory check after it.\<close>

definition strdup_field :: "ptr \<Rightarrow> cfg_field \<Rightarrow> string \<Rightarrow> ('a, int) ws_act" where
  "strdup_field cfg f s = bnd (strdup s) (\<lambda>p.
     andthen (upd_cfg cfg (field_set f p))
       (ret (if p = NULL then ESP_ERR_NO_MEM else ESP_OK)))"

text \<open>\<open>asprintf(&cfg->f, \<dots>)\<close> for a result \<open>s\<close>, and the memory check after it.\<close>

definition asprintf_field :: "'w env \<Rightarrow> ptr \<Rightarrow> cfg_field \<Rightarrow> string \<Rightarrow> ('a, int) ws_act" where
  "asprintf_field E cfg f s = bnd (load_cfg cfg) (\<lambda>_. bnd (strdup s) (\<lambda>p.
     andthen (when_do (p \<noteq> NULL \<or> asprintf_null E) (upd_cfg cfg (field_set f p)))
       (bnd (load_cfg cfg) (\<lambda>k.
          ret (if field_get f k = NULL then ESP_ERR_NO_MEM else ESP_OK)))))"

subsection \<open>Setting the configuration\<close>

text \<open>
  \<open>esp_websocket_client_set_config\<close>. Each string that is given replaces the stored one,
  which is freed first, except for \<open>host\<close>.
\<close>

definition replace_field :: "ptr \<Rightarrow> cfg_field \<Rightarrow> string option \<Rightarrow> ('a, int) ws_act" where
  "replace_field cfg f src = (case src of
       None \<Rightarrow> ret ESP_OK
     | Some s \<Rightarrow> andthen (free_field cfg f) (strdup_field cfg f s))"

text \<open>The part after the host, and the whole function.\<close>

definition set_config_rest :: "ptr \<Rightarrow> esp_websocket_client_config \<Rightarrow> ('a, int) ws_act" where
  "set_config_rest cfg conf =
     andthen (when_do (conf_port conf \<noteq> 0) (upd_cfg cfg (\<lambda>k. k\<lparr>cfg_port := conf_port conf\<rparr>)))
     (chk (replace_field cfg F_username (conf_username conf))
     (chk (replace_field cfg F_password (conf_password conf))
     (chk (replace_field cfg F_uri (conf_uri conf))
     (chk (replace_field cfg F_path (conf_path conf))
     (andthen (upd_cfg cfg (\<lambda>k. k\<lparr>cfg_network_timeout_ms := WEBSOCKET_NETWORK_TIMEOUT_MS\<rparr>))
     (andthen (upd_cfg cfg (\<lambda>k. k\<lparr>cfg_user_context := conf_user_context conf\<rparr>))
     (andthen (upd_cfg cfg (\<lambda>k. k\<lparr>cfg_auto_reconnect := True\<rparr>))
     (andthen (when_do (conf_disable_auto_reconnect conf)
                 (upd_cfg cfg (\<lambda>k. k\<lparr>cfg_auto_reconnect := False\<rparr>)))
       (ret ESP_OK)))))))))"

definition esp_websocket_client_set_config ::
  "ptr \<Rightarrow> esp_websocket_client_config \<Rightarrow> ('a, int) ws_act" where
  "esp_websocket_client_set_config client conf = bnd (load_cli client) (\<lambda>c.
     let cfg = cl_config c in
     andthen (upd_cfg cfg (\<lambda>k. k\<lparr>cfg_task_prio :=
       (if conf_task_prio conf \<le> 0 then WEBSOCKET_TASK_PRIORITY else conf_task_prio conf)\<rparr>))
     (andthen (upd_cfg cfg (\<lambda>k. k\<lparr>cfg_task_stack :=
       (if conf_task_stack conf = 0 then WEBSOCKET_TASK_STACK else conf_task_stack conf)\<rparr>))
     (chk (case conf_host conf of None \<Rightarrow> ret ESP_OK | Some s \<Rightarrow> strdup_field cfg F_host s)
       (set_config_rest cfg conf))))"

subsection \<open>Destroying the configuration\<close>

definition free_cfg :: "ptr \<Rightarrow> ('a, unit) ws_act" where
  "free_cfg p = zoom cfgs cfgs_update (mem_free p)"

lemmas free_cfg_wp [wp_simps] = free_cfg_def
lemmas free_cfg_run [run_simps] = free_cfg_def

definition esp_websocket_client_destroy_config :: "ptr \<Rightarrow> ('a, int) ws_act" where
  "esp_websocket_client_destroy_config client =
    (if client = NULL then ret ESP_ERR_INVALID_ARG
     else bnd (load_cli client) (\<lambda>c. let cfg = cl_config c in
       if cfg = NULL then ret ESP_ERR_INVALID_ARG
       else andthen (free_field cfg F_host)
           (andthen (free_field cfg F_uri)
           (andthen (free_field cfg F_path)
           (andthen (free_field cfg F_scheme)
           (andthen (free_field cfg F_username)
           (andthen (free_field cfg F_password)
           (andthen (upd_cfg cfg (\<lambda>_. zero_config_storage))
           (andthen (free_cfg cfg)
           (andthen (upd_cli client (\<lambda>d. d\<lparr>cl_config := NULL\<rparr>))
             (ret ESP_OK)))))))))))"

subsection \<open>Setting the URI\<close>

text \<open>\<open>strtol(s, NULL, 10)\<close> of the C library, with its clamping to a 32-bit \<open>long\<close>.\<close>

definition is_space :: "char \<Rightarrow> bool" where
  "is_space c \<longleftrightarrow> (let n = (of_char c :: nat) in n = 32 \<or> (9 \<le> n \<and> n \<le> 13))"

definition is_digit :: "char \<Rightarrow> bool" where
  "is_digit c \<longleftrightarrow> (let n = (of_char c :: nat) in 48 \<le> n \<and> n \<le> 57)"

fun digits_val :: "int \<Rightarrow> string \<Rightarrow> int" where
  "digits_val acc [] = acc"
| "digits_val acc (c # cs) =
     (if is_digit c then digits_val (acc * 10 + (of_char c - 48)) cs else acc)"

definition strtol10 :: "string \<Rightarrow> int" where
  "strtol10 s =
     (let t = dropWhile is_space s;
          v = (case t of
                 [] \<Rightarrow> 0
               | c # cs \<Rightarrow> (if c = CHR ''-'' then - digits_val 0 cs
                          else if c = CHR ''+'' then digits_val 0 cs
                          else digits_val 0 t))
      in max (- (2 ^ 31)) (min (2 ^ 31 - 1) v))"

text \<open>\<open>"%.*s"\<close> of a field of the URI; it must start inside the string.\<close>

definition url_slice :: "string \<Rightarrow> url_field \<Rightarrow> string" where
  "url_slice uri u = take (uf_len u) (drop (uf_off u) uri)"

definition with_field :: "string \<Rightarrow> url_field \<Rightarrow> ('s, 'b) act \<Rightarrow> ('s, 'b) act" where
  "with_field uri u m = (if uf_off u \<le> length uri then m else throw Out_Of_Bounds)"

text \<open>\<open>free(cfg->f); asprintf(&cfg->f, \<dots>)\<close>, if the URI has the field.\<close>

definition set_uri_field :: "'w env \<Rightarrow> ptr \<Rightarrow> string \<Rightarrow> url_field \<Rightarrow> cfg_field \<Rightarrow> ('a, int) ws_act"
  where "set_uri_field E cfg uri u f =
    (if uf_len u = 0 then ret ESP_OK
     else andthen (free_field cfg f)
            (with_field uri u (asprintf_field E cfg f (url_slice uri u))))"

text \<open>The path is also handed to the transport of the given scheme, if there is one.\<close>

definition set_transport_path :: "'w env \<Rightarrow> ptr \<Rightarrow> ptr \<Rightarrow> string \<Rightarrow> ('a, unit) ws_act" where
  "set_transport_path E client cfg scheme = bnd (load_cli client) (\<lambda>c.
     bnd (ext_ptr E (esp_transport_list_get_transport (cl_transport_list c) (Some scheme))) (\<lambda>trans.
       when_do (trans \<noteq> NULL) (bnd (load_cfg cfg) (\<lambda>k. bnd (load_str (cfg_path k)) (\<lambda>path.
         ext_do (esp_transport_ws_set_path trans path))))))"

text \<open>The user information: \<open>strchr\<close> splits it at the first colon.\<close>

definition set_userinfo :: "ptr \<Rightarrow> string \<Rightarrow> ('a, int) ws_act" where
  "set_userinfo cfg info = bnd (strdup info) (\<lambda>user_info.
     if user_info = NULL then ret ESP_ERR_NO_MEM
     else
       let user = takeWhile (\<lambda>ch. ch \<noteq> CHR '':'') info;
           rest = dropWhile (\<lambda>ch. ch \<noteq> CHR '':'') info in
       chk (if rest = [] then ret ESP_OK
            else andthen (zoom strs strs_update (mem_store user_info user))
                  (andthen (free_field cfg F_password)
                    (strdup_field cfg F_password (tl rest))))
       (andthen (free_field cfg F_username)
       (bnd (load_str user_info) (\<lambda>u.
       (chk (strdup_field cfg F_username u)
       (andthen (free_str user_info)
         (ret ESP_OK)))))))"

text \<open>The string fields, the transports' paths, the port and user information, in order.\<close>

definition set_uri_strings :: "'w env \<Rightarrow> ptr \<Rightarrow> string \<Rightarrow> parsed_url \<Rightarrow> ('a, int) ws_act" where
  "set_uri_strings E cfg uri puri =
     chk (set_uri_field E cfg uri (UF_SCHEMA puri) F_scheme)
    (chk (set_uri_field E cfg uri (UF_HOST puri) F_host)
         (set_uri_field E cfg uri (UF_PATH puri) F_path))"

definition set_uri_paths :: "'w env \<Rightarrow> ptr \<Rightarrow> ptr \<Rightarrow> parsed_url \<Rightarrow> ('a, unit) ws_act" where
  "set_uri_paths E client cfg puri =
     when_do (uf_len (UF_PATH puri) \<noteq> 0)
       (andthen (set_transport_path E client cfg ''ws'')
                (set_transport_path E client cfg ''wss''))"

definition set_uri_tail :: "ptr \<Rightarrow> string \<Rightarrow> parsed_url \<Rightarrow> ('a, int) ws_act" where
  "set_uri_tail cfg uri puri =
     andthen (when_do (uf_off (UF_PORT puri) \<noteq> 0)
                (with_field uri (UF_PORT puri)
                  (upd_cfg cfg (\<lambda>k. k\<lparr>cfg_port := strtol10 (drop (uf_off (UF_PORT puri)) uri)\<rparr>))))
    (chk (if uf_len (UF_USERINFO puri) = 0 then ret ESP_OK
          else with_field uri (UF_USERINFO puri)
                 (set_userinfo cfg (url_slice uri (UF_USERINFO puri))))
      (ret ESP_OK))"

definition esp_websocket_client_set_uri ::
  "'w env \<Rightarrow> ptr \<Rightarrow> string option \<Rightarrow> ('a, int) ws_act" where
  "esp_websocket_client_set_uri E client uri_arg =
    (if client = NULL \<or> uri_arg = None then ret ESP_ERR_INVALID_ARG
     else let uri = the uri_arg; (parser_status, puri) = http_parser_parse_url E uri in
     if parser_status \<noteq> 0 then ret ESP_FAIL
     else bnd (load_cli client) (\<lambda>c. let cfg = cl_config c in
       chk (set_uri_strings E cfg uri puri)
       (andthen (set_uri_paths E client cfg puri)
         (set_uri_tail cfg uri puri))))"

subsection \<open>Ownership and the abstract configuration\<close>

text \<open>
  The strings of a stored configuration are live and pairwise different; \<open>cfg_rest\<close> is
  the part of the string heap the configuration does not own.
\<close>

definition cfg_owned :: "websocket_config_storage \<Rightarrow> (nat \<rightharpoonup> string) \<Rightarrow> bool" where
  "cfg_owned k b \<longleftrightarrow> (\<forall>f a. field_get f k = Some a \<longrightarrow> b a \<noteq> None) \<and>
     (\<forall>f g a. field_get f k = Some a \<longrightarrow> field_get g k = Some a \<longrightarrow> f = g)"

definition owned_set :: "websocket_config_storage \<Rightarrow> nat set" where
  "owned_set k = {a. \<exists>f. field_get f k = Some a}"

definition cfg_rest :: "websocket_config_storage \<Rightarrow> (nat \<rightharpoonup> string) \<Rightarrow> (nat \<rightharpoonup> string)" where
  "cfg_rest k b = b |` (- owned_set k)"

definition cfg_strings ::
  "websocket_config_storage \<Rightarrow> (nat \<rightharpoonup> string) \<Rightarrow> cfg_field \<Rightarrow> string option" where
  "cfg_strings k b f = (case field_get f k of None \<Rightarrow> None | Some a \<Rightarrow> b a)"

text \<open>The abstract configuration: strings as values, no pointers.\<close>

record abs_config =
  a_str :: "cfg_field \<Rightarrow> string option"
  a_port :: int
  a_task_prio :: int
  a_task_stack :: int
  a_auto_reconnect :: bool
  a_user_context :: ptr
  a_network_timeout_ms :: int

definition abs_cfg :: "websocket_config_storage \<Rightarrow> (nat \<rightharpoonup> string) \<Rightarrow> abs_config" where
  "abs_cfg k b = \<lparr>a_str = cfg_strings k b, a_port = cfg_port k, a_task_prio = cfg_task_prio k,
     a_task_stack = cfg_task_stack k, a_auto_reconnect = cfg_auto_reconnect k,
     a_user_context = cfg_user_context k, a_network_timeout_ms = cfg_network_timeout_ms k\<rparr>"

text \<open>
  In state \<open>w\<close> the configuration at address \<open>q\<close> stands for \<open>a\<close>, owns its strings, and \<open>R\<close>
  is the rest of the string heap.
\<close>

definition cfg_holds ::
  "nat \<Rightarrow> (nat \<rightharpoonup> string) \<Rightarrow> abs_config \<Rightarrow> 'a ws_world_scheme \<Rightarrow> bool" where
  "cfg_holds q R a w \<longleftrightarrow> (\<exists>k. blocks (cfgs w) q = Some k \<and> mem_ok (strs w) \<and>
     cfg_owned k (blocks (strs w)) \<and> cfg_rest k (blocks (strs w)) = R \<and>
     abs_cfg k (blocks (strs w)) = a)"

text \<open>What an operation on the configuration at \<open>q\<close> leaves alone.\<close>

definition cfg_frame :: "nat \<Rightarrow> 'a ws_world_scheme \<Rightarrow> 'a ws_world_scheme \<Rightarrow> bool" where
  "cfg_frame q w w' \<longleftrightarrow> clis w' = clis w \<and> bufs w' = bufs w \<and>
     ws_world.more w' = ws_world.more w \<and> (\<exists>xs. calls w' = calls w @ xs) \<and>
     (\<forall>a. a \<noteq> q \<longrightarrow> blocks (cfgs w') a = blocks (cfgs w) a) \<and>
     next_addr (cfgs w') = next_addr (cfgs w) \<and> plan (cfgs w') = plan (cfgs w) \<and>
     plan (strs w') = plan (strs w)"

lemma cfg_frame_refl [simp]: "cfg_frame q w w"
  by (simp add: cfg_frame_def)

lemma cfg_frame_trans [trans]: "cfg_frame q u v \<Longrightarrow> cfg_frame q v w \<Longrightarrow> cfg_frame q u w"
  by (auto simp: cfg_frame_def)

subsection \<open>Replacing one string\<close>

lemma cfg_owned_live: "cfg_owned k b \<Longrightarrow> field_get f k = Some a \<Longrightarrow> \<exists>s. b a = Some s"
  by (auto simp: cfg_owned_def)

lemma owned_set_field_set:
  "owned_set (field_set f p k) = {a. \<exists>g. g \<noteq> f \<and> field_get g k = Some a} \<union> {a. p = Some a}"
  by (auto simp: owned_set_def split: if_splits)

lemma cfg_owned_replace:
  assumes "cfg_owned k b" and "b n = None"
    and b': "b' = (case field_get f k of None \<Rightarrow> b | Some o' \<Rightarrow> b(o' := None))"
  shows "cfg_owned (field_set f (Some n) k) (b'(n \<mapsto> s))"
    and "cfg_owned (field_set f NULL k) b'"
  using assms unfolding cfg_owned_def by (auto split: if_splits option.splits) (metis option.distinct(1))+

lemma cfg_rest_replace:
  assumes "cfg_owned k b" and "b n = None"
    and b': "b' = (case field_get f k of None \<Rightarrow> b | Some o' \<Rightarrow> b(o' := None))"
  shows "cfg_rest (field_set f (Some n) k) (b'(n \<mapsto> s)) = cfg_rest k b"
    and "cfg_rest (field_set f NULL k) b' = cfg_rest k b"
proof -
  have own: "owned_set k = {a. \<exists>g. g \<noteq> f \<and> field_get g k = Some a} \<union> {a. field_get f k = Some a}"
    by (auto simp: owned_set_def)
  show "cfg_rest (field_set f (Some n) k) (b'(n \<mapsto> s)) = cfg_rest k b"
    using assms unfolding cfg_rest_def owned_set_field_set own
    by (auto simp: fun_eq_iff restrict_map_def cfg_owned_def split: option.splits)
  show "cfg_rest (field_set f NULL k) b' = cfg_rest k b"
    using assms unfolding cfg_rest_def owned_set_field_set own
    by (auto simp: fun_eq_iff restrict_map_def cfg_owned_def split: option.splits)
qed

lemma cfg_strings_replace:
  assumes "cfg_owned k b" and "b n = None"
    and b': "b' = (case field_get f k of None \<Rightarrow> b | Some o' \<Rightarrow> b(o' := None))"
  shows "cfg_strings (field_set f (Some n) k) (b'(n \<mapsto> s)) = (cfg_strings k b)(f := Some s)"
    and "cfg_strings (field_set f NULL k) b' = (cfg_strings k b)(f := None)"
  using assms unfolding cfg_strings_def cfg_owned_def
  by (fastforce simp: fun_eq_iff split: option.splits)+

text \<open>The state after \<open>f\<close>'s old string is gone and \<open>p\<close> is stored.\<close>

lemma cfg_holds_replace:
  assumes "blocks (cfgs w) q = Some k" and "mem_ok (strs w)" and "cfg_owned k (blocks (strs w))"
    and b': "b' = (case field_get f k of None \<Rightarrow> blocks (strs w)
                   | Some o' \<Rightarrow> (blocks (strs w))(o' := None))"
    and w': "blocks (cfgs w') q = Some (field_set f p k)"
    and p: "p = Some (next_addr (strs w)) \<and> blocks (strs w') = b'(next_addr (strs w) \<mapsto> s) \<and> v = Some s \<or>
            p = NULL \<and> blocks (strs w') = b' \<and> v = None"
    and n: "next_addr (strs w') = Suc (next_addr (strs w))"
  shows "cfg_holds q (cfg_rest k (blocks (strs w)))
    ((abs_cfg k (blocks (strs w)))\<lparr>a_str := (cfg_strings k (blocks (strs w)))(f := v)\<rparr>) w'"
proof -
  have fresh: "blocks (strs w) (next_addr (strs w)) = None"
    using assms(2) by (rule mem_ok_fresh)
  note facts = cfg_owned_replace [OF assms(3) fresh b'] cfg_rest_replace [OF assms(3) fresh b']
    cfg_strings_replace [OF assms(3) fresh b']
  have "mem_ok (strs w')"
    using assms(2) b' p n by (auto simp: mem_ok_def split: option.splits)
  with facts p w' show ?thesis
    unfolding cfg_holds_def by (auto simp: abs_cfg_def)
qed

lemma wp_replace:
  assumes "cfg_holds q R a w"
  shows "wp (andthen (free_field (Some q) f) (strdup_field (Some q) f s))
    (\<lambda>e w'. cfg_frame q w w' \<and> (e = ESP_OK \<or> e = ESP_ERR_NO_MEM) \<and>
       cfg_holds q R (a\<lparr>a_str := (a_str a)(f := if e = ESP_OK then Some s else None)\<rparr>) w') w"
proof -
  obtain k where k: "blocks (cfgs w) q = Some k" "mem_ok (strs w)" "cfg_owned k (blocks (strs w))"
    and R: "R = cfg_rest k (blocks (strs w))" and a: "a = abs_cfg k (blocks (strs w))"
    using assms by (auto simp: cfg_holds_def)
  define b' where "b' = (case field_get f k of None \<Rightarrow> blocks (strs w)
                         | Some o' \<Rightarrow> (blocks (strs w))(o' := None))"
  note repl = cfg_holds_replace [OF k b'_def]
  have a_str: "a_str a = cfg_strings k (blocks (strs w))" by (simp add: a abs_cfg_def)
  show ?thesis
  proof (cases "field_get f k")
    case None
    then show ?thesis
      using k(1) unfolding free_field_def strdup_field_def R a_str
      by (auto simp: wp_simps a cfg_frame_def b'_def intro!: repl)
  next
    case (Some o')
    moreover have "blocks (strs w) o' \<noteq> None"
      using k(3) Some by (auto simp: cfg_owned_def)
    ultimately show ?thesis
      using k(1) unfolding free_field_def strdup_field_def R a_str
      by (auto simp: wp_simps a cfg_frame_def b'_def intro!: repl)
  qed
qed

text \<open>Storing a string in an empty field.\<close>

lemma wp_strdup_empty:
  assumes "cfg_holds q R a w" and "a_str a f = None"
  shows "wp (strdup_field (Some q) f s)
    (\<lambda>e w'. cfg_frame q w w' \<and> (e = ESP_OK \<or> e = ESP_ERR_NO_MEM) \<and>
       cfg_holds q R (a\<lparr>a_str := (a_str a)(f := if e = ESP_OK then Some s else None)\<rparr>) w') w"
proof -
  obtain k where k: "blocks (cfgs w) q = Some k" "cfg_owned k (blocks (strs w))"
    and a: "a = abs_cfg k (blocks (strs w))"
    using assms(1) by (auto simp: cfg_holds_def)
  have "field_get f k = NULL"
    using assms(2) cfg_owned_live [OF k(2)]
    by (fastforce simp: a abs_cfg_def cfg_strings_def split: option.splits)
  then have "wp (strdup_field (Some q) f s) Q w =
      wp (andthen (free_field (Some q) f) (strdup_field (Some q) f s)) Q w" for Q
    using k(1) by (simp add: wp_simps free_field_def)
  with wp_replace [OF assms(1), of f s] show ?thesis by simp
qed

subsection \<open>A calculus of configuration steps\<close>

text \<open>
  \<open>cfg_step q R g m\<close>: on a configuration that stands for \<open>a\<close>, \<open>m\<close> does not fault; it
  returns \<open>ESP_OK\<close> with a configuration that stands for \<open>g a\<close> and the rest \<open>R\<close> of the
  string heap as before, or \<open>ESP_ERR_NO_MEM\<close> with a configuration that still owns its
  strings (blocks may be left behind then); everything outside is as before. Steps compose.
\<close>

definition cfg_step ::
  "nat \<Rightarrow> (nat \<rightharpoonup> string) \<Rightarrow> (abs_config \<Rightarrow> abs_config) \<Rightarrow> ('a, int) ws_act \<Rightarrow> bool" where
  "cfg_step q R g m \<longleftrightarrow> (\<forall>a w. cfg_holds q R a w \<longrightarrow>
     wp m (\<lambda>e w'. cfg_frame q w w' \<and>
       (e = ESP_OK \<and> cfg_holds q R (g a) w' \<or>
        e = ESP_ERR_NO_MEM \<and> (\<exists>a' R'. R \<subseteq>\<^sub>m R' \<and> cfg_holds q R' a' w'))) w)"

named_theorems cfg_steps "rules for the steps of a configuration"

lemma wp_chk [wp_simps]:
  "wp (chk m k) Q s = wp m (\<lambda>e t. if e = ESP_OK then wp k Q t else Q e t) s"
proof -
  have "(\<lambda>e. wp (if e = ESP_OK then k else ret e) Q) =
      (\<lambda>e t. if e = ESP_OK then wp k Q t else Q e t)"
    by (auto simp: fun_eq_iff wp_ret)
  then show ?thesis by (simp add: chk_def wp_bnd)
qed

lemma cfg_step_ret [cfg_steps]: "cfg_step q R (\<lambda>a. a) (ret ESP_OK)"
  by (simp add: cfg_step_def wp_simps)

lemma cfg_step_chk [cfg_steps]:
  fixes m k :: "('b, int) ws_act"
  assumes "cfg_step q R g m" and "cfg_step q R h k"
  shows "cfg_step q R (\<lambda>a. h (g a)) (chk m k)"
  unfolding cfg_step_def
proof (intro allI impI)
  fix a and w :: "'b ws_world_scheme"
  assume "cfg_holds q R a w"
  then have "wp m (\<lambda>e w'. cfg_frame q w w' \<and> (e = ESP_OK \<and> cfg_holds q R (g a) w' \<or>
        e = ESP_ERR_NO_MEM \<and> (\<exists>a' R'. R \<subseteq>\<^sub>m R' \<and> cfg_holds q R' a' w'))) w"
    using assms(1) by (auto simp: cfg_step_def)
  then show "wp (chk m k) (\<lambda>e w'. cfg_frame q w w' \<and> (e = ESP_OK \<and> cfg_holds q R (h (g a)) w' \<or>
        e = ESP_ERR_NO_MEM \<and> (\<exists>a' R'. R \<subseteq>\<^sub>m R' \<and> cfg_holds q R' a' w'))) w"
    unfolding wp_chk
  proof (rule wp_mono)
    fix e w'
    assume *: "cfg_frame q w w' \<and> (e = ESP_OK \<and> cfg_holds q R (g a) w' \<or>
        e = ESP_ERR_NO_MEM \<and> (\<exists>a' R'. R \<subseteq>\<^sub>m R' \<and> cfg_holds q R' a' w'))"
    show "if e = ESP_OK then wp k (\<lambda>e w''. cfg_frame q w w'' \<and>
         (e = ESP_OK \<and> cfg_holds q R (h (g a)) w'' \<or>
          e = ESP_ERR_NO_MEM \<and> (\<exists>a' R'. R \<subseteq>\<^sub>m R' \<and> cfg_holds q R' a' w''))) w'
       else cfg_frame q w w' \<and> (e = ESP_OK \<and> cfg_holds q R (h (g a)) w' \<or>
        e = ESP_ERR_NO_MEM \<and> (\<exists>a' R'. R \<subseteq>\<^sub>m R' \<and> cfg_holds q R' a' w'))"
    proof (cases "e = ESP_OK")
      case True
      with * have "wp k (\<lambda>e w''. cfg_frame q w' w'' \<and> (e = ESP_OK \<and> cfg_holds q R (h (g a)) w'' \<or>
          e = ESP_ERR_NO_MEM \<and> (\<exists>a' R'. R \<subseteq>\<^sub>m R' \<and> cfg_holds q R' a' w''))) w'"
        using assms(2) by (auto simp: cfg_step_def)
      then show ?thesis
        unfolding if_P [OF True] by (rule wp_mono) (use * cfg_frame_trans in blast)
    qed (use * in auto)
  qed
qed

text \<open>Assigning a field that holds no string.\<close>

lemma cfg_step_upd [cfg_steps]:
  assumes "\<And>f k. field_get f (u k) = field_get f k"
    and "\<And>k b. abs_cfg (u k) b = g (abs_cfg k b)"
    and "cfg_step q R h m"
  shows "cfg_step q R (\<lambda>a. h (g a)) (andthen (upd_cfg (Some q) u) m)"
proof -
  have "cfg_step q R (\<lambda>a. h (g a)) (chk (andthen (upd_cfg (Some q) u) (ret ESP_OK)) m)"
  proof (rule cfg_step_chk [OF _ assms(3)])
    show "cfg_step q R g (andthen (upd_cfg (Some q) u) (ret ESP_OK))"
      using assms(1,2) unfolding cfg_step_def cfg_holds_def
      by (auto simp: wp_simps cfg_frame_def cfg_owned_def cfg_rest_def owned_set_def)
  qed
  moreover have "chk (andthen (upd_cfg (Some q) u) (ret ESP_OK)) m = andthen (upd_cfg (Some q) u) m"
    by (auto simp: chk_def andthen_def bnd_def ret_def fun_eq_iff split: sum.split)
  ultimately show ?thesis by simp
qed

lemma cfg_step_when [cfg_steps]:
  assumes "cfg_step q R g (andthen m k)" and "cfg_step q R h k"
  shows "cfg_step q R (if b then g else h) (andthen (when_do b m) k)"
proof (cases b)
  case False
  have "andthen (ret ()) k = k" by (auto simp: andthen_def bnd_def ret_def)
  with assms False show ?thesis by (simp add: when_do_def)
qed (use assms in \<open>simp add: when_do_def\<close>)

lemma cfg_step_replace [cfg_steps]:
  "cfg_step q R (\<lambda>a. a\<lparr>a_str := (a_str a)(f := Some s)\<rparr>)
     (andthen (free_field (Some q) f) (strdup_field (Some q) f s))"
  unfolding cfg_step_def
proof (intro allI impI)
  fix a w
  assume "cfg_holds q R a w"
  from wp_replace [OF this]
  show "wp (andthen (free_field (Some q) f) (strdup_field (Some q) f s))
    (\<lambda>e w'. cfg_frame q w w' \<and>
       (e = ESP_OK \<and> cfg_holds q R (a\<lparr>a_str := (a_str a)(f := Some s)\<rparr>) w' \<or>
        e = ESP_ERR_NO_MEM \<and> (\<exists>a' R'. R \<subseteq>\<^sub>m R' \<and> cfg_holds q R' a' w'))) w"
    by (rule wp_mono) (auto intro: map_le_refl)
qed

lemma cfg_step_replace_field [cfg_steps]:
  "cfg_step q R (\<lambda>a. case src of None \<Rightarrow> a | Some s \<Rightarrow> a\<lparr>a_str := (a_str a)(f := Some s)\<rparr>)
     (replace_field (Some q) f src)"
  by (cases src) (auto simp: replace_field_def intro: cfg_steps)

subsection \<open>Blocks outside the configuration\<close>

lemma cfg_rest_Some: "cfg_rest k b n = Some s \<longleftrightarrow> b n = Some s \<and> n \<notin> owned_set k"
  by (auto simp: cfg_rest_def restrict_map_def)

lemma cfg_holds_rest_upd:
  assumes "blocks (cfgs w) q = Some k" and "cfg_owned k (blocks (strs w))"
    and "n \<notin> owned_set k" and "blocks (cfgs w') q = Some k" and "mem_ok (strs w')"
    and "blocks (strs w') = (blocks (strs w))(n := x)"
  shows "cfg_holds q ((cfg_rest k (blocks (strs w)))(n := x)) (abs_cfg k (blocks (strs w))) w'"
  using assms unfolding cfg_holds_def
  by (auto simp: cfg_owned_def owned_set_def cfg_rest_def abs_cfg_def cfg_strings_def
      restrict_map_def fun_eq_iff split: option.splits)

lemma wp_rest_alloc:
  assumes "cfg_holds q R a w"
  shows "wp (strdup s) (\<lambda>p w'. cfg_frame q w w' \<and> (case p of
      None \<Rightarrow> cfg_holds q R a w'
    | Some n \<Rightarrow> R n = None \<and> cfg_holds q (R(n \<mapsto> s)) a w')) w"
proof -
  obtain k where k: "blocks (cfgs w) q = Some k" "mem_ok (strs w)" "cfg_owned k (blocks (strs w))"
    and R: "R = cfg_rest k (blocks (strs w))" and a: "a = abs_cfg k (blocks (strs w))"
    using assms by (auto simp: cfg_holds_def)
  let ?n = "next_addr (strs w)"
  have fresh: "blocks (strs w) ?n = None" using k(2) by (rule mem_ok_fresh)
  then have "?n \<notin> owned_set k" using k(3) by (fastforce simp: cfg_owned_def owned_set_def)
  note upd = cfg_holds_rest_upd [OF k(1,3) this]
  have "R ?n = None" using fresh by (simp add: R cfg_rest_def restrict_map_def)
  moreover have "cfg_holds q R a (w\<lparr>strs := (strs w)\<lparr>next_addr := Suc ?n\<rparr>\<rparr>)"
    using k by (auto simp: cfg_holds_def mem_ok_def R a)
  moreover have "mem_ok ((strs w)\<lparr>blocks := (blocks (strs w))(?n \<mapsto> s), next_addr := Suc ?n\<rparr>)"
    using k(2) by (auto simp: mem_ok_def)
  ultimately show ?thesis
    using k(1) unfolding R a by (auto simp: wp_simps cfg_frame_def intro!: upd)
qed

lemma wp_rest_store:
  assumes "cfg_holds q R a w" and "R n \<noteq> None"
  shows "wp (zoom strs strs_update (mem_store (Some n) s))
           (\<lambda>_ w'. cfg_frame q w w' \<and> cfg_holds q (R(n \<mapsto> s)) a w') w"
proof -
  obtain k where k: "blocks (cfgs w) q = Some k" "mem_ok (strs w)" "cfg_owned k (blocks (strs w))"
    and R: "R = cfg_rest k (blocks (strs w))" and a: "a = abs_cfg k (blocks (strs w))"
    using assms by (auto simp: cfg_holds_def)
  from assms(2) have n: "blocks (strs w) n \<noteq> None" "n \<notin> owned_set k"
    by (auto simp: R cfg_rest_Some)
  show ?thesis
    using k(1,2) n(1) unfolding R a
    by (auto simp: wp_simps cfg_frame_def mem_ok_def intro!: cfg_holds_rest_upd [OF k(1,3) n(2)])
qed

lemma wp_rest_free:
  assumes "cfg_holds q R a w" and "R n \<noteq> None"
  shows "wp (free_str (Some n)) (\<lambda>_ w'. cfg_frame q w w' \<and> cfg_holds q (R(n := None)) a w') w"
proof -
  obtain k where k: "blocks (cfgs w) q = Some k" "mem_ok (strs w)" "cfg_owned k (blocks (strs w))"
    and R: "R = cfg_rest k (blocks (strs w))" and a: "a = abs_cfg k (blocks (strs w))"
    using assms by (auto simp: cfg_holds_def)
  from assms(2) have n: "blocks (strs w) n \<noteq> None" "n \<notin> owned_set k"
    by (auto simp: R cfg_rest_Some)
  show ?thesis
    using k(1,2) n(1) unfolding R a
    by (auto simp: wp_simps cfg_frame_def mem_ok_def intro!: cfg_holds_rest_upd [OF k(1,3) n(2)])
qed

subsection \<open>Setting the configuration, as a function on values\<close>

fun conf_str :: "esp_websocket_client_config \<Rightarrow> cfg_field \<Rightarrow> string option" where
  "conf_str conf F_uri = conf_uri conf"
| "conf_str conf F_host = conf_host conf"
| "conf_str conf F_path = conf_path conf"
| "conf_str conf F_scheme = None"
| "conf_str conf F_username = conf_username conf"
| "conf_str conf F_password = conf_password conf"

definition set_config_spec :: "esp_websocket_client_config \<Rightarrow> abs_config \<Rightarrow> abs_config" where
  "set_config_spec conf a = a\<lparr>
     a_str := (\<lambda>f. case conf_str conf f of None \<Rightarrow> a_str a f | Some s \<Rightarrow> Some s),
     a_port := (if conf_port conf \<noteq> 0 then conf_port conf else a_port a),
     a_task_prio := (if conf_task_prio conf \<le> 0 then 15 else conf_task_prio conf),
     a_task_stack := (if conf_task_stack conf = 0 then 4096 else conf_task_stack conf),
     a_auto_reconnect := \<not> conf_disable_auto_reconnect conf,
     a_user_context := conf_user_context conf,
     a_network_timeout_ms := 10000\<rparr>"

definition set_config_rest_spec :: "esp_websocket_client_config \<Rightarrow> abs_config \<Rightarrow> abs_config" where
  "set_config_rest_spec conf a = a\<lparr>
     a_str := (\<lambda>f. case conf_str conf f of None \<Rightarrow> a_str a f
                  | Some s \<Rightarrow> if f = F_host then a_str a f else Some s),
     a_port := (if conf_port conf \<noteq> 0 then conf_port conf else a_port a),
     a_auto_reconnect := \<not> conf_disable_auto_reconnect conf,
     a_user_context := conf_user_context conf,
     a_network_timeout_ms := 10000\<rparr>"

lemma cfg_step_cong:
  "cfg_step q R g m \<Longrightarrow> (\<And>a. g a = h a) \<Longrightarrow> cfg_step q R h m"
  by (metis ext)

lemma cfg_step_scalars:
  assumes "cfg_step q R h m"
  shows "cfg_step q R (\<lambda>a. h (a\<lparr>a_port := n\<rparr>)) (andthen (upd_cfg (Some q) (\<lambda>k. k\<lparr>cfg_port := n\<rparr>)) m)"
    and "cfg_step q R (\<lambda>a. h (a\<lparr>a_network_timeout_ms := n\<rparr>))
      (andthen (upd_cfg (Some q) (\<lambda>k. k\<lparr>cfg_network_timeout_ms := n\<rparr>)) m)"
    and "cfg_step q R (\<lambda>a. h (a\<lparr>a_user_context := p\<rparr>))
      (andthen (upd_cfg (Some q) (\<lambda>k. k\<lparr>cfg_user_context := p\<rparr>)) m)"
    and "cfg_step q R (\<lambda>a. h (a\<lparr>a_auto_reconnect := b\<rparr>))
      (andthen (upd_cfg (Some q) (\<lambda>k. k\<lparr>cfg_auto_reconnect := b\<rparr>)) m)"
  by (rule cfg_step_upd [OF _ _ assms];
      simp add: abs_cfg_def cfg_strings_def fun_eq_iff)+

lemma set_config_rest_step:
  "cfg_step q R (set_config_rest_spec conf) (set_config_rest (Some q) conf)"
  unfolding set_config_rest_def
  by (rule cfg_step_cong, (rule cfg_step_when cfg_step_scalars cfg_step_chk
        cfg_step_replace_field cfg_step_ret)+)
    (auto simp: set_config_rest_spec_def fun_eq_iff all_cfg_field ws_consts split: option.split)

text \<open>Storing the host drops the pointer to the old one.\<close>

lemma wp_strdup_host:
  assumes "cfg_holds q R a w"
  shows "wp (strdup_field (Some q) F_host s) (\<lambda>e w'. cfg_frame q w w' \<and>
     (\<exists>R'. (case a_str a F_host of None \<Rightarrow> R' = R | Some s0 \<Rightarrow> \<exists>h. R h = None \<and> R' = R(h \<mapsto> s0)) \<and>
       (e = ESP_OK \<and> cfg_holds q R' (a\<lparr>a_str := (a_str a)(F_host := Some s)\<rparr>) w' \<or>
        e = ESP_ERR_NO_MEM \<and> cfg_holds q R' (a\<lparr>a_str := (a_str a)(F_host := None)\<rparr>) w'))) w"
proof -
  obtain k where k: "blocks (cfgs w) q = Some k" "mem_ok (strs w)" "cfg_owned k (blocks (strs w))"
    and R: "R = cfg_rest k (blocks (strs w))" and a: "a = abs_cfg k (blocks (strs w))"
    using assms by (auto simp: cfg_holds_def)
  have a_host: "a_str a F_host = cfg_strings k (blocks (strs w)) F_host"
    by (simp add: a abs_cfg_def)
  show ?thesis
  proof (cases "field_get F_host k")
    case None
    then have none: "a_str a F_host = None" by (simp add: a_host cfg_strings_def)
    have "wp (strdup_field (Some q) F_host s) Q w =
        wp (andthen (free_field (Some q) F_host) (strdup_field (Some q) F_host s)) Q w" for Q
      using None k(1) by (simp add: wp_simps free_field_def)
    with wp_replace [OF assms, of F_host s] none show ?thesis
      by (auto intro: wp_mono)
  next
    case (Some h)
    let ?k' = "field_set F_host NULL k"
    obtain s0 where s0: "blocks (strs w) h = Some s0"
      using cfg_owned_live [OF k(3) Some] by blast
    have host: "a_str a F_host = Some s0" by (simp only: a_host cfg_strings_def Some s0 option.case)
    have "h \<in> owned_set k" using Some unfolding owned_set_def by blast
    then have Rh: "R h = None" by (simp add: R cfg_rest_def)
    have only: "field_get g k = Some h \<longleftrightarrow> g = F_host" for g
      using k(3) Some unfolding cfg_owned_def by blast
    have own_eq: "owned_set ?k' = owned_set k - {h}"
    proof (rule set_eqI)
      fix a
      have "a \<in> owned_set ?k' \<longleftrightarrow> (\<exists>f. f \<noteq> F_host \<and> field_get f k = Some a)"
        unfolding owned_set_field_set by simp
      also have "\<dots> \<longleftrightarrow> a \<noteq> h \<and> (\<exists>f. field_get f k = Some a)"
        by (metis only Some option.inject)
      finally show "a \<in> owned_set ?k' \<longleftrightarrow> a \<in> owned_set k - {h}"
        by (auto simp: owned_set_def)
    qed
    have own: "cfg_owned ?k' (blocks (strs w))"
      using k(3) unfolding cfg_owned_def field_get_set by (auto split: if_splits)
    have rest: "cfg_rest ?k' (blocks (strs w)) = R(h \<mapsto> s0)"
      using s0 \<open>h \<in> owned_set k\<close> by (auto simp: R cfg_rest_def own_eq fun_eq_iff restrict_map_def)
    have abs: "abs_cfg ?k' (blocks (strs w)) = a\<lparr>a_str := (a_str a)(F_host := None)\<rparr>"
      unfolding a by (auto simp: abs_cfg_def cfg_strings_def fun_eq_iff)
    define w0 where "w0 = w\<lparr>cfgs := (cfgs w)\<lparr>blocks := (blocks (cfgs w))(q \<mapsto> ?k')\<rparr>\<rparr>"
    have "cfg_holds q (R(h \<mapsto> s0)) (a\<lparr>a_str := (a_str a)(F_host := None)\<rparr>) w0"
      using own rest abs k(2) by (auto simp: cfg_holds_def w0_def)
    from wp_replace [OF this, of F_host s]
    have "wp (andthen (free_field (Some q) F_host) (strdup_field (Some q) F_host s))
      (\<lambda>e w'. cfg_frame q w w' \<and> (e = ESP_OK \<or> e = ESP_ERR_NO_MEM) \<and>
         cfg_holds q (R(h \<mapsto> s0)) (a\<lparr>a_str := (a_str a)
           (F_host := if e = ESP_OK then Some s else None)\<rparr>) w') w0"
      by (rule wp_mono) (auto simp: w0_def cfg_frame_def)
    moreover have "wp (andthen (free_field (Some q) F_host) (strdup_field (Some q) F_host s)) Q w0 =
        wp (strdup_field (Some q) F_host s) Q w" for Q
      using k(1) by (simp add: wp_simps free_field_def strdup_field_def w0_def)
    ultimately have *: "wp (strdup_field (Some q) F_host s)
      (\<lambda>e w'. cfg_frame q w w' \<and> (e = ESP_OK \<or> e = ESP_ERR_NO_MEM) \<and>
         cfg_holds q (R(h \<mapsto> s0)) (a\<lparr>a_str := (a_str a)
           (F_host := if e = ESP_OK then Some s else None)\<rparr>) w') w"
      by simp
    show ?thesis
      unfolding host option.case
      by (rule wp_mono [OF *], intro conjI exI [of _ "R(h \<mapsto> s0)"] exI [of _ h])
        (auto simp: Rh)
  qed
qed

lemma wp_load_cli:
  "blocks (clis w) c = Some cl \<Longrightarrow> wp (f cl) Q w \<Longrightarrow> wp (bnd (load_cli (Some c)) f) Q w"
  by (simp add: wp_simps)

lemma andthen_chk: "andthen u (chk m k) = chk (andthen u m) k"
  by (auto simp: chk_def andthen_def bnd_def ret_def fun_eq_iff split: sum.split)

lemma cfg_step_wp:
  assumes "cfg_step q R g m" and "cfg_holds q R a w"
  shows "wp m (\<lambda>e w'. cfg_frame q w w' \<and> (e = ESP_OK \<and> cfg_holds q R (g a) w' \<or>
     e = ESP_ERR_NO_MEM \<and> (\<exists>a' R'. R \<subseteq>\<^sub>m R' \<and> cfg_holds q R' a' w'))) w"
  using assms by (auto simp: cfg_step_def)

lemma wp_upd_scalar:
  assumes "cfg_holds q R a w"
    and "\<And>f k. field_get f (u k) = field_get f k"
    and "\<And>k b. abs_cfg (u k) b = g (abs_cfg k b)"
    and "\<And>w'. cfg_frame q w w' \<Longrightarrow> cfg_holds q R (g a) w' \<Longrightarrow> wp m Q w'"
  shows "wp (andthen (upd_cfg (Some q) u) m) Q w"
proof -
  have "wp (andthen (upd_cfg (Some q) u) (ret ESP_OK))
      (\<lambda>e w'. cfg_frame q w w' \<and> cfg_holds q R (g a) w') w"
    using assms(1-3) unfolding cfg_holds_def
    by (auto simp: wp_simps cfg_frame_def cfg_owned_def cfg_rest_def owned_set_def)
  then have "wp (upd_cfg (Some q) u) (\<lambda>e w'. cfg_frame q w w' \<and> cfg_holds q R (g a) w') w"
    by (simp add: wp_simps)
  then show ?thesis
    unfolding wp_andthen by (rule wp_mono) (use assms(4) in blast)
qed

text \<open>
  \<open>esp_websocket_client_set_config\<close> never faults. On \<open>ESP_OK\<close> the stored values are the
  given ones, with the documented defaults; the rest of the string heap gains the old
  host, if a host was stored and another one is given.
\<close>

lemma wp_set_config:
  assumes c: "blocks (clis w) c = Some cl" "cl_config cl = Some q" and a: "cfg_holds q R a w"
  shows "wp (esp_websocket_client_set_config (Some c) conf) (\<lambda>e w'. cfg_frame q w w' \<and>
    (\<exists>R'. (if conf_host conf = None \<or> a_str a F_host = None then R' = R
           else \<exists>h. R h = None \<and> R' = R(h \<mapsto> the (a_str a F_host))) \<and>
      (e = ESP_OK \<and> cfg_holds q R' (set_config_spec conf a) w' \<or>
       e = ESP_ERR_NO_MEM \<and> (\<exists>a' R''. R' \<subseteq>\<^sub>m R'' \<and> cfg_holds q R'' a' w')))) w"
    (is "wp _ ?Q w")
proof -
  let ?host = "case conf_host conf of None \<Rightarrow> ret ESP_OK | Some s \<Rightarrow> strdup_field (Some q) F_host s"
  let ?a1 = "a\<lparr>a_task_prio := (if conf_task_prio conf \<le> 0 then 15 else conf_task_prio conf),
    a_task_stack := (if conf_task_stack conf = 0 then 4096 else conf_task_stack conf)\<rparr>"
  let ?a2 = "?a1\<lparr>a_str := (\<lambda>f. if f = F_host \<and> conf_host conf \<noteq> None then conf_host conf else a_str a f)\<rparr>"
  let ?rel = "\<lambda>R'. if conf_host conf = None \<or> a_str a F_host = None then R' = R
           else \<exists>h. R h = None \<and> R' = R(h \<mapsto> the (a_str a F_host))"
  have host: "wp ?host (\<lambda>e v. cfg_frame q u v \<and> (\<exists>R'. ?rel R' \<and>
      (e = ESP_OK \<and> cfg_holds q R' ?a2 v \<or> e = ESP_ERR_NO_MEM \<and> (\<exists>a'. cfg_holds q R' a' v)))) u"
    if u: "cfg_holds q R ?a1 u" for u :: "'a ws_world_scheme"
  proof (cases "conf_host conf")
    case None
    with u show ?thesis by (simp add: wp_simps)
  next
    case (Some s)
    have a2: "?a1\<lparr>a_str := (a_str ?a1)(F_host := Some s)\<rparr> = ?a2"
      using Some by (simp add: fun_eq_iff)
    show ?thesis
      unfolding Some option.case
    proof (rule wp_mono [OF wp_strdup_host [OF u, of s]], elim conjE exE)
      fix e v R'
      assume "cfg_frame q u v"
        and rel: "case a_str ?a1 F_host of None \<Rightarrow> R' = R
                  | Some s0 \<Rightarrow> \<exists>h. R h = None \<and> R' = R(h \<mapsto> s0)"
        and r: "e = ESP_OK \<and> cfg_holds q R' (?a1\<lparr>a_str := (a_str ?a1)(F_host := Some s)\<rparr>) v \<or>
          e = ESP_ERR_NO_MEM \<and> cfg_holds q R' (?a1\<lparr>a_str := (a_str ?a1)(F_host := None)\<rparr>) v"
      moreover have "?rel R'" using rel Some by (cases "a_str a F_host") auto
      moreover note r [unfolded a2 Some]
      ultimately show "cfg_frame q u v \<and> (\<exists>R'. (if Some s = None \<or> a_str a F_host = None then R' = R
           else \<exists>h. R h = None \<and> R' = R(h \<mapsto> the (a_str a F_host))) \<and>
          (e = ESP_OK \<and> cfg_holds q R' (?a1\<lparr>a_str := (\<lambda>f. if f = F_host \<and> Some s \<noteq> None
             then Some s else a_str a f)\<rparr>) v \<or>
           e = ESP_ERR_NO_MEM \<and> (\<exists>a'. cfg_holds q R' a' v)))"
        unfolding Some by blast
    qed
  qed
  have tail: "wp (set_config_rest (Some q) conf) ?Q v"
    if v: "cfg_frame q w v" "cfg_holds q R' ?a2 v" and R': "?rel R'" for v R'
  proof (rule wp_mono [OF cfg_step_wp [OF set_config_rest_step v(2)]])
    have eq: "set_config_rest_spec conf ?a2 = set_config_spec conf a"
      unfolding set_config_rest_spec_def set_config_spec_def
      by (auto simp: fun_eq_iff all_cfg_field split: option.split)
    fix e v'
    assume "cfg_frame q v v' \<and> (e = ESP_OK \<and> cfg_holds q R' (set_config_rest_spec conf ?a2) v' \<or>
        e = ESP_ERR_NO_MEM \<and> (\<exists>a' R''. R' \<subseteq>\<^sub>m R'' \<and> cfg_holds q R'' a' v'))"
    with v(1) R' show "?Q e v'" unfolding eq by (blast intro: cfg_frame_trans)
  qed
  have main: "wp (chk ?host (set_config_rest (Some q) conf)) ?Q u"
    if "cfg_frame q w u" and "cfg_holds q R ?a1 u" for u
    unfolding wp_chk
  proof (rule wp_mono [OF host [OF that(2)]])
    fix e v
    assume *: "cfg_frame q u v \<and> (\<exists>R'. ?rel R' \<and> (e = ESP_OK \<and> cfg_holds q R' ?a2 v \<or>
        e = ESP_ERR_NO_MEM \<and> (\<exists>a'. cfg_holds q R' a' v)))"
    then have f: "cfg_frame q w v" using that(1) by (blast intro: cfg_frame_trans)
    from * obtain R' where rel: "?rel R'" and r: "e = ESP_OK \<and> cfg_holds q R' ?a2 v \<or>
        e = ESP_ERR_NO_MEM \<and> (\<exists>a'. cfg_holds q R' a' v)" by blast
    show "if e = ESP_OK then wp (set_config_rest (Some q) conf) ?Q v else ?Q e v"
    proof (cases "e = ESP_OK")
      case True
      with r have "cfg_holds q R' ?a2 v" by simp
      from tail [OF f this rel] show ?thesis unfolding if_P [OF True] .
    next
      case False
      with r have "e = ESP_ERR_NO_MEM \<and> (\<exists>a' R''. R' \<subseteq>\<^sub>m R'' \<and> cfg_holds q R'' a' v)"
        using map_le_refl by blast
      with f rel show ?thesis unfolding if_not_P [OF False] by blast
    qed
  qed
  show ?thesis
    unfolding esp_websocket_client_set_config_def
  proof (rule wp_load_cli [OF c(1)], unfold Let_def c(2), rule wp_upd_scalar [OF a, where
        g = "\<lambda>a. a\<lparr>a_task_prio := (if conf_task_prio conf \<le> 0 then 15 else conf_task_prio conf)\<rparr>"],
      simp, simp add: abs_cfg_def cfg_strings_def ws_consts fun_eq_iff, rule wp_upd_scalar [where
        g = "\<lambda>a. a\<lparr>a_task_stack := (if conf_task_stack conf = 0 then 4096 else conf_task_stack conf)\<rparr>"],
      assumption, simp, simp add: abs_cfg_def cfg_strings_def ws_consts fun_eq_iff)
    fix v u
    assume "cfg_frame q w v" and "cfg_frame q v u" and "cfg_holds q R ?a1 u"
    then show "wp (chk ?host (set_config_rest (Some q) conf)) ?Q u"
      by (intro main cfg_frame_trans [of q w v u])
  qed
qed

subsection \<open>Setting the URI, as a function on values\<close>

text \<open>
  What \<^verbatim>\<open>http_parser.h\<close> documents of a successful parse: every field that is present
  starts inside the string.
\<close>

definition url_within :: "string \<Rightarrow> parsed_url \<Rightarrow> bool" where
  "url_within uri puri \<longleftrightarrow>
     (\<forall>u \<in> {UF_SCHEMA puri, UF_HOST puri, UF_PORT puri, UF_PATH puri, UF_USERINFO puri}.
        uf_off u \<le> length uri)"

definition present :: "string \<Rightarrow> url_field \<Rightarrow> string option \<Rightarrow> string option" where
  "present uri u old = (if uf_len u = 0 then old else Some (url_slice uri u))"

definition set_uri_spec :: "string \<Rightarrow> parsed_url \<Rightarrow> abs_config \<Rightarrow> abs_config" where
  "set_uri_spec uri puri a =
     (let info = url_slice uri (UF_USERINFO puri);
          user = takeWhile (\<lambda>ch. ch \<noteq> CHR '':'') info;
          rest = dropWhile (\<lambda>ch. ch \<noteq> CHR '':'') info;
          has_info = (uf_len (UF_USERINFO puri) \<noteq> 0)
      in a\<lparr>
        a_str := (\<lambda>f. case f of
            F_scheme \<Rightarrow> present uri (UF_SCHEMA puri) (a_str a F_scheme)
          | F_host \<Rightarrow> present uri (UF_HOST puri) (a_str a F_host)
          | F_path \<Rightarrow> present uri (UF_PATH puri) (a_str a F_path)
          | F_username \<Rightarrow> (if has_info then Some user else a_str a F_username)
          | F_password \<Rightarrow> (if has_info \<and> rest \<noteq> [] then Some (tl rest) else a_str a F_password)
          | F_uri \<Rightarrow> a_str a F_uri),
        a_port := (if uf_off (UF_PORT puri) \<noteq> 0 then strtol10 (drop (uf_off (UF_PORT puri)) uri)
                   else a_port a)\<rparr>)"

text \<open>Where a failing \<open>asprintf\<close> stores NULL, it behaves as \<open>strdup\<close>.\<close>

lemma wp_asprintf_field:
  "asprintf_null E \<Longrightarrow>
     wp (asprintf_field E (Some q) f s) Q = wp (strdup_field (Some q) f s) Q"
  by (auto simp: asprintf_field_def strdup_field_def wp_simps fun_eq_iff)

lemma cfg_step_set_uri_field:
  assumes "asprintf_null E" and "uf_off u \<le> length uri"
  shows "cfg_step q R (\<lambda>a. a\<lparr>a_str := (a_str a)(f := present uri u (a_str a f))\<rparr>)
    (set_uri_field E (Some q) uri u f)"
proof (cases "uf_len u = 0")
  case True
  then show ?thesis
    by (simp add: set_uri_field_def present_def cfg_step_ret)
next
  case False
  have "cfg_step q R (\<lambda>a. a\<lparr>a_str := (a_str a)(f := Some (url_slice uri u))\<rparr>)
      (andthen (free_field (Some q) f) (asprintf_field E (Some q) f (url_slice uri u)))"
    using cfg_step_replace [of q R f "url_slice uri u"]
    unfolding cfg_step_def by (simp add: wp_andthen wp_asprintf_field [OF assms(1)])
  with False assms(2) show ?thesis
    by (simp add: set_uri_field_def with_field_def present_def)
qed

lemma wp_set_transport_path:
  assumes "cfg_holds q R a w" and "a_str a F_path = Some path" and "blocks (clis w) c = Some cl"
  shows "wp (set_transport_path E (Some c) (Some q) scheme)
    (\<lambda>_ w'. cfg_frame q w w' \<and> cfg_holds q R a w') w"
proof -
  obtain k where k: "blocks (cfgs w) q = Some k" and a: "a = abs_cfg k (blocks (strs w))"
    using assms(1) by (auto simp: cfg_holds_def)
  obtain p where "cfg_path k = Some p" and "blocks (strs w) p = Some path"
    using assms(2) by (auto simp: a abs_cfg_def cfg_strings_def field_get.simps split: option.splits)
  with k assms(1,3) show ?thesis
    by (auto simp: set_transport_path_def wp_simps cfg_frame_def cfg_holds_def)
qed

lemma wp_free_field_load:
  assumes "cfg_holds q R a w" and "R n = Some s"
  shows "wp (andthen (free_field (Some q) f) (bnd (load_str (Some n)) g)) Q w =
         wp (andthen (free_field (Some q) f) (g s)) Q w"
proof -
  obtain k where k: "blocks (cfgs w) q = Some k" "cfg_owned k (blocks (strs w))"
    and R: "R = cfg_rest k (blocks (strs w))"
    using assms(1) by (auto simp: cfg_holds_def)
  have n: "blocks (strs w) n = Some s" "field_get f k \<noteq> Some n"
    using assms(2) by (auto simp: R cfg_rest_Some owned_set_def)
  show ?thesis
    using k(1) n by (cases "field_get f k") (auto simp: free_field_def wp_simps)
qed

lemma wp_userinfo_tail:
  assumes "cfg_holds q R1 a w" and "R1 n = Some user" and R: "R = R1(n := None)"
  shows "wp (andthen (free_field (Some q) F_username) (bnd (load_str (Some n)) (\<lambda>u.
      chk (strdup_field (Some q) F_username u) (andthen (free_str (Some n)) (ret ESP_OK)))))
    (\<lambda>e w'. cfg_frame q w w' \<and>
       (e = ESP_OK \<and> cfg_holds q R (a\<lparr>a_str := (a_str a)(F_username := Some user)\<rparr>) w' \<or>
        e = ESP_ERR_NO_MEM \<and> (\<exists>a' R'. R \<subseteq>\<^sub>m R' \<and> cfg_holds q R' a' w'))) w"
  unfolding wp_free_field_load [OF assms(1,2)] andthen_chk wp_chk
proof (rule wp_mono [OF wp_replace [OF assms(1), of F_username user]])
  let ?Q = "\<lambda>e w'. cfg_frame q w w' \<and>
       (e = ESP_OK \<and> cfg_holds q R (a\<lparr>a_str := (a_str a)(F_username := Some user)\<rparr>) w' \<or>
        e = ESP_ERR_NO_MEM \<and> (\<exists>a' R'. R \<subseteq>\<^sub>m R' \<and> cfg_holds q R' a' w'))"
  have le: "R \<subseteq>\<^sub>m R1" by (auto simp: R map_le_def)
  fix e v
  assume *: "cfg_frame q w v \<and> (e = ESP_OK \<or> e = ESP_ERR_NO_MEM) \<and> cfg_holds q R1
      (a\<lparr>a_str := (a_str a)(F_username := if e = ESP_OK then Some user else None)\<rparr>) v"
  show "if e = ESP_OK then wp (andthen (free_str (Some n)) (ret ESP_OK)) ?Q v else ?Q e v"
  proof (cases "e = ESP_OK")
    case True
    with * have "cfg_holds q R1 (a\<lparr>a_str := (a_str a)(F_username := Some user)\<rparr>) v" by simp
    from wp_rest_free [OF this, of n] assms(2)
    have "wp (free_str (Some n)) (\<lambda>_ w'. cfg_frame q v w' \<and>
        cfg_holds q R (a\<lparr>a_str := (a_str a)(F_username := Some user)\<rparr>) w') v"
      by (simp add: R)
    then have "wp (free_str (Some n)) (\<lambda>_ w'. wp (ret ESP_OK) ?Q w') v"
      by (rule wp_mono) (use * in \<open>auto simp: wp_ret intro: cfg_frame_trans\<close>)
    then show ?thesis unfolding if_P [OF True] by (simp add: wp_andthen)
  next
    case False
    with * le show ?thesis by auto
  qed
qed

lemma wp_userinfo_password:
  assumes "cfg_holds q (R(n \<mapsto> info)) a w"
  shows "wp (andthen (zoom strs strs_update (mem_store (Some n) user))
      (andthen (free_field (Some q) F_password) (strdup_field (Some q) F_password pw)))
    (\<lambda>e w'. cfg_frame q w w' \<and> (e = ESP_OK \<or> e = ESP_ERR_NO_MEM) \<and> cfg_holds q (R(n \<mapsto> user))
       (a\<lparr>a_str := (a_str a)(F_password := if e = ESP_OK then Some pw else None)\<rparr>) w') w"
proof -
  have store: "wp (zoom strs strs_update (mem_store (Some n) user))
      (\<lambda>_ v. cfg_frame q w v \<and> cfg_holds q (R(n \<mapsto> user)) a v) w"
    by (rule wp_mono [OF wp_rest_store [OF assms, of n user]]) simp_all
  show ?thesis
    unfolding wp_andthen [of "zoom strs strs_update (mem_store (Some n) user)"]
  proof (rule wp_mono [OF store], elim conjE)
    fix u v
    assume f: "cfg_frame q w v" and h: "cfg_holds q (R(n \<mapsto> user)) a v"
    show "wp (andthen (free_field (Some q) F_password) (strdup_field (Some q) F_password pw))
      (\<lambda>e w'. cfg_frame q w w' \<and> (e = ESP_OK \<or> e = ESP_ERR_NO_MEM) \<and> cfg_holds q (R(n \<mapsto> user))
         (a\<lparr>a_str := (a_str a)(F_password := if e = ESP_OK then Some pw else None)\<rparr>) w') v"
      by (rule wp_mono [OF wp_replace [OF h, of F_password pw]])
        (use f in \<open>blast intro: cfg_frame_trans\<close>)
  qed
qed

lemma cfg_step_userinfo:
  fixes info :: string
  defines "user \<equiv> takeWhile (\<lambda>ch. ch \<noteq> CHR '':'') info"
    and "rest \<equiv> dropWhile (\<lambda>ch. ch \<noteq> CHR '':'') info"
  shows "cfg_step q R (\<lambda>a. a\<lparr>a_str := (if rest = [] then a_str a
      else (a_str a)(F_password := Some (tl rest)))(F_username := Some user)\<rparr>)
    (set_userinfo (Some q) info)"
  unfolding cfg_step_def set_userinfo_def wp_bnd [where m = "strdup info"]
proof (intro allI impI, rule wp_mono [OF wp_rest_alloc])
  fix a and w :: "'a ws_world_scheme"
  assume "cfg_holds q R a w"
  then show "cfg_holds q R a w" .
next
  fix a :: abs_config and p and w v :: "'a ws_world_scheme"
  let ?a' = "a\<lparr>a_str := (if rest = [] then a_str a
      else (a_str a)(F_password := Some (tl rest)))(F_username := Some user)\<rparr>"
  let ?Q = "\<lambda>e w'. cfg_frame q w w' \<and> (e = ESP_OK \<and> cfg_holds q R ?a' w' \<or>
        e = ESP_ERR_NO_MEM \<and> (\<exists>a' R'. R \<subseteq>\<^sub>m R' \<and> cfg_holds q R' a' w'))"
  let ?tail = "\<lambda>n. andthen (free_field (Some q) F_username) (bnd (load_str (Some n)) (\<lambda>u.
      chk (strdup_field (Some q) F_username u) (andthen (free_str (Some n)) (ret ESP_OK))))"
  assume *: "cfg_frame q w v \<and> (case p of None \<Rightarrow> cfg_holds q R a v
      | Some n \<Rightarrow> R n = None \<and> cfg_holds q (R(n \<mapsto> info)) a v)"
  show "wp (if p = NULL then ret ESP_ERR_NO_MEM else
      let user = takeWhile (\<lambda>ch. ch \<noteq> CHR '':'') info;
          rest = dropWhile (\<lambda>ch. ch \<noteq> CHR '':'') info in
       chk (if rest = [] then ret ESP_OK
            else andthen (zoom strs strs_update (mem_store p user))
                  (andthen (free_field (Some q) F_password)
                    (strdup_field (Some q) F_password (tl rest))))
       (andthen (free_field (Some q) F_username)
       (bnd (load_str p) (\<lambda>u.
       (chk (strdup_field (Some q) F_username u)
       (andthen (free_str p)
         (ret ESP_OK))))))) ?Q v"
  proof (cases p)
    case None
    with * show ?thesis by (auto simp: wp_ret intro!: exI [of _ a] exI [of _ R])
  next
    case (Some n)
    with * have f: "cfg_frame q w v" and fresh: "R n = None"
      and hold: "cfg_holds q (R(n \<mapsto> info)) a v" by auto
    have tail: "wp (?tail n) ?Q u" if "cfg_frame q w u" and "cfg_holds q (R(n \<mapsto> user)) b u"
      and "b = (if rest = [] then a else a\<lparr>a_str := (a_str a)(F_password := Some (tl rest))\<rparr>)" for b :: abs_config and u
    proof (rule wp_mono [OF wp_userinfo_tail [OF that(2), of n user R]])
      show "(R(n \<mapsto> user)) n = Some user" and "R = (R(n \<mapsto> user))(n := None)"
        using fresh by auto
    qed (use that(1,3) in \<open>auto intro: cfg_frame_trans split: if_splits\<close>)
    show ?thesis
    proof (cases "rest = []")
      case True
      then have "user = info" unfolding user_def rest_def
        by (metis append_Nil2 takeWhile_dropWhile_id)
      with True Some tail [OF f, of a] hold show ?thesis
        by (simp add: user_def [symmetric] rest_def [symmetric] wp_chk wp_ret)
    next
      case False
      let ?pw = "andthen (zoom strs strs_update (mem_store (Some n) user))
        (andthen (free_field (Some q) F_password) (strdup_field (Some q) F_password (tl rest)))"
      have "wp ?pw (\<lambda>e v'. if e = ESP_OK then wp (?tail n) ?Q v' else ?Q e v') v"
      proof (rule wp_mono [OF wp_userinfo_password [OF hold, of user "tl rest"]], elim conjE)
        fix e v'
        assume f': "cfg_frame q v v'" and e: "e = ESP_OK \<or> e = ESP_ERR_NO_MEM"
          and h: "cfg_holds q (R(n \<mapsto> user))
            (a\<lparr>a_str := (a_str a)(F_password := if e = ESP_OK then Some (tl rest) else None)\<rparr>) v'"
        have g: "cfg_frame q w v'" using f f' by (rule cfg_frame_trans)
        have le: "R \<subseteq>\<^sub>m R(n \<mapsto> user)" using fresh by (auto simp: map_le_def)
        show "if e = ESP_OK then wp (?tail n) ?Q v' else ?Q e v'"
          using e
        proof
          assume "e = ESP_OK"
          with h False tail [OF g] show ?thesis by simp
        next
          assume "e = ESP_ERR_NO_MEM"
          with g h le show ?thesis by auto
        qed
      qed
      then show ?thesis
        by (simp only: Some Let_def user_def [symmetric] rest_def [symmetric] wp_chk False
            option.distinct if_False)
    qed
  qed
qed

definition uri_tail_spec :: "string \<Rightarrow> parsed_url \<Rightarrow> abs_config \<Rightarrow> abs_config" where
  "uri_tail_spec uri puri a = (let info = url_slice uri (UF_USERINFO puri);
          rest = dropWhile (\<lambda>ch. ch \<noteq> CHR '':'') info
      in a\<lparr>a_str := (if uf_len (UF_USERINFO puri) = 0 then a_str a
             else (if rest = [] then a_str a else (a_str a)(F_password := Some (tl rest)))
                  (F_username := Some (takeWhile (\<lambda>ch. ch \<noteq> CHR '':'') info))),
           a_port := (if uf_off (UF_PORT puri) \<noteq> 0 then strtol10 (drop (uf_off (UF_PORT puri)) uri)
                      else a_port a)\<rparr>)"

lemma set_uri_tail_step:
  assumes "url_within uri puri"
  shows "cfg_step q R (uri_tail_spec uri puri) (set_uri_tail (Some q) uri puri)"
proof -
  let ?info = "if uf_len (UF_USERINFO puri) = 0 then ret ESP_OK
     else set_userinfo (Some q) (url_slice uri (UF_USERINFO puri))"
  have info: "cfg_step q R (\<lambda>a.
      let info = url_slice uri (UF_USERINFO puri);
          rest = dropWhile (\<lambda>ch. ch \<noteq> CHR '':'') info
      in a\<lparr>a_str := (if uf_len (UF_USERINFO puri) = 0 then a_str a
             else (if rest = [] then a_str a else (a_str a)(F_password := Some (tl rest)))
                  (F_username := Some (takeWhile (\<lambda>ch. ch \<noteq> CHR '':'') info)))\<rparr>)
      (chk ?info (ret ESP_OK))"
  proof (cases "uf_len (UF_USERINFO puri) = 0")
    case True
    show ?thesis
      unfolding if_P [OF True] by (rule cfg_step_cong, (rule cfg_step_chk cfg_step_ret)+) simp
  next
    case False
    show ?thesis
      unfolding if_not_P [OF False]
      by (rule cfg_step_cong, (rule cfg_step_chk cfg_step_userinfo cfg_step_ret)+) (simp add: Let_def)
  qed
  have eq: "set_uri_tail (Some q) uri puri =
     andthen (when_do (uf_off (UF_PORT puri) \<noteq> 0)
       (upd_cfg (Some q) (\<lambda>k. k\<lparr>cfg_port := strtol10 (drop (uf_off (UF_PORT puri)) uri)\<rparr>)))
      (chk ?info (ret ESP_OK))"
    using assms by (simp add: set_uri_tail_def with_field_def url_within_def)
  show ?thesis
    unfolding eq
    by (rule cfg_step_cong, rule cfg_step_when, rule cfg_step_scalars(1) [OF info], rule info)
      (auto simp: Let_def uri_tail_spec_def)
qed

lemma set_uri_strings_step:
  assumes "asprintf_null E" and "url_within uri puri"
  shows "cfg_step q R (\<lambda>a. a\<lparr>a_str := (a_str a)
      (F_scheme := present uri (UF_SCHEMA puri) (a_str a F_scheme),
       F_host := present uri (UF_HOST puri) (a_str a F_host),
       F_path := present uri (UF_PATH puri) (a_str a F_path))\<rparr>)
    (set_uri_strings E (Some q) uri puri)"
  unfolding set_uri_strings_def using assms
  by (intro cfg_step_cong [OF cfg_step_chk [OF cfg_step_set_uri_field
        cfg_step_chk [OF cfg_step_set_uri_field cfg_step_set_uri_field]]])
    (auto simp: url_within_def)

lemma wp_set_uri_paths:
  assumes "cfg_holds q R a w" and "blocks (clis w) c = Some cl"
    and "uf_len (UF_PATH puri) \<noteq> 0 \<longrightarrow> a_str a F_path \<noteq> None"
  shows "wp (set_uri_paths E (Some c) (Some q) puri)
    (\<lambda>_ w'. cfg_frame q w w' \<and> cfg_holds q R a w') w"
proof (cases "uf_len (UF_PATH puri) = 0")
  case True
  with assms(1) show ?thesis by (simp add: set_uri_paths_def wp_simps)
next
  case False
  then obtain path where path: "a_str a F_path = Some path" using assms(3) by blast
  have "wp (set_transport_path E (Some c) (Some q) ''ws'') (\<lambda>_ v.
      wp (set_transport_path E (Some c) (Some q) ''wss'')
        (\<lambda>_ w'. cfg_frame q w w' \<and> cfg_holds q R a w') v) w"
  proof (rule wp_mono [OF wp_set_transport_path [OF assms(1) path assms(2)]], elim conjE)
    fix v
    assume f: "cfg_frame q w v" and h: "cfg_holds q R a v"
    have "blocks (clis v) c = Some cl" using f assms(2) by (simp add: cfg_frame_def)
    from wp_set_transport_path [OF h path this]
    show "wp (set_transport_path E (Some c) (Some q) ''wss'')
        (\<lambda>_ w'. cfg_frame q w w' \<and> cfg_holds q R a w') v"
      by (rule wp_mono) (use f in \<open>blast intro: cfg_frame_trans\<close>)
  qed
  with False show ?thesis by (simp add: set_uri_paths_def wp_when_do wp_andthen)
qed

text \<open>
  \<open>esp_websocket_client_set_uri\<close> stores the parts of the URI that are present and leaves
  the other fields; it never faults and, unless it reports \<open>ESP_ERR_NO_MEM\<close>, leaks nothing.
\<close>

lemma wp_set_uri:
  assumes c: "blocks (clis w) c = Some cl" "cl_config cl = Some q" and a: "cfg_holds q R a w"
    and E: "asprintf_null E" "http_parser_parse_url E uri = (0, puri)" "url_within uri puri"
  shows "wp (esp_websocket_client_set_uri E (Some c) (Some uri)) (\<lambda>e w'. cfg_frame q w w' \<and>
      (e = ESP_OK \<and> cfg_holds q R (set_uri_spec uri puri a) w' \<or>
       e = ESP_ERR_NO_MEM \<and> (\<exists>a' R'. R \<subseteq>\<^sub>m R' \<and> cfg_holds q R' a' w'))) w"
    (is "wp _ ?Q w")
proof -
  let ?a1 = "a\<lparr>a_str := (a_str a)
      (F_scheme := present uri (UF_SCHEMA puri) (a_str a F_scheme),
       F_host := present uri (UF_HOST puri) (a_str a F_host),
       F_path := present uri (UF_PATH puri) (a_str a F_path))\<rparr>"
  have tail: "wp (set_uri_tail (Some q) uri puri) ?Q v"
    if "cfg_frame q w v" and "cfg_holds q R ?a1 v" for v
  proof (rule wp_mono [OF cfg_step_wp [OF set_uri_tail_step [OF E(3)] that(2)]])
    have eq: "uri_tail_spec uri puri ?a1 = set_uri_spec uri puri a"
      by (auto simp: uri_tail_spec_def set_uri_spec_def Let_def fun_eq_iff split: cfg_field.split)
    show "?Q e v'" if "cfg_frame q v v' \<and>
       (e = ESP_OK \<and> cfg_holds q R (uri_tail_spec uri puri ?a1) v' \<or>
        e = ESP_ERR_NO_MEM \<and> (\<exists>a' R'. R \<subseteq>\<^sub>m R' \<and> cfg_holds q R' a' v'))" for e v'
      using that \<open>cfg_frame q w v\<close> unfolding eq by (blast intro: cfg_frame_trans)
  qed
  have rest: "wp (andthen (set_uri_paths E (Some c) (Some q) puri) (set_uri_tail (Some q) uri puri)) ?Q v"
    if f: "cfg_frame q w v" and h: "cfg_holds q R ?a1 v" for v
  proof -
    have cl: "blocks (clis v) c = Some cl" using f c(1) by (simp add: cfg_frame_def)
    have "uf_len (UF_PATH puri) \<noteq> 0 \<longrightarrow> a_str ?a1 F_path \<noteq> None" by (simp add: present_def)
    from wp_set_uri_paths [OF h cl this]
    have "wp (set_uri_paths E (Some c) (Some q) puri)
        (\<lambda>_. wp (set_uri_tail (Some q) uri puri) ?Q) v"
      by (rule wp_mono) (erule conjE, rule tail, erule cfg_frame_trans [OF f], assumption)
    then show ?thesis by (simp only: wp_andthen)
  qed
  have strings: "wp (set_uri_strings E (Some q) uri puri) (\<lambda>e v. if e = ESP_OK
      then wp (andthen (set_uri_paths E (Some c) (Some q) puri) (set_uri_tail (Some q) uri puri)) ?Q v
      else ?Q e v) w"
    by (rule wp_mono [OF cfg_step_wp [OF set_uri_strings_step [OF E(1,3)] a]])
      (use rest in fastforce)
  have eq: "esp_websocket_client_set_uri E (Some c) (Some uri) =
      bnd (load_cli (Some c)) (\<lambda>d. let cfg = cl_config d in
       chk (set_uri_strings E cfg uri puri)
       (andthen (set_uri_paths E (Some c) cfg puri) (set_uri_tail cfg uri puri)))"
    using E(2) by (simp add: esp_websocket_client_set_uri_def)
  show ?thesis
    unfolding eq
    by (rule wp_load_cli [OF c(1)], unfold Let_def c(2) wp_chk, rule strings)
qed

lemma set_uri_errors:
  shows "esp_websocket_client_set_uri E NULL u w = Inr (ESP_ERR_INVALID_ARG, w)"
    and "esp_websocket_client_set_uri E p None w = Inr (ESP_ERR_INVALID_ARG, w)"
    and "fst (http_parser_parse_url E s) \<noteq> 0 \<Longrightarrow>
      esp_websocket_client_set_uri E (Some c) (Some s) w = Inr (ESP_FAIL, w)"
  by (auto simp: esp_websocket_client_set_uri_def run_simps split: prod.split)

subsection \<open>Destroying the configuration\<close>

text \<open>The pointers in the order in which they are freed.\<close>

definition cfg_ptrs :: "websocket_config_storage \<Rightarrow> ptr list" where
  "cfg_ptrs k = [cfg_host k, cfg_uri k, cfg_path k, cfg_scheme k, cfg_username k, cfg_password k]"

lemma cfg_ptrs_owned:
  assumes "cfg_owned k b"
  shows "distinct (filter (\<lambda>p. p \<noteq> NULL) (cfg_ptrs k))"
    and "\<forall>a. Some a \<in> set (cfg_ptrs k) \<longrightarrow> b a \<noteq> None"
    and "{a. Some a \<in> set (cfg_ptrs k)} = owned_set k"
proof -
  have get: "cfg_ptrs k = map (\<lambda>f. field_get f k) [F_host, F_uri, F_path, F_scheme, F_username, F_password]"
    by (simp add: cfg_ptrs_def field_get.simps)
  have inj: "field_get f k = field_get g k \<Longrightarrow> field_get f k \<noteq> NULL \<Longrightarrow> f = g" for f g
    using assms unfolding cfg_owned_def by (metis option.exhaust)
  show "distinct (filter (\<lambda>p. p \<noteq> NULL) (cfg_ptrs k))"
    unfolding get by (auto dest: inj)
  show "\<forall>a. Some a \<in> set (cfg_ptrs k) \<longrightarrow> b a \<noteq> None"
    using assms unfolding get cfg_owned_def by auto
  show "{a. Some a \<in> set (cfg_ptrs k)} = owned_set k"
    unfolding get owned_set_def by (auto, metis cfg_field.exhaust)
qed

text \<open>Freeing the fields one by one is freeing the list of their pointers.\<close>

lemma wp_free_field:
  "blocks (cfgs w) q = Some k \<Longrightarrow> wp (free_field (Some q) f) Q w =
     wp (mem_free (field_get f k)) (\<lambda>_ h. Q () (w\<lparr>strs := h\<rparr>)) (strs w)"
  by (simp add: free_field_def wp_bnd wp_loads free_str_def wp_zoom)

lemma wp_free_fields:
  assumes "blocks (cfgs w) q = Some k"
  shows "wp (foldr (\<lambda>f m. andthen (free_field (Some q) f) m) fs m) Q w =
    wp (heap.release_all (map (\<lambda>f. field_get f k) fs))
      (\<lambda>_ h. wp m Q (w\<lparr>strs := h\<rparr>)) (strs w)"
  using assms
proof (induction fs arbitrary: w)
  case Nil
  then show ?case by (simp add: wp_simps)
next
  case (Cons f fs)
  have IH: "wp (foldr (\<lambda>f m. andthen (free_field (Some q) f) m) fs m) Q (w\<lparr>strs := h\<rparr>) =
    wp (heap.release_all (map (\<lambda>f. field_get f k) fs)) (\<lambda>_ h'. wp m Q (w\<lparr>strs := h'\<rparr>)) h" for h
    using Cons.IH [of "w\<lparr>strs := h\<rparr>"] Cons.prems by simp
  show ?case
    by (simp add: wp_andthen wp_free_field [OF Cons.prems] IH)
qed

text \<open>
  \<open>esp_websocket_client_destroy_config\<close> frees exactly the configuration and its strings:
  what remains of the string heap is the rest \<open>R\<close>.
\<close>

lemma wp_destroy_config:
  assumes c: "blocks (clis w) c = Some cl" "cl_config cl = Some q" and a: "cfg_holds q R a w"
  shows "wp (esp_websocket_client_destroy_config (Some c)) (\<lambda>e w'. e = ESP_OK \<and>
     blocks (strs w') = R \<and> mem_ok (strs w') \<and>
     blocks (cfgs w') = (blocks (cfgs w))(q := None) \<and>
     blocks (clis w') = (blocks (clis w))(c \<mapsto> cl\<lparr>cl_config := NULL\<rparr>) \<and>
     bufs w' = bufs w \<and> calls w' = calls w \<and> ws_world.more w' = ws_world.more w \<and>
     next_addr (cfgs w') = next_addr (cfgs w)) w"
    (is "wp _ ?Q w")
proof -
  obtain k where k: "blocks (cfgs w) q = Some k" "mem_ok (strs w)" "cfg_owned k (blocks (strs w))"
    and R: "R = cfg_rest k (blocks (strs w))"
    using a by (auto simp: cfg_holds_def)
  let ?rest = "andthen (upd_cfg (Some q) (\<lambda>_. zero_config_storage)) (andthen (free_cfg (Some q))
    (andthen (upd_cli (Some c) (\<lambda>d. d\<lparr>cl_config := NULL\<rparr>)) (ret ESP_OK)))"
  let ?fs = "[F_host, F_uri, F_path, F_scheme, F_username, F_password]"
  have fs: "map (\<lambda>f. field_get f k) ?fs = cfg_ptrs k"
    by (simp add: cfg_ptrs_def field_get.simps)
  have "wp (heap.release_all (cfg_ptrs k)) (\<lambda>_ m. mem_ok m \<and> blocks m = R) (strs w)"
    using heap.release_all_spec [OF k(2) cfg_ptrs_owned(1,2) [OF k(3) ]] k(3)
    by (simp add: cfg_ptrs_owned(3) [OF k(3)] R cfg_rest_def)
  then have "wp (heap.release_all (cfg_ptrs k)) (\<lambda>_ h. wp ?rest ?Q (w\<lparr>strs := h\<rparr>)) (strs w)"
    by (rule wp_mono) (use c k(1) in \<open>simp add: wp_simps\<close>)
  then have "wp (foldr (\<lambda>f m. andthen (free_field (Some q) f) m) ?fs ?rest) ?Q w"
    by (simp only: wp_free_fields [OF k(1)] fs)
  then have main: "wp (andthen (free_field (Some q) F_host) (andthen (free_field (Some q) F_uri)
      (andthen (free_field (Some q) F_path) (andthen (free_field (Some q) F_scheme)
      (andthen (free_field (Some q) F_username) (andthen (free_field (Some q) F_password)
        ?rest)))))) ?Q w"
    by (simp only: foldr.simps o_def id_apply)
  have "wp (bnd (load_cli (Some c)) (\<lambda>d. let cfg = cl_config d in
       if cfg = NULL then ret ESP_ERR_INVALID_ARG
       else andthen (free_field cfg F_host) (andthen (free_field cfg F_uri)
           (andthen (free_field cfg F_path) (andthen (free_field cfg F_scheme)
           (andthen (free_field cfg F_username) (andthen (free_field cfg F_password)
           (andthen (upd_cfg cfg (\<lambda>_. zero_config_storage)) (andthen (free_cfg cfg)
           (andthen (upd_cli (Some c) (\<lambda>d. d\<lparr>cl_config := NULL\<rparr>)) (ret ESP_OK)))))))))))
      ?Q w"
    by (rule wp_load_cli [OF c(1)]) (simp only: Let_def c(2) option.distinct if_False main)
  then show ?thesis
    by (simp only: esp_websocket_client_destroy_config_def option.distinct if_False)
qed

end
