(* ===== verification/WsClient.thy ===== *)
theory WsClient
  imports WsConfig
begin

text \<open>
  The public functions of the websocket client, apart from sending: creation
  (\<open>esp_websocket_client_init\<close>), destruction, start, stop, the connection test and the
  registration of event handlers. The lemmas show that a failing creation gives every
  structure and buffer back, and that a successful one builds a well-formed client.
\<close>

subsection \<open>Small functions\<close>

text \<open>\<open>_tick_get_ms\<close>.\<close>

definition tick_get_ms :: "'w env \<Rightarrow> ('a, 64 word) ws_act" where
  "tick_get_ms E = bnd (ext_int E esp_timer_get_time) (\<lambda>t. ret (word_of_int (c_div t 1000)))"

definition esp_websocket_client_is_connected :: "ptr \<Rightarrow> ('a, bool) ws_act" where
  "esp_websocket_client_is_connected client =
    (if client = NULL then ret False
     else bnd (load_cli client) (\<lambda>c. ret (cl_state c = WEBSOCKET_STATE_CONNECTED)))"

definition esp_websocket_register_events ::
  "'w env \<Rightarrow> ptr \<Rightarrow> esp_websocket_event_id \<Rightarrow> event_handler_fn \<Rightarrow> ptr \<Rightarrow> ('a, int) ws_act" where
  "esp_websocket_register_events E client event event_handler arg =
    (if client = NULL then ret ESP_ERR_INVALID_ARG
     else bnd (load_cli client) (\<lambda>c.
       ext_int E (esp_event_handler_register_with (cl_event_handle c) event event_handler arg)))"

definition esp_websocket_client_start :: "'w env \<Rightarrow> ptr \<Rightarrow> ('a, int) ws_act" where
  "esp_websocket_client_start E client =
    (if client = NULL then ret ESP_ERR_INVALID_ARG
     else bnd (load_cli client) (\<lambda>c.
       if WEBSOCKET_STATE_INIT \<le> cl_state c then ret ESP_FAIL
       else bnd (load_cfg (cl_config c)) (\<lambda>k.
         bnd (ext_int E (xTaskCreate_ws ''websocket_task'' (cfg_task_stack k) client (cfg_task_prio k)))
           (\<lambda>r. if r \<noteq> pdPASS then ret ESP_FAIL
                else andthen (ext_do (xEventGroupClearBits_STOPPED (cl_status_bits c)))
                       (ret ESP_OK)))))"

text \<open>What \<open>esp_websocket_client_stop\<close> does once \<open>STOPPED_BIT\<close> is set.\<close>

definition stop_finish :: "ptr \<Rightarrow> ('a, int) ws_act" where
  "stop_finish client =
     andthen (upd_cli client (\<lambda>d. d\<lparr>cl_state := WEBSOCKET_STATE_UNKNOW\<rparr>)) (ret ESP_OK)"

definition esp_websocket_client_stop :: "ptr \<Rightarrow> ('a, int) ws_act" where
  "esp_websocket_client_stop client =
    (if client = NULL then ret ESP_ERR_INVALID_ARG
     else bnd (load_cli client) (\<lambda>c.
       if \<not> cl_run c then ret ESP_FAIL
       else andthen (upd_cli client (\<lambda>d. d\<lparr>cl_run := False\<rparr>))
           (andthen (ext_do (xEventGroupWaitBits_STOPPED (cl_status_bits c)))
             (stop_finish client))))"

subsection \<open>Destruction\<close>

definition free_cli :: "ptr \<Rightarrow> ('a, unit) ws_act" where
  "free_cli p = zoom clis clis_update (mem_free p)"

lemmas free_cli_wp [wp_simps] = free_cli_def
lemmas free_cli_run [run_simps] = free_cli_def

definition esp_websocket_client_destroy :: "ptr \<Rightarrow> ('a, int) ws_act" where
  "esp_websocket_client_destroy client =
    (if client = NULL then ret ESP_ERR_INVALID_ARG
     else bnd (load_cli client) (\<lambda>c0.
       andthen (when_do (cl_run c0) (bnd (esp_websocket_client_stop client) (\<lambda>_. ret ())))
      (bnd (load_cli client) (\<lambda>c.
       andthen (when_do (cl_event_handle c \<noteq> NULL) (ext_do (esp_event_loop_delete (cl_event_handle c))))
      (andthen (esp_websocket_client_destroy_config client)
      (andthen (ext_do (esp_transport_list_destroy (cl_transport_list c)))
      (andthen (ext_do (vQueueDelete (cl_lock c)))
      (andthen (free_buf (cl_tx_buffer c))
      (andthen (free_buf (cl_rx_buffer c))
      (andthen (when_do (cl_status_bits c \<noteq> NULL) (ext_do (vEventGroupDelete (cl_status_bits c))))
      (andthen (free_cli client)
        (ret ESP_OK))))))))))))"

subsection \<open>Creation\<close>

text \<open>\<open>_websocket_init_fail\<close>, and the memory check that jumps to it.\<close>

definition init_fail :: "ptr \<Rightarrow> ('a, ptr) ws_act" where
  "init_fail client = andthen (esp_websocket_client_destroy client) (ret NULL)"

definition or_fail :: "ptr \<Rightarrow> ptr \<Rightarrow> ('a, ptr) ws_act \<Rightarrow> ('a, ptr) ws_act" where
  "or_fail client p k = (if p = NULL then init_fail client else k)"

text \<open>\<open>asprintf(&client->config->scheme, s)\<close> and its check.\<close>

definition init_scheme :: "'w env \<Rightarrow> ptr \<Rightarrow> string \<Rightarrow> ('a, ptr) ws_act \<Rightarrow> ('a, ptr) ws_act" where
  "init_scheme E client s k = bnd (load_cli client) (\<lambda>c.
     bnd (asprintf_field E (cl_config c) F_scheme s) (\<lambda>e.
       if e = ESP_OK then k else init_fail client))"

text \<open>The lock and the four transports; \<open>k\<close> is the code that follows.\<close>

definition init_transports ::
  "'w env \<Rightarrow> ptr \<Rightarrow> esp_websocket_client_config \<Rightarrow> ('a, ptr) ws_act \<Rightarrow> ('a, ptr) ws_act" where
  "init_transports E client conf k =
     bnd (ext_ptr E xSemaphoreCreateMutex) (\<lambda>lk.
     andthen (upd_cli client (\<lambda>d. d\<lparr>cl_lock := lk\<rparr>)) (or_fail client lk
    (bnd (ext_ptr E esp_transport_list_init) (\<lambda>tl.
     andthen (upd_cli client (\<lambda>d. d\<lparr>cl_transport_list := tl\<rparr>)) (or_fail client tl
    (bnd (ext_ptr E esp_transport_tcp_init) (\<lambda>tcp. or_fail client tcp
    (andthen (ext_do (esp_transport_set_default_port tcp WEBSOCKET_TCP_DEFAULT_PORT))
    (andthen (ext_do (esp_transport_list_add tl tcp ''_tcp''))
    (bnd (ext_ptr E (esp_transport_ws_init tcp)) (\<lambda>ws. or_fail client ws
    (andthen (ext_do (esp_transport_set_default_port ws WEBSOCKET_TCP_DEFAULT_PORT))
    (andthen (ext_do (esp_transport_list_add tl ws ''ws''))
    ((if conf_transport conf = WEBSOCKET_TRANSPORT_OVER_TCP then init_scheme E client ''ws'' else (\<lambda>m. m))
    (bnd (ext_ptr E esp_transport_ssl_init) (\<lambda>ssl. or_fail client ssl
    (andthen (ext_do (esp_transport_set_default_port ssl WEBSOCKET_SSL_DEFAULT_PORT))
    (andthen (case conf_cert_pem conf of None \<Rightarrow> ret ()
              | Some pem \<Rightarrow> ext_do (esp_transport_ssl_set_cert_data ssl pem (length pem)))
    (andthen (ext_do (esp_transport_list_add tl ssl ''_ssl''))
    (bnd (ext_ptr E (esp_transport_ws_init ssl)) (\<lambda>wss. or_fail client wss
    (andthen (ext_do (esp_transport_set_default_port wss WEBSOCKET_SSL_DEFAULT_PORT))
    (andthen (ext_do (esp_transport_list_add tl wss ''wss''))
    ((if conf_transport conf = WEBSOCKET_TRANSPORT_OVER_TCP then init_scheme E client ''wss'' else (\<lambda>m. m))
     k))))))))))))))))))))))))"

text \<open>The stored configuration.\<close>

definition calloc_cfg :: "('a, ptr) ws_act" where
  "calloc_cfg = zoom cfgs cfgs_update (mem_alloc sizeof_config_storage zero_config_storage)"

lemmas calloc_cfg_wp [wp_simps] = calloc_cfg_def
lemmas calloc_cfg_run [run_simps] = calloc_cfg_def

definition init_config ::
  "'w env \<Rightarrow> ptr \<Rightarrow> esp_websocket_client_config \<Rightarrow> ('a, ptr) ws_act \<Rightarrow> ('a, ptr) ws_act" where
  "init_config E client conf k =
     bnd calloc_cfg (\<lambda>cfg.
     andthen (upd_cli client (\<lambda>d. d\<lparr>cl_config := cfg\<rparr>)) (or_fail client cfg
    (bnd (case conf_uri conf of None \<Rightarrow> ret ESP_OK
          | Some uri \<Rightarrow> esp_websocket_client_set_uri E client (Some uri)) (\<lambda>e1.
     if e1 \<noteq> ESP_OK then init_fail client
     else bnd (esp_websocket_client_set_config client conf) (\<lambda>e2.
     if e2 \<noteq> ESP_OK then init_fail client
     else bnd (load_cfg cfg) (\<lambda>kk.
       (if cfg_scheme kk = NULL then init_scheme E client ''ws'' else (\<lambda>m. m)) k))))))"

text \<open>The time stamps, the buffers and the event group.\<close>

definition init_buffers :: "'w env \<Rightarrow> ptr \<Rightarrow> esp_websocket_client_config \<Rightarrow> ('a, ptr) ws_act" where
  "init_buffers E client conf =
     bnd (tick_get_ms E) (\<lambda>t1. andthen (upd_cli client (\<lambda>d. d\<lparr>cl_keepalive_tick_ms := t1\<rparr>))
    (bnd (tick_get_ms E) (\<lambda>t2. andthen (upd_cli client (\<lambda>d. d\<lparr>cl_reconnect_tick_ms := t2\<rparr>))
    (bnd (tick_get_ms E) (\<lambda>t3. andthen (upd_cli client (\<lambda>d. d\<lparr>cl_ping_tick_ms := t3\<rparr>))
    (let buffer_size = (if conf_buffer_size conf \<le> 0 then WEBSOCKET_BUFFER_SIZE_BYTE
                        else conf_buffer_size conf) in
     bnd (malloc_buf E buffer_size) (\<lambda>rx.
     andthen (upd_cli client (\<lambda>d. d\<lparr>cl_rx_buffer := rx\<rparr>)) (or_fail client rx
    (bnd (malloc_buf E buffer_size) (\<lambda>tx.
     andthen (upd_cli client (\<lambda>d. d\<lparr>cl_tx_buffer := tx\<rparr>)) (or_fail client tx
    (bnd (ext_ptr E xEventGroupCreate) (\<lambda>sb.
     andthen (upd_cli client (\<lambda>d. d\<lparr>cl_status_bits := sb\<rparr>)) (or_fail client sb
    (andthen (upd_cli client (\<lambda>d. d\<lparr>cl_buffer_size := buffer_size\<rparr>))
      (ret client))))))))))))))))"

definition calloc_cli :: "('a, ptr) ws_act" where
  "calloc_cli = zoom clis clis_update (mem_alloc sizeof_client zero_client)"

lemmas calloc_cli_wp [wp_simps] = calloc_cli_def
lemmas calloc_cli_run [run_simps] = calloc_cli_def

text \<open>\<open>esp_event_loop_create\<close> answers with the new loop, NULL standing for an error.\<close>

definition esp_websocket_client_init ::
  "'w env \<Rightarrow> esp_websocket_client_config \<Rightarrow> ('a, ptr) ws_act" where
  "esp_websocket_client_init E conf = bnd calloc_cli (\<lambda>client.
     if client = NULL then ret NULL
     else bnd (ext_ptr E (esp_event_loop_create WEBSOCKET_EVENT_QUEUE_SIZE)) (\<lambda>loop.
       if loop = NULL then andthen (free_cli client) (ret NULL)
       else andthen (upd_cli client (\<lambda>d. d\<lparr>cl_event_handle := loop\<rparr>))
         (init_transports E client conf
           (init_config E client conf
             (init_buffers E client conf)))))"

subsection \<open>A client under construction\<close>

text \<open>
  \<open>client_parts a n c w0 cl w\<close>: compared with \<open>w0\<close>, the heaps of \<open>w\<close> hold the client at
  \<open>c\<close> with content \<open>cl\<close>, its configuration, which stands for \<open>a\<close>, and its buffers of \<open>n\<close>
  bytes, as far as they exist.
\<close>

definition same_structs :: "'a ws_world_scheme \<Rightarrow> 'a ws_world_scheme \<Rightarrow> bool" where
  "same_structs w0 w \<longleftrightarrow> blocks (clis w) = blocks (clis w0) \<and>
     blocks (cfgs w) = blocks (cfgs w0) \<and> blocks (bufs w) = blocks (bufs w0) \<and>
     ws_world.more w = ws_world.more w0"

definition cfg_part ::
  "'a ws_world_scheme \<Rightarrow> abs_config \<Rightarrow> ptr \<Rightarrow> 'a ws_world_scheme \<Rightarrow> bool" where
  "cfg_part w0 a p w \<longleftrightarrow> (case p of
       None \<Rightarrow> blocks (cfgs w) = blocks (cfgs w0)
     | Some q \<Rightarrow> blocks (cfgs w0) q = None \<and> (\<exists>R. cfg_holds q R a w) \<and>
                (\<forall>p. p \<noteq> q \<longrightarrow> blocks (cfgs w) p = blocks (cfgs w0) p))"

definition buf_part ::
  "'a ws_world_scheme \<Rightarrow> nat \<Rightarrow> ptr \<Rightarrow> ptr \<Rightarrow> 'a ws_world_scheme \<Rightarrow> bool" where
  "buf_part w0 n tx rx w \<longleftrightarrow> mem_ok (bufs w) \<and> plan (bufs w) = plan (bufs w0) \<and> distinct (filter (\<lambda>p. p \<noteq> NULL) [tx, rx]) \<and>
     (\<forall>a. Some a \<in> {tx, rx} \<longrightarrow> blocks (bufs w0) a = None \<and>
        (\<exists>bs. blocks (bufs w) a = Some bs \<and> length bs = n)) \<and>
     (\<forall>a. Some a \<notin> {tx, rx} \<longrightarrow> blocks (bufs w) a = blocks (bufs w0) a)"

definition client_parts ::
  "abs_config \<Rightarrow> nat \<Rightarrow> nat \<Rightarrow> 'a ws_world_scheme \<Rightarrow> esp_websocket_client \<Rightarrow>
   'a ws_world_scheme \<Rightarrow> bool" where
  "client_parts a n c w0 cl w \<longleftrightarrow> blocks (clis w0) c = None \<and>
     blocks (clis w) = (blocks (clis w0))(c \<mapsto> cl) \<and> ws_world.more w = ws_world.more w0 \<and>
     mem_ok (strs w) \<and> mem_ok (cfgs w) \<and>
     cfg_part w0 a (cl_config cl) w \<and> buf_part w0 n (cl_tx_buffer cl) (cl_rx_buffer cl) w"

lemma client_parts_cli: "client_parts a n c w0 cl w \<Longrightarrow> blocks (clis w) c = Some cl"
  by (simp add: client_parts_def)

lemma wp_free_buf:
  "wp (free_buf p) Q w = wp (mem_free p) (\<lambda>_ h. Q () (w\<lparr>bufs := h\<rparr>)) (bufs w)"
  by (simp add: free_buf_def wp_zoom)

text \<open>Releasing the two buffers restores the buffer heap.\<close>

lemma wp_free_bufs:
  assumes "buf_part w0 n tx rx w"
  shows "wp (heap.release_all [tx, rx]) (\<lambda>_ m. blocks m = blocks (bufs w0)) (bufs w)"
proof -
  have "wp (heap.release_all [tx, rx])
      (\<lambda>_ m. mem_ok m \<and> blocks m = blocks (bufs w) |` (- {a. Some a \<in> set [tx, rx]})) (bufs w)"
    using assms by (intro heap.release_all_spec) (auto simp: buf_part_def)
  then show ?thesis
    by (rule wp_mono)
      (use assms in \<open>auto simp: buf_part_def restrict_map_def fun_eq_iff\<close>)
qed

text \<open>
  Destroying a client that does not run gives the structures and buffers back and ends
  with its configuration's strings released too.
\<close>

lemma wp_destroy_idle:
  assumes parts: "client_parts a n c w0 cl w" and idle: "\<not> cl_run cl"
  shows "wp (esp_websocket_client_destroy (Some c)) (\<lambda>e w'. e = ESP_OK \<and> same_structs w0 w') w"
proof -
  define fin :: "('a, int) ws_act" where "fin =
      andthen (when_do (cl_status_bits cl \<noteq> NULL) (ext_do (vEventGroupDelete (cl_status_bits cl))))
      (andthen (free_cli (Some c)) (ret ESP_OK))"
  let ?finish = "andthen (ext_do (esp_transport_list_destroy (cl_transport_list cl)))
      (andthen (ext_do (vQueueDelete (cl_lock cl)))
      (andthen (free_buf (cl_tx_buffer cl)) (andthen (free_buf (cl_rx_buffer cl)) fin)))"
  let ?Q = "\<lambda>e w'. e = ESP_OK \<and> same_structs w0 w'"
  note p = parts [unfolded client_parts_def]
  have fin: "wp fin ?Q u" if "blocks (clis u) = (blocks (clis w0))(c \<mapsto> d)"
      "blocks (cfgs u) = blocks (cfgs w0)" "blocks (bufs u) = blocks (bufs w0)"
      "ws_world.more u = ws_world.more w0" for u d
    using that p by (auto simp: fin_def wp_simps same_structs_def)
  have rest: "wp ?finish ?Q v" if v: "blocks (clis v) = (blocks (clis w0))(c \<mapsto> d)"
      "blocks (cfgs v) = blocks (cfgs w0)" "bufs v = bufs w" "ws_world.more v = ws_world.more w0" for v d
  proof -
    let ?v = "v\<lparr>calls := calls v @ [esp_transport_list_destroy (cl_transport_list cl), vQueueDelete (cl_lock cl)]\<rparr>"
    have "wp (heap.release_all [cl_tx_buffer cl, cl_rx_buffer cl])
        (\<lambda>_ m. blocks m = blocks (bufs w0)) (bufs w)"
      using p by (intro wp_free_bufs [of w0 n]) simp
    then have "wp (heap.release_all [cl_tx_buffer cl, cl_rx_buffer cl])
        (\<lambda>_ h. wp fin ?Q (?v\<lparr>bufs := h\<rparr>)) (bufs v)"
      unfolding v(3) by (rule wp_mono) (rule fin [of _ d], use v in auto)
    then show ?thesis
      by (simp add: wp_andthen wp_ext wp_free_buf wp_ret)
  qed
  have cfg: "wp (esp_websocket_client_destroy_config (Some c)) (\<lambda>_. wp ?finish ?Q) u"
    if u: "u = w\<lparr>calls := cs\<rparr>" for u cs
  proof (cases "cl_config cl")
    case None
    with p u show ?thesis
      by (simp add: esp_websocket_client_destroy_config_def wp_bnd wp_loads wp_ret wp_if
          rest cfg_part_def)
  next
    case (Some q)
    with p obtain R where q: "cfg_holds q R a w" "blocks (cfgs w0) q = None"
      "\<forall>p. p \<noteq> q \<longrightarrow> blocks (cfgs w) p = blocks (cfgs w0) p"
      by (auto simp: cfg_part_def)
    have h: "cfg_holds q R a u" using q(1) by (simp add: u cfg_holds_def)
    have "blocks (clis u) c = Some cl" using p u by simp
    from wp_destroy_config [OF this Some h] show ?thesis
      by (rule wp_mono) (use p q u in \<open>auto simp: fun_eq_iff intro!: rest\<close>)
  qed
  have "wp (andthen (when_do (cl_event_handle cl \<noteq> NULL)
      (ext_do (esp_event_loop_delete (cl_event_handle cl))))
      (andthen (esp_websocket_client_destroy_config (Some c)) ?finish)) ?Q w"
    using cfg [of w "calls w"] cfg [OF refl]
    by (cases "cl_event_handle cl") (simp_all add: wp_andthen wp_when_do wp_ext)
  with idle p show ?thesis
    unfolding esp_websocket_client_destroy_def fin_def
    by (simp add: wp_bnd wp_loads wp_if wp_when_do wp_andthen wp_ret)
qed

subsection \<open>Creation, step by step\<close>

text \<open>
  Each statement of \<open>esp_websocket_client_init\<close> keeps the parts built so far; a failing
  check destroys them.
\<close>

lemma parts_frame [simp]:
  "cfg_holds q R a (w\<lparr>calls := cs\<rparr>) = cfg_holds q R a w"
  "cfg_holds q R a (w\<lparr>clis := h\<rparr>) = cfg_holds q R a w"
  "cfg_holds q R a (w\<lparr>bufs := b\<rparr>) = cfg_holds q R a w"
  "cfg_part w0 a p (w\<lparr>calls := cs\<rparr>) = cfg_part w0 a p w"
  "cfg_part w0 a p (w\<lparr>clis := h\<rparr>) = cfg_part w0 a p w"
  "cfg_part w0 a p (w\<lparr>bufs := b\<rparr>) = cfg_part w0 a p w"
  "buf_part w0 n tx rx (w\<lparr>calls := cs\<rparr>) = buf_part w0 n tx rx w"
  "buf_part w0 n tx rx (w\<lparr>clis := h\<rparr>) = buf_part w0 n tx rx w"
  by (auto simp: cfg_holds_def cfg_part_def buf_part_def split: option.split)

lemma client_parts_calls [simp]:
  "client_parts a n c w0 cl (w\<lparr>calls := cs\<rparr>) = client_parts a n c w0 cl w"
  by (simp add: client_parts_def)

lemma client_parts_upd:
  assumes "client_parts a n c w0 cl w" and "cl_config d = cl_config cl"
    and "cl_tx_buffer d = cl_tx_buffer cl" and "cl_rx_buffer d = cl_rx_buffer cl"
  shows "client_parts a n c w0 d (w\<lparr>clis := (clis w)\<lparr>blocks := (blocks (clis w))(c \<mapsto> d)\<rparr>\<rparr>)"
  using assms by (simp add: client_parts_def)

lemma wp_upd_parts:
  assumes "client_parts a n c w0 cl w"
    and "cl_config (f cl) = cl_config cl" "cl_tx_buffer (f cl) = cl_tx_buffer cl"
      "cl_rx_buffer (f cl) = cl_rx_buffer cl"
    and "\<And>w'. client_parts a n c w0 (f cl) w' \<Longrightarrow> wp m Q w'"
  shows "wp (andthen (upd_cli (Some c) f) m) Q w"
  using assms(5) [OF client_parts_upd [OF assms(1-4)]] client_parts_cli [OF assms(1)]
  by (simp add: wp_simps)

lemma wp_ext_parts:
  assumes "client_parts a n c w0 cl w"
    and "\<And>h w'. client_parts a n c w0 cl w' \<Longrightarrow> wp (k h) Q w'"
  shows "wp (bnd (ext_ptr E x) k) Q w"
  using assms by (simp add: wp_simps)

lemma wp_do_parts:
  assumes "client_parts a n c w0 cl w"
    and "\<And>w'. client_parts a n c w0 cl w' \<Longrightarrow> wp m Q w'"
  shows "wp (andthen (ext_do x) m) Q w"
  using assms by (simp add: wp_simps)

lemma wp_init_fail:
  assumes "client_parts a n c w0 cl w" and "\<not> cl_run cl" and "\<And>w'. same_structs w0 w' \<Longrightarrow> Q NULL w'"
  shows "wp (init_fail (Some c)) Q w"
  unfolding init_fail_def wp_andthen
  by (rule wp_mono [OF wp_destroy_idle [OF assms(1,2)]]) (simp add: wp_ret assms(3))

lemma wp_or_fail:
  assumes "client_parts a n c w0 cl w" and "\<not> cl_run cl" and "\<And>w'. same_structs w0 w' \<Longrightarrow> Q NULL w'"
    and "p \<noteq> NULL \<Longrightarrow> wp k Q w"
  shows "wp (or_fail (Some c) p k) Q w"
  using assms by (auto simp: or_fail_def intro: wp_init_fail)

lemma wp_init_transports:
  assumes p: "client_parts a n c w0 cl w" and idle: "\<not> cl_run cl"
    and conf: "conf_transport conf \<noteq> WEBSOCKET_TRANSPORT_OVER_TCP"
    and fail: "\<And>w'. same_structs w0 w' \<Longrightarrow> Q NULL w'"
    and k: "\<And>lk tl w'. client_parts a n c w0 (cl\<lparr>cl_lock := lk, cl_transport_list := tl\<rparr>) w' \<Longrightarrow>
      lk \<noteq> NULL \<Longrightarrow> tl \<noteq> NULL \<Longrightarrow> wp k Q w'"
  shows "wp (init_transports E (Some c) conf k) Q w"
proof -
  have step: "wp (or_fail (Some c) p m) Q v"
    if "client_parts a n c w0 d v" and "\<not> cl_run d" and "p \<noteq> NULL \<Longrightarrow> wp m Q v" for d p m v
    using wp_or_fail [of a n c w0 d v Q p m] that fail by blast
  have cert: "wp (andthen (case conf_cert_pem conf of None \<Rightarrow> ret ()
      | Some pem \<Rightarrow> ext_do (esp_transport_ssl_set_cert_data ssl pem (length pem))) m) Q v"
    if "client_parts a n c w0 d v" "\<And>w'. client_parts a n c w0 d w' \<Longrightarrow> wp m Q w'" for ssl d m v
    using that by (cases "conf_cert_pem conf") (auto simp: wp_simps)
  show ?thesis
    unfolding init_transports_def if_not_P [OF conf]
    apply (rule wp_ext_parts [OF p], rule wp_upd_parts, assumption, simp, simp, simp)
    apply (rule step, assumption, simp add: idle)
    apply (rule wp_ext_parts, assumption, rule wp_upd_parts, assumption, simp, simp, simp)
    apply (rule step, assumption, simp add: idle)
    apply (rule wp_ext_parts, assumption, rule step, assumption, simp add: idle)
    apply (rule wp_do_parts, assumption)+
    apply (rule wp_ext_parts, assumption, rule step, assumption, simp add: idle)
    apply (rule wp_do_parts, assumption)+
    apply (rule wp_ext_parts, assumption, rule step, assumption, simp add: idle)
    apply (rule wp_do_parts, assumption, rule cert, assumption, rule wp_do_parts, assumption)
    apply (rule wp_ext_parts, assumption, rule step, assumption, simp add: idle)
    apply (rule wp_do_parts, assumption)+
    apply (rule k, assumption+)
    done
qed

text \<open>The configuration a new client gets.\<close>

definition zero_abs :: abs_config where
  "zero_abs = \<lparr>a_str = (\<lambda>_. None), a_port = 0, a_task_prio = 0, a_task_stack = 0,
     a_auto_reconnect = False, a_user_context = NULL, a_network_timeout_ms = 0\<rparr>"

definition init_config_spec :: "'w env \<Rightarrow> esp_websocket_client_config \<Rightarrow> abs_config" where
  "init_config_spec E conf =
     (let a1 = (case conf_uri conf of None \<Rightarrow> zero_abs
                | Some u \<Rightarrow> set_uri_spec u (snd (http_parser_parse_url E u)) zero_abs);
          a2 = set_config_spec conf a1
      in if a_str a2 F_scheme = None then a2\<lparr>a_str := (a_str a2)(F_scheme := Some ''ws'')\<rparr> else a2)"

lemma zero_config_holds:
  assumes "mem_ok (strs w)" and "blocks (cfgs w) q = Some zero_config_storage"
  shows "cfg_holds q (blocks (strs w)) zero_abs w"
proof -
  have "field_get f zero_config_storage = NULL" for f
    by (cases f) (simp_all add: field_get.simps zero_config_storage_def)
  with assms show ?thesis
    by (auto simp: cfg_holds_def cfg_owned_def cfg_rest_def owned_set_def abs_cfg_def cfg_strings_def
        zero_abs_def zero_config_storage_def)
qed

lemma wp_calloc_cfg_parts:
  assumes p: "client_parts a n c w0 cl w" and none: "cl_config cl = NULL"
    and N: "\<And>w'. client_parts a n c w0 cl w' \<Longrightarrow> wp (m NULL) Q w'"
    and S: "\<And>q w'. client_parts zero_abs n c w0 (cl\<lparr>cl_config := Some q\<rparr>) w' \<Longrightarrow> wp (m (Some q)) Q w'"
  shows "wp (bnd calloc_cfg (\<lambda>cfg. andthen (upd_cli (Some c) (\<lambda>d. d\<lparr>cl_config := cfg\<rparr>)) (m cfg))) Q w"
proof -
  let ?q = "next_addr (cfgs w)"
  note p' = p [unfolded client_parts_def cfg_part_def none option.case]
  have same: "cl\<lparr>cl_config := NULL\<rparr> = cl" using none by simp
  let ?wN = "w\<lparr>cfgs := (cfgs w)\<lparr>next_addr := Suc ?q\<rparr>,
    clis := (clis w)\<lparr>blocks := (blocks (clis w))(c \<mapsto> cl)\<rparr>\<rparr>"
  have "client_parts a n c w0 cl ?wN"
    using p' none by (auto simp: client_parts_def cfg_part_def buf_part_def dest: mem_ok_fail)
  from N [OF this] have N': "wp (m NULL) Q ?wN" .
  let ?wS = "w\<lparr>cfgs := (cfgs w)\<lparr>blocks := (blocks (cfgs w))(?q \<mapsto> zero_config_storage), next_addr := Suc ?q\<rparr>,
    clis := (clis w)\<lparr>blocks := (blocks (clis w))(c \<mapsto> cl\<lparr>cl_config := Some ?q\<rparr>)\<rparr>\<rparr>"
  have "cfg_holds ?q (blocks (strs ?wS)) zero_abs ?wS"
    using p' by (intro zero_config_holds) simp_all
  moreover have "blocks (cfgs w0) ?q = None" using p' by (metis mem_ok_fresh)
  ultimately have "client_parts zero_abs n c w0 (cl\<lparr>cl_config := Some ?q\<rparr>) ?wS"
    using p' mem_ok_new [of "cfgs w" zero_config_storage]
    by (auto simp: client_parts_def cfg_part_def buf_part_def)
  from S [OF this] have S': "wp (m (Some ?q)) Q ?wS" .
  show ?thesis
    using N' S' p' by (simp add: wp_simps same)
qed

lemma parts_cfg_frame:
  assumes p: "client_parts a n c w0 cl w" and q: "cl_config cl = Some q"
    and f: "cfg_frame q w w'" and h: "cfg_holds q R' a' w'"
  shows "client_parts a' n c w0 cl w'"
proof -
  have "next_addr (cfgs w) > q"
    using p q by (auto simp: client_parts_def cfg_part_def cfg_holds_def mem_ok_def not_le [symmetric])
  then have "mem_ok (cfgs w')"
    using p f by (auto simp: client_parts_def mem_ok_def cfg_frame_def)
  with assms show ?thesis
    by (auto simp: client_parts_def cfg_part_def buf_part_def cfg_frame_def cfg_holds_def)
qed

lemma wp_init_scheme:
  assumes p: "client_parts a n c w0 cl w" and q: "cl_config cl = Some q" and idle: "\<not> cl_run cl"
    and E: "asprintf_null E" and none: "a_str a F_scheme = None"
    and fail: "\<And>w'. same_structs w0 w' \<Longrightarrow> Q NULL w'"
    and k: "\<And>w'. client_parts (a\<lparr>a_str := (a_str a)(F_scheme := Some s)\<rparr>) n c w0 cl w' \<Longrightarrow> wp k Q w'"
  shows "wp (init_scheme E (Some c) s k) Q w"
proof -
  obtain R where h: "cfg_holds q R a w"
    using p q by (auto simp: client_parts_def cfg_part_def)
  have "wp (asprintf_field E (Some q) F_scheme s)
      (\<lambda>e. wp (if e = ESP_OK then k else init_fail (Some c)) Q) w"
    unfolding wp_asprintf_field [OF E]
  proof (rule wp_mono [OF wp_strdup_empty [OF h none, of s]], elim conjE)
    fix e w'
    assume f: "cfg_frame q w w'" and h': "cfg_holds q R
      (a\<lparr>a_str := (a_str a)(F_scheme := if e = ESP_OK then Some s else None)\<rparr>) w'"
    note p' = parts_cfg_frame [OF p q f h']
    show "wp (if e = ESP_OK then k else init_fail (Some c)) Q w'"
    proof (cases "e = ESP_OK")
      case True
      with p' show ?thesis by (simp add: k)
    next
      case False
      with wp_init_fail [OF p' idle, of Q] fail show ?thesis by simp
    qed
  qed
  then show ?thesis
    unfolding init_scheme_def by (intro wp_load_cli [OF client_parts_cli [OF p]]) (simp add: q wp_bnd)
qed

lemma wp_init_config:
  assumes p: "client_parts a n c w0 cl w" and none: "cl_config cl = NULL" and idle: "\<not> cl_run cl"
    and E: "asprintf_null E"
    and url: "\<And>u. conf_uri conf = Some u \<Longrightarrow> url_within u (snd (http_parser_parse_url E u))"
    and fail: "\<And>w'. same_structs w0 w' \<Longrightarrow> Q NULL w'"
    and k: "\<And>q w'. client_parts (init_config_spec E conf) n c w0 (cl\<lparr>cl_config := Some q\<rparr>) w' \<Longrightarrow>
      wp k Q w'"
  shows "wp (init_config E (Some c) conf k) Q w"
  unfolding init_config_def
proof (rule wp_calloc_cfg_parts [OF p none])
  fix w' assume "client_parts a n c w0 cl w'"
  from wp_init_fail [OF this idle, of Q] fail
  show "wp (or_fail (Some c) NULL m) Q w'" for m
    by (simp add: or_fail_def)
next
  let ?a1 = "case conf_uri conf of None \<Rightarrow> zero_abs
     | Some u \<Rightarrow> set_uri_spec u (snd (http_parser_parse_url E u)) zero_abs"
  fix q w1
  let ?cl = "cl\<lparr>cl_config := Some q\<rparr>"
  assume p1: "client_parts zero_abs n c w0 ?cl w1"
  have stop: "wp (init_fail (Some c)) Q v" if "client_parts b n c w0 ?cl v" for b v
    using wp_init_fail [OF that, of Q] idle fail by simp
  have scheme: "wp ((if cfg_scheme kk = NULL then init_scheme E (Some c) ''ws'' else (\<lambda>m. m)) k) Q v"
    if v: "client_parts (set_config_spec conf ?a1) n c w0 ?cl v" "blocks (cfgs v) q = Some kk" for v kk
  proof -
    from v have eq: "abs_cfg kk (blocks (strs v)) = set_config_spec conf ?a1"
      and own: "cfg_owned kk (blocks (strs v))"
      by (auto simp: client_parts_def cfg_part_def cfg_holds_def)
    have "a_str (set_config_spec conf ?a1) F_scheme = cfg_strings kk (blocks (strs v)) F_scheme"
      unfolding eq [symmetric] by (simp add: abs_cfg_def)
    then have iff: "cfg_scheme kk = NULL \<longleftrightarrow> a_str (set_config_spec conf ?a1) F_scheme = None"
      using cfg_owned_live [OF own, of F_scheme]
      by (auto simp: cfg_strings_def field_get.simps(4) split: option.splits)
    show ?thesis
    proof (cases "cfg_scheme kk = NULL")
      case True
      then have no: "a_str (set_config_spec conf ?a1) F_scheme = None" by (simp only: iff)
      have spec: "init_config_spec E conf = (set_config_spec conf ?a1)
          \<lparr>a_str := (a_str (set_config_spec conf ?a1))(F_scheme := Some ''ws'')\<rparr>"
        unfolding init_config_spec_def Let_def by (simp only: no if_True refl)
      have "wp (init_scheme E (Some c) ''ws'' k) Q v"
      proof (rule wp_init_scheme [where q = q, OF v(1) _ _ E no])
        show "wp k Q w'" if "client_parts ((set_config_spec conf ?a1)
          \<lparr>a_str := (a_str (set_config_spec conf ?a1))(F_scheme := Some ''ws'')\<rparr>) n c w0 ?cl w'" for w'
          using that unfolding spec [symmetric] by (rule k)
      qed (simp_all add: idle fail)
      with True show ?thesis by simp
    next
      case False
      then have "init_config_spec E conf = set_config_spec conf ?a1"
        unfolding init_config_spec_def Let_def by (simp only: iff if_False refl)
      with v(1) k have "wp k Q v" by simp
      then show ?thesis by (simp only: False if_False)
    qed
  qed
  have config: "wp (bnd (esp_websocket_client_set_config (Some c) conf) (\<lambda>e2.
      if e2 \<noteq> ESP_OK then init_fail (Some c)
      else bnd (load_cfg (Some q)) (\<lambda>kk.
        (if cfg_scheme kk = NULL then init_scheme E (Some c) ''ws'' else (\<lambda>m. m)) k))) Q v"
    if v: "client_parts ?a1 n c w0 ?cl v" for v
  proof -
    obtain R where h: "cfg_holds q R ?a1 v" using v by (auto simp: client_parts_def cfg_part_def)
    note next_step = parts_cfg_frame [OF v, of q]
    show ?thesis
      unfolding wp_bnd
    proof (rule wp_mono [OF wp_set_config [OF client_parts_cli [OF v] _ h, of conf]],
        simp, elim conjE exE disjE)
      fix e v' R'
      assume f: "cfg_frame q v v'" and e: "e = ESP_OK" and h': "cfg_holds q R' (set_config_spec conf ?a1) v'"
      have p': "client_parts (set_config_spec conf ?a1) n c w0 ?cl v'"
        by (rule next_step [OF _ f h']) simp
      obtain kk where "blocks (cfgs v') q = Some kk" using h' by (auto simp: cfg_holds_def)
      with scheme [OF p'] e show "wp (if e \<noteq> ESP_OK then init_fail (Some c)
          else bnd (load_cfg (Some q)) (\<lambda>kk. (if cfg_scheme kk = NULL
            then init_scheme E (Some c) ''ws'' else (\<lambda>m. m)) k)) Q v'"
        by (simp add: wp_bnd wp_loads)
    next
      fix e v' R' a' R''
      assume f: "cfg_frame q v v'" and e: "e = ESP_ERR_NO_MEM" and h': "cfg_holds q R'' a' v'"
      have "client_parts a' n c w0 ?cl v'" by (rule next_step [OF _ f h']) simp
      from stop [OF this] e show "wp (if e \<noteq> ESP_OK then init_fail (Some c)
          else bnd (load_cfg (Some q)) (\<lambda>kk. (if cfg_scheme kk = NULL
            then init_scheme E (Some c) ''ws'' else (\<lambda>m. m)) k)) Q v'"
        by simp
    qed
  qed
  show "wp (or_fail (Some c) (Some q) (bnd (case conf_uri conf of None \<Rightarrow> ret ESP_OK
          | Some uri \<Rightarrow> esp_websocket_client_set_uri E (Some c) (Some uri)) (\<lambda>e1.
     if e1 \<noteq> ESP_OK then init_fail (Some c)
     else bnd (esp_websocket_client_set_config (Some c) conf) (\<lambda>e2.
     if e2 \<noteq> ESP_OK then init_fail (Some c)
     else bnd (load_cfg (Some q)) (\<lambda>kk.
       (if cfg_scheme kk = NULL then init_scheme E (Some c) ''ws'' else (\<lambda>m. m)) k))))) Q w1"
  proof (cases "conf_uri conf")
    case None
    with p1 config show ?thesis by (simp add: or_fail_def wp_bnd wp_ret)
  next
    case (Some u)
    obtain st puri where parse: "http_parser_parse_url E u = (st, puri)" by fastforce
    show ?thesis
    proof (cases "st = 0")
      case False
      with parse have "esp_websocket_client_set_uri E (Some c) (Some u) w1 = Inr (ESP_FAIL, w1)"
        by (intro set_uri_errors(3)) simp
      then have "wp (esp_websocket_client_set_uri E (Some c) (Some u)) (\<lambda>e w. e = ESP_FAIL \<and> w = w1) w1"
        by (rule wp_runI) simp
      then show ?thesis
        unfolding or_fail_def by (simp add: Some wp_bnd, rule wp_mono) (use stop [OF p1] in auto)
    next
      case True
      obtain R where h: "cfg_holds q R zero_abs w1" using p1 by (auto simp: client_parts_def cfg_part_def)
      have a1: "?a1 = set_uri_spec u puri zero_abs" using Some parse by simp
      note next_step = parts_cfg_frame [OF p1, of q]
      have within: "url_within u puri" using url [OF Some] parse by simp
      have uri: "wp (esp_websocket_client_set_uri E (Some c) (Some u)) (\<lambda>e1. wp (if e1 \<noteq> ESP_OK
          then init_fail (Some c) else m) Q) w1"
        if m: "\<And>v. client_parts ?a1 n c w0 ?cl v \<Longrightarrow> wp m Q v" for m
      proof (rule wp_mono [OF wp_set_uri [OF client_parts_cli [OF p1] _ h E parse [unfolded True] within]],
          simp, elim conjE exE disjE)
        fix e v assume f: "cfg_frame q w1 v" and e: "e = ESP_OK"
          and h': "cfg_holds q R (set_uri_spec u puri zero_abs) v"
        have "client_parts ?a1 n c w0 ?cl v" unfolding a1 by (rule next_step [OF _ f h']) simp
        from m [OF this] e show "wp (if e \<noteq> ESP_OK then init_fail (Some c) else m) Q v" by simp
      next
        fix e v a' R' assume f: "cfg_frame q w1 v" and e: "e = ESP_ERR_NO_MEM" and h': "cfg_holds q R' a' v"
        have "client_parts a' n c w0 ?cl v" by (rule next_step [OF _ f h']) simp
        from stop [OF this] e show "wp (if e \<noteq> ESP_OK then init_fail (Some c) else m) Q v" by simp
      qed
      show ?thesis
        by (simp only: or_fail_def option.distinct if_False Some option.case
            wp_bnd [of "esp_websocket_client_set_uri E (Some c) (Some u)"], rule uri, rule config)
          (simp only: Some option.case)
    qed
  qed
qed

text \<open>The two buffers: the second one is different from the first.\<close>

lemma buf_part_new:
  assumes p: "buf_part w0 n tx rx w" and len: "length bs = n"
    and b: "bufs v = (bufs w)\<lparr>blocks := (blocks (bufs w))(next_addr (bufs w) \<mapsto> bs),
      next_addr := Suc (next_addr (bufs w))\<rparr>"
  shows "rx = NULL \<Longrightarrow> buf_part w0 n tx (Some (next_addr (bufs w))) v"
    and "tx = NULL \<Longrightarrow> buf_part w0 n (Some (next_addr (bufs w))) rx v"
proof -
  let ?a = "next_addr (bufs w)"
  have fresh: "blocks (bufs w) ?a = None" and ok: "mem_ok (bufs w)"
    using p by (auto simp: buf_part_def mem_ok_fresh)
  have ne: "tx \<noteq> Some ?a" "rx \<noteq> Some ?a"
    using p fresh by (auto simp: buf_part_def)
  then have w0: "blocks (bufs w0) ?a = None"
    using p fresh unfolding buf_part_def by (metis insertE empty_iff)
  show "buf_part w0 n tx (Some ?a) v" if "rx = NULL"
    using p that ne w0 len mem_ok_new [OF ok] by (auto simp: buf_part_def b)
  show "buf_part w0 n (Some ?a) rx v" if "tx = NULL"
    using p that ne w0 len mem_ok_new [OF ok] by (auto simp: buf_part_def b)
qed

lemma wp_malloc_parts:
  assumes p: "client_parts a n c w0 cl w" and n: "n = size_t_of_int sz"
    and f: "f = cl_rx_buffer_update \<and> cl_rx_buffer cl = NULL \<or>
      f = cl_tx_buffer_update \<and> cl_tx_buffer cl = NULL" and idle: "\<not> cl_run cl"
    and fail: "\<And>w'. same_structs w0 w' \<Longrightarrow> Q NULL w'"
    and k: "\<And>b w'. client_parts a n c w0 (f (\<lambda>_. Some b) cl) w' \<Longrightarrow> wp (m (Some b)) Q w'"
  shows "wp (bnd (malloc_buf E sz) (\<lambda>p. andthen (upd_cli (Some c) (f (\<lambda>_. p)))
    (or_fail (Some c) p (m p)))) Q w"
proof -
  let ?b = "next_addr (bufs w)" and ?bs = "map (junk E) [0..<n]"
  let ?set = "\<lambda>u d. u\<lparr>clis := (clis u)\<lparr>blocks := (blocks (clis u))(c \<mapsto> d)\<rparr>\<rparr>"
  let ?S = "w\<lparr>bufs := (bufs w)\<lparr>blocks := (blocks (bufs w))(?b \<mapsto> ?bs), next_addr := Suc ?b\<rparr>\<rparr>"
  let ?N = "w\<lparr>bufs := (bufs w)\<lparr>next_addr := Suc ?b\<rparr>\<rparr>"
  note p' = p [unfolded client_parts_def]
  have same: "f (\<lambda>_. NULL) cl = cl" using f by auto
  have N: "client_parts a n c w0 cl (?set ?N cl)"
    using p' by (auto simp: client_parts_def buf_part_def dest: mem_ok_fail)
  have "wp (init_fail (Some c)) Q (?set ?N cl)"
    by (rule wp_init_fail [OF N idle]) (rule fail)
  moreover have "wp (m (Some ?b)) Q (?set ?S (f (\<lambda>_. Some ?b) cl))"
  proof (rule k)
    have part: "buf_part w0 n (cl_tx_buffer cl) (cl_rx_buffer cl) w" using p' by simp
    have "bufs ?S = (bufs w)\<lparr>blocks := (blocks (bufs w))(?b \<mapsto> ?bs), next_addr := Suc ?b\<rparr>" by simp
    note new = buf_part_new [OF part _ this]
    from f show "client_parts a n c w0 (f (\<lambda>_. Some ?b) cl) (?set ?S (f (\<lambda>_. Some ?b) cl))"
    proof
      assume "f = cl_rx_buffer_update \<and> cl_rx_buffer cl = NULL"
      with new(1) p' show ?thesis by (auto simp: client_parts_def)
    next
      assume "f = cl_tx_buffer_update \<and> cl_tx_buffer cl = NULL"
      with new(2) p' show ?thesis by (auto simp: client_parts_def)
    qed
  qed
  ultimately show ?thesis
    using p' by (simp add: wp_simps or_fail_def same n)
qed

lemma wp_tick_parts:
  assumes "client_parts a n c w0 cl w"
    and "\<And>t w'. client_parts a n c w0 cl w' \<Longrightarrow> wp (k t) Q w'"
  shows "wp (bnd (tick_get_ms E) k) Q w"
  using assms by (simp add: tick_get_ms_def wp_simps)

text \<open>The size of the buffers, and what a client must be when it is handed out.\<close>

definition init_buffer_size :: "esp_websocket_client_config \<Rightarrow> int" where
  "init_buffer_size conf = (if conf_buffer_size conf \<le> 0 then 4096 else conf_buffer_size conf)"

definition client_complete :: "esp_websocket_client_config \<Rightarrow> esp_websocket_client \<Rightarrow> bool" where
  "client_complete conf cl \<longleftrightarrow> cl_event_handle cl \<noteq> NULL \<and> cl_transport_list cl \<noteq> NULL \<and>
     cl_config cl \<noteq> NULL \<and> cl_status_bits cl \<noteq> NULL \<and> cl_lock cl \<noteq> NULL \<and>
     cl_rx_buffer cl \<noteq> NULL \<and> cl_tx_buffer cl \<noteq> NULL \<and> cl_transport cl = NULL \<and>
     \<not> cl_run cl \<and> cl_state cl = WEBSOCKET_STATE_UNKNOW \<and>
     cl_buffer_size cl = init_buffer_size conf"

lemma wp_init_buffers:
  assumes p: "client_parts a n c w0 cl w" and n: "n = size_t_of_int (init_buffer_size conf)"
    and cl: "\<not> cl_run cl" "cl_rx_buffer cl = NULL" "cl_tx_buffer cl = NULL"
      "cl_event_handle cl \<noteq> NULL" "cl_transport_list cl \<noteq> NULL" "cl_config cl \<noteq> NULL"
      "cl_lock cl \<noteq> NULL" "cl_transport cl = NULL" "cl_state cl = WEBSOCKET_STATE_UNKNOW"
    and fail: "\<And>w'. same_structs w0 w' \<Longrightarrow> Q NULL w'"
    and done_: "\<And>d w'. client_parts a n c w0 d w' \<Longrightarrow> client_complete conf d \<Longrightarrow> Q (Some c) w'"
  shows "wp (init_buffers E (Some c) conf) Q w"
proof -
  have size: "(if conf_buffer_size conf \<le> 0 then WEBSOCKET_BUFFER_SIZE_BYTE
      else conf_buffer_size conf) = init_buffer_size conf"
    by (simp add: init_buffer_size_def ws_consts)
  show ?thesis
    unfolding init_buffers_def size Let_def
    apply (rule wp_tick_parts [OF p], rule wp_upd_parts, assumption, simp, simp, simp)
    apply (rule wp_tick_parts, assumption, rule wp_upd_parts, assumption, simp, simp, simp)
    apply (rule wp_tick_parts, assumption, rule wp_upd_parts, assumption, simp, simp, simp)
    apply (rule wp_malloc_parts [where f = cl_rx_buffer_update, OF _ n],
        assumption, simp add: cl, simp add: cl, erule fail)
    apply (rule wp_malloc_parts [where f = cl_tx_buffer_update, OF _ n],
        assumption, simp add: cl, simp add: cl, erule fail)
    apply (rule wp_ext_parts, assumption, rule wp_upd_parts, assumption, simp, simp, simp)
    apply (rule wp_or_fail, assumption, simp add: cl, erule fail)
    apply (rule wp_upd_parts, assumption, simp, simp, simp)
    apply (simp only: wp_ret, rule done_, assumption)
    using cl apply (simp add: client_complete_def)
    done
qed

text \<open>
  \<open>esp_websocket_client_init\<close>: either NULL, and every structure and buffer of the heaps is
  as before, or a complete client at an address that was free, whose configuration holds
  exactly what the settings and the URI ask for.
\<close>

lemma wp_client_init:
  assumes ok: "mem_ok (clis w)" "mem_ok (cfgs w)" "mem_ok (strs w)" "mem_ok (bufs w)"
    and conf: "conf_transport conf \<noteq> WEBSOCKET_TRANSPORT_OVER_TCP" and E: "asprintf_null E"
    and url: "\<And>u. conf_uri conf = Some u \<Longrightarrow> url_within u (snd (http_parser_parse_url E u))"
  shows "wp (esp_websocket_client_init E conf) (\<lambda>p w'. case p of
      None \<Rightarrow> same_structs w w'
    | Some c \<Rightarrow> \<exists>cl. client_complete conf cl \<and>
        client_parts (init_config_spec E conf) (size_t_of_int (init_buffer_size conf)) c w cl w') w"
    (is "wp _ ?Q w")
proof -
  let ?c = "next_addr (clis w)" and ?n = "size_t_of_int (init_buffer_size conf)"
  let ?cl = "\<lambda>loop. zero_client\<lparr>cl_event_handle := loop\<rparr>"
  have fresh: "blocks (clis w) ?c = None" using ok(1) by (rule mem_ok_fresh)
  have start: "client_parts zero_abs ?n ?c w (?cl loop) (w\<lparr>calls := cs,
      clis := (clis w)\<lparr>next_addr := Suc ?c, blocks := (blocks (clis w))(?c \<mapsto> ?cl loop)\<rparr>\<rparr>)" for cs loop
    using ok fresh by (simp add: client_parts_def cfg_part_def buf_part_def zero_client_def)
  have run: "wp (init_transports E (Some ?c) conf (init_config E (Some ?c) conf
      (init_buffers E (Some ?c) conf))) ?Q (w\<lparr>calls := cs,
      clis := (clis w)\<lparr>next_addr := Suc ?c, blocks := (blocks (clis w))(?c \<mapsto> ?cl loop)\<rparr>\<rparr>)"
    if loop: "loop \<noteq> NULL" for cs loop
  proof (rule wp_init_transports [OF start _ conf])
    fix lk tl w'
    assume p: "client_parts zero_abs ?n ?c w (?cl loop\<lparr>cl_lock := lk, cl_transport_list := tl\<rparr>) w'"
      and h: "lk \<noteq> NULL" "tl \<noteq> NULL"
    show "wp (init_config E (Some ?c) conf (init_buffers E (Some ?c) conf)) ?Q w'"
    proof (rule wp_init_config [OF p _ _ E url])
      fix q v
      assume "client_parts (init_config_spec E conf) ?n ?c w
        (?cl loop\<lparr>cl_lock := lk, cl_transport_list := tl, cl_config := Some q\<rparr>) v"
      then show "wp (init_buffers E (Some ?c) conf) ?Q v"
        by (rule wp_init_buffers [OF _ refl]) (use h loop in \<open>auto simp: zero_client_def\<close>)
    qed (simp_all add: zero_client_def)
  qed (simp_all add: zero_client_def)
  show ?thesis
    unfolding esp_websocket_client_init_def
    using fresh run by (auto simp: wp_simps same_structs_def)
qed

text \<open>
  With \<open>WEBSOCKET_TRANSPORT_OVER_TCP\<close> the scheme is stored through \<open>client->config\<close> before
  that structure exists: the statements before it keep \<open>config_missing\<close>.
\<close>

definition config_missing :: "nat \<Rightarrow> 'a ws_world_scheme \<Rightarrow> bool" where
  "config_missing c w \<longleftrightarrow> (\<exists>cl. blocks (clis w) c = Some cl \<and> cl_config cl = NULL)"

lemma or_fail_ok: "p \<noteq> NULL \<Longrightarrow> or_fail c p k = k"
  by (auto simp: or_fail_def)

lemma missing_ext:
  assumes "config_missing c w" and "\<And>cs x. r_ptr E cs x \<noteq> NULL"
    and "\<And>h w'. config_missing c w' \<Longrightarrow> h \<noteq> NULL \<Longrightarrow> k h w' = Inl e"
  shows "bnd (ext_ptr E x) k w = Inl e"
  using assms by (simp add: run_simps config_missing_def)

lemma missing_do:
  assumes "config_missing c w" and "\<And>w'. config_missing c w' \<Longrightarrow> m w' = Inl e"
  shows "andthen (ext_do x) m w = Inl e"
  using assms by (simp add: run_simps config_missing_def)

lemma missing_upd:
  assumes "config_missing c w" and "\<And>d. cl_config (f d) = cl_config d"
    and "\<And>w'. config_missing c w' \<Longrightarrow> m w' = Inl e"
  shows "andthen (upd_cli (Some c) f) m w = Inl e"
  using assms by (auto simp: run_simps config_missing_def mem_modify_def mem_load_def mem_store_def)

lemma init_over_tcp_faults:
  assumes conf: "conf_transport conf = WEBSOCKET_TRANSPORT_OVER_TCP"
    and plan: "plan (clis w) (next_addr (clis w)) sizeof_client"
    and h: "\<And>cs x. r_ptr E cs x \<noteq> NULL"
  shows "esp_websocket_client_init E conf w = Inl Null_Deref"
proof -
  let ?c = "next_addr (clis w)"
  have scheme: "init_scheme E (Some c) s k v = Inl Null_Deref" if "config_missing c v" for c s k v
    using that by (auto simp: init_scheme_def asprintf_field_def run_simps config_missing_def mem_load_def)
  have transports: "init_transports E (Some c) conf k v = Inl Null_Deref" if v: "config_missing c v" for c k v
    unfolding init_transports_def if_P [OF conf]
    apply (rule missing_ext [OF v h], rule missing_upd, assumption, simp, subst or_fail_ok, assumption)
    apply (rule missing_ext [OF _ h], assumption, rule missing_upd, assumption, simp, subst or_fail_ok, assumption)
    apply (rule missing_ext [OF _ h], assumption, subst or_fail_ok, assumption)
    apply (rule missing_do, assumption)+
    apply (rule missing_ext [OF _ h], assumption, subst or_fail_ok, assumption)
    apply (rule missing_do, assumption)+
    apply (rule scheme, assumption)
    done
  have alloc: "calloc_cli w = Inr (Some ?c, w\<lparr>clis := (clis w)
      \<lparr>blocks := (blocks (clis w))(?c \<mapsto> zero_client), next_addr := Suc ?c\<rparr>\<rparr>)"
    using plan by (simp add: calloc_cli_def zoom_def mem_alloc_def)
  have loop: "(bnd (ext_ptr E (esp_event_loop_create WEBSOCKET_EVENT_QUEUE_SIZE)) (\<lambda>loop.
       if loop = NULL then andthen (free_cli (Some ?c)) (ret NULL)
       else andthen (upd_cli (Some ?c) (\<lambda>d. d\<lparr>cl_event_handle := loop\<rparr>))
         (init_transports E (Some ?c) conf (init_config E (Some ?c) conf (init_buffers E (Some ?c) conf)))))
      v = Inl Null_Deref" if "config_missing ?c v" for v
    by (rule missing_ext [OF that h])
      (subst if_not_P, assumption, rule missing_upd, assumption, simp, erule transports)
  show ?thesis
    unfolding esp_websocket_client_init_def run_bnd [of calloc_cli] alloc
    by (simp only: sum.case prod.case option.distinct if_False, rule loop)
      (simp add: config_missing_def zero_client_def)
qed

subsection \<open>A live client\<close>

text \<open>
  What every operation on a client relies on: the client, its configuration with its strings
  and its two buffers of \<open>buffer_size\<close> bytes are live blocks, and the buffers are different.
\<close>

definition client_live ::
  "nat \<Rightarrow> esp_websocket_client \<Rightarrow> websocket_config_storage \<Rightarrow> 'a ws_world_scheme \<Rightarrow> bool" where
  "client_live c cl k w \<longleftrightarrow> blocks (clis w) c = Some cl \<and>
     (\<exists>q. cl_config cl = Some q \<and> blocks (cfgs w) q = Some k) \<and> cfg_owned k (blocks (strs w)) \<and>
     (\<exists>a bs b rs. cl_tx_buffer cl = Some a \<and> blocks (bufs w) a = Some bs \<and>
        cl_rx_buffer cl = Some b \<and> blocks (bufs w) b = Some rs \<and> a \<noteq> b \<and>
        length bs = nat (cl_buffer_size cl) \<and> length rs = nat (cl_buffer_size cl)) \<and>
     0 < cl_buffer_size cl \<and> cl_buffer_size cl < 2 ^ 31"

lemma client_live_calls [simp]: "client_live c cl k (w\<lparr>calls := cs\<rparr>) = client_live c cl k w"
  by (simp add: client_live_def)

text \<open>A freshly created client is live.\<close>

lemma complete_live:
  assumes "client_parts a (size_t_of_int (init_buffer_size conf)) c w0 cl w"
    and "client_complete conf cl" and "conf_buffer_size conf < 2 ^ 31"
  shows "\<exists>k. client_live c cl k w"
proof -
  let ?n = "init_buffer_size conf"
  have n: "0 < ?n" "?n < 2 ^ 31" using assms(3) by (auto simp: init_buffer_size_def)
  then have size: "size_t_of_int ?n = nat ?n" by (intro size_t_of_int_nonneg) auto
  from assms(2) obtain q tx rx where p: "cl_config cl = Some q" "cl_tx_buffer cl = Some tx"
    "cl_rx_buffer cl = Some rx" "cl_buffer_size cl = ?n"
    by (auto simp: client_complete_def)
  from assms(1) p obtain k where "blocks (cfgs w) q = Some k" "cfg_owned k (blocks (strs w))"
    by (auto simp: client_parts_def cfg_part_def cfg_holds_def)
  moreover have cli: "blocks (clis w) c = Some cl"
    using assms(1) by (rule client_parts_cli)
  moreover have bp: "buf_part w0 (nat ?n) (Some tx) (Some rx) w"
    using assms(1) p size by (simp add: client_parts_def)
  have "\<exists>bs. blocks (bufs w) b = Some bs \<and> length bs = nat ?n" if "b = tx \<or> b = rx" for b
    using bp that unfolding buf_part_def by blast
  then obtain bs rs where "blocks (bufs w) tx = Some bs" "length bs = nat ?n"
    "blocks (bufs w) rx = Some rs" "length rs = nat ?n"
    by blast
  moreover have "tx \<noteq> rx" using bp by (simp add: buf_part_def)
  ultimately show ?thesis
    using p n by (auto simp: client_live_def)
qed

subsection \<open>Destroying a client, running or not\<close>

text \<open>A running client is stopped first.\<close>

lemma wp_stop_parts:
  assumes p: "client_parts a n c w0 cl w" and run: "cl_run cl"
  shows "wp (esp_websocket_client_stop (Some c)) (\<lambda>e w'. e = ESP_OK \<and>
    client_parts a n c w0 (cl\<lparr>cl_run := False, cl_state := WEBSOCKET_STATE_UNKNOW\<rparr>) w') w"
proof -
  have "wp (andthen (upd_cli (Some c) (\<lambda>d. d\<lparr>cl_run := False\<rparr>))
      (andthen (ext_do (xEventGroupWaitBits_STOPPED (cl_status_bits cl)))
      (andthen (upd_cli (Some c) (\<lambda>d. d\<lparr>cl_state := WEBSOCKET_STATE_UNKNOW\<rparr>)) (ret ESP_OK))))
    (\<lambda>e w'. e = ESP_OK \<and>
      client_parts a n c w0 (cl\<lparr>cl_run := False, cl_state := WEBSOCKET_STATE_UNKNOW\<rparr>) w') w"
    by (rule wp_upd_parts [OF p], simp, simp, simp, rule wp_do_parts, assumption,
        rule wp_upd_parts, assumption, simp, simp, simp, simp add: wp_ret)
  with client_parts_cli [OF p] run show ?thesis
    by (simp add: esp_websocket_client_stop_def stop_finish_def wp_bnd wp_loads)
qed

lemma wp_destroy_parts:
  assumes p: "client_parts a n c w0 cl w"
  shows "wp (esp_websocket_client_destroy (Some c)) (\<lambda>e w'. e = ESP_OK \<and> same_structs w0 w') w"
proof (cases "cl_run cl")
  case False
  with p show ?thesis by (rule wp_destroy_idle)
next
  case True
  define rest :: "('a, int) ws_act" where "rest = bnd (load_cli (Some c)) (\<lambda>c'.
       andthen (when_do (cl_event_handle c' \<noteq> NULL) (ext_do (esp_event_loop_delete (cl_event_handle c'))))
      (andthen (esp_websocket_client_destroy_config (Some c))
      (andthen (ext_do (esp_transport_list_destroy (cl_transport_list c')))
      (andthen (ext_do (vQueueDelete (cl_lock c')))
      (andthen (free_buf (cl_tx_buffer c'))
      (andthen (free_buf (cl_rx_buffer c'))
      (andthen (when_do (cl_status_bits c' \<noteq> NULL) (ext_do (vEventGroupDelete (cl_status_bits c'))))
      (andthen (free_cli (Some c)) (ret ESP_OK)))))))))"
  let ?Q = "\<lambda>e w'. e = ESP_OK \<and> same_structs w0 w'"
  have eq: "esp_websocket_client_destroy (Some c) = bnd (load_cli (Some c)) (\<lambda>c0.
      andthen (when_do (cl_run c0) (bnd (esp_websocket_client_stop (Some c)) (\<lambda>_. ret ()))) rest)"
    by (simp add: esp_websocket_client_destroy_def rest_def)
  have idle: "wp rest ?Q v" if v: "client_parts a n c w0 d v" "\<not> cl_run d" for d v
    using wp_destroy_idle [OF v] client_parts_cli [OF v(1)] v(2)
    by (simp add: eq wp_bnd wp_andthen wp_when_do wp_ret wp_loads)
  have "wp (esp_websocket_client_stop (Some c)) (\<lambda>_. wp rest ?Q) w"
    by (rule wp_mono [OF wp_stop_parts [OF p True]]) (auto intro!: idle)
  with client_parts_cli [OF p] True show ?thesis
    by (simp add: eq wp_bnd wp_andthen wp_when_do wp_ret wp_loads)
qed

subsection \<open>A concrete client\<close>

text \<open>
  A connected client with buffers of four bytes, in an environment whose transport accepts
  everything and whose lock is free; the theorems are instantiated on it.
\<close>

fun demo_int :: "call \<Rightarrow> int" where
  "demo_int (esp_transport_write h bs t) = int (length bs)"
| "demo_int (esp_transport_read h n t) = 2"
| "demo_int (esp_transport_poll_read h t) = 1"
| "demo_int (esp_event_post_to h e p l t) = ESP_OK"
| "demo_int (esp_event_loop_run h t) = ESP_OK"
| "demo_int _ = 1"

definition demo_env :: "unit ws_env" where
  "demo_env = \<lparr>r_int = (\<lambda>_. demo_int), r_ptr = (\<lambda>cs _. Some (length cs)), r_bytes = (\<lambda>_ _. []),
     http_parser_parse_url = (\<lambda>_. (0, \<lparr>UF_SCHEMA = \<lparr>uf_off = 0, uf_len = 2\<rparr>,
       UF_HOST = \<lparr>uf_off = 5, uf_len = 1\<rparr>, UF_PORT = \<lparr>uf_off = 0, uf_len = 0\<rparr>,
       UF_PATH = \<lparr>uf_off = 0, uf_len = 0\<rparr>, UF_USERINFO = \<lparr>uf_off = 0, uf_len = 0\<rparr>\<rparr>)),
     asprintf_null = True, junk = (\<lambda>_. 0), deliver = (\<lambda>_ _ _. ret ()), char_signed = False\<rparr>"

definition demo_client :: esp_websocket_client where
  "demo_client = zero_client\<lparr>cl_event_handle := Some 1, cl_transport_list := Some 2,
     cl_transport := Some 3, cl_config := Some 0, cl_state := WEBSOCKET_STATE_CONNECTED,
     cl_run := True, cl_status_bits := Some 4, cl_lock := Some 5, cl_rx_buffer := Some 0,
     cl_tx_buffer := Some 1, cl_buffer_size := 4\<rparr>"

definition demo_world :: "unit ws_world_scheme" where
  "demo_world = \<lparr>strs = empty_mem (\<lambda>_ _. True),
     cfgs = \<lparr>blocks = [0 \<mapsto> zero_config_storage], next_addr = 1, plan = (\<lambda>_ _. True)\<rparr>,
     clis = \<lparr>blocks = [0 \<mapsto> demo_client], next_addr = 1, plan = (\<lambda>_ _. True)\<rparr>,
     bufs = \<lparr>blocks = [0 \<mapsto> [0, 0, 0, 0], 1 \<mapsto> [0, 0, 0, 0]], next_addr = 2, plan = (\<lambda>_ _. True)\<rparr>,
     calls = [], \<dots> = ()\<rparr>"

lemma demo_live: "client_live 0 demo_client zero_config_storage demo_world"
proof -
  have "field_get f zero_config_storage = NULL" for f
    by (cases f) (simp_all add: field_get.simps zero_config_storage_def)
  then show ?thesis
    by (simp add: client_live_def demo_world_def demo_client_def cfg_owned_def)
qed

text \<open>The address part of \<open>demo_world\<close> that holds the configuration.\<close>

lemma demo_cfg: "cfg_holds 0 Map.empty zero_abs demo_world"
  using zero_config_holds [of demo_world 0]
  by (simp add: demo_world_def empty_mem_def mem_ok_def)

lemma demo_ok: "mem_ok (clis demo_world)" "mem_ok (cfgs demo_world)" "mem_ok (strs demo_world)"
  "mem_ok (bufs demo_world)"
  by (auto simp: demo_world_def mem_ok_def empty_mem_def)

lemma demo_cli: "blocks (clis demo_world) 0 = Some demo_client" "cl_config demo_client = Some 0"
  by (simp_all add: demo_world_def demo_client_def)

lemma demo_uri: "asprintf_null demo_env" "http_parser_parse_url demo_env u = (0, snd (http_parser_parse_url demo_env u))"
  "url_within ''ws://h'' (snd (http_parser_parse_url demo_env ''ws://h''))"
  by (simp_all add: demo_env_def url_within_def)

subsection \<open>Properties\<close>




text \<open>A world without the client, for the witness.\<close>

definition bare_world :: "unit ws_world_scheme" where
  "bare_world = demo_world\<lparr>cfgs := empty_mem (\<lambda>_ _. True), clis := empty_mem (\<lambda>_ _. True),
     bufs := empty_mem (\<lambda>_ _. True)\<rparr>"

lemma demo_parts: "client_parts zero_abs 4 0 bare_world demo_client demo_world"
  using demo_cfg by (auto simp: client_parts_def cfg_part_def buf_part_def bare_world_def
      demo_world_def demo_client_def empty_mem_def mem_ok_def)


text \<open>Property C34. With \<open>WEBSOCKET_TRANSPORT_OVER_TCP\<close>, creating a client dereferences a NULL
  pointer as soon as the calls before it succeed: the scheme is stored through
  \<open>client->config\<close>, which is allocated only later.\<close>

theorem init_over_tcp_null_deref:
  assumes "conf_transport conf = WEBSOCKET_TRANSPORT_OVER_TCP"
    and "plan (clis w) (next_addr (clis w)) sizeof_client"
    and "\<And>cs x. r_ptr E cs x \<noteq> NULL"
  shows "esp_websocket_client_init E conf w = Inl Null_Deref"
  using assms by (rule init_over_tcp_faults)

theorem init_over_tcp_null_deref_witness:
  "esp_websocket_client_init demo_env (zero_client_config\<lparr>conf_transport := WEBSOCKET_TRANSPORT_OVER_TCP\<rparr>)
     demo_world = Inl Null_Deref"
  by (rule init_over_tcp_null_deref) (simp_all add: demo_world_def demo_env_def)



text \<open>Property C23. \<open>esp_websocket_client_set_config\<close> never faults; on success every given setting
  replaces the stored one, defaults fill in priority and stack size, and the only block left
  without an owner is the previous host string, which is overwritten without being freed.\<close>

theorem set_config_correct:
  assumes "blocks (clis w) c = Some cl" and "cl_config cl = Some q" and "cfg_holds q R a w"
  shows "wp (esp_websocket_client_set_config (Some c) conf) (\<lambda>e w'. cfg_frame q w w' \<and>
    (\<exists>R'. (if conf_host conf = None \<or> a_str a F_host = None then R' = R
           else \<exists>h. R h = None \<and> R' = R(h \<mapsto> the (a_str a F_host))) \<and>
      (e = ESP_OK \<and> cfg_holds q R' (set_config_spec conf a) w' \<or>
       e = ESP_ERR_NO_MEM \<and> (\<exists>a' R''. R' \<subseteq>\<^sub>m R'' \<and> cfg_holds q R'' a' w')))) w"
  using assms by (rule wp_set_config)

theorem set_config_correct_witness:
  "wp (esp_websocket_client_set_config (Some 0) zero_client_config) (\<lambda>e w'. cfg_frame 0 demo_world w' \<and>
    (\<exists>R'. (if conf_host zero_client_config = None \<or> a_str zero_abs F_host = None then R' = Map.empty
           else \<exists>h. (Map.empty :: nat \<rightharpoonup> string) h = None \<and> R' = Map.empty(h \<mapsto> the (a_str zero_abs F_host))) \<and>
      (e = ESP_OK \<and> cfg_holds 0 R' (set_config_spec zero_client_config zero_abs) w' \<or>
       e = ESP_ERR_NO_MEM \<and> (\<exists>a' R''. R' \<subseteq>\<^sub>m R'' \<and> cfg_holds 0 R'' a' w')))) demo_world"
  by (rule set_config_correct [OF demo_cli demo_cfg])

text \<open>\<open>esp_websocket_client_destroy_config\<close> frees exactly the configuration and the
  strings it owns, each once, and clears the client's pointer to it.\<close>

theorem destroy_config_correct:
  assumes "blocks (clis w) c = Some cl" and "cl_config cl = Some q" and "cfg_holds q R a w"
  shows "wp (esp_websocket_client_destroy_config (Some c)) (\<lambda>e w'. e = ESP_OK \<and>
     blocks (strs w') = R \<and> mem_ok (strs w') \<and>
     blocks (cfgs w') = (blocks (cfgs w))(q := None) \<and>
     blocks (clis w') = (blocks (clis w))(c \<mapsto> cl\<lparr>cl_config := NULL\<rparr>) \<and>
     bufs w' = bufs w \<and> calls w' = calls w \<and> ws_world.more w' = ws_world.more w) w"
  by (rule wp_mono [OF wp_destroy_config [OF assms]]) simp

theorem destroy_config_correct_witness:
  "wp (esp_websocket_client_destroy_config (Some 0)) (\<lambda>e w'. e = ESP_OK \<and>
     blocks (strs w') = Map.empty \<and> mem_ok (strs w') \<and>
     blocks (cfgs w') = (blocks (cfgs demo_world))(0 := None) \<and>
     blocks (clis w') = (blocks (clis demo_world))(0 \<mapsto> demo_client\<lparr>cl_config := NULL\<rparr>) \<and>
     bufs w' = bufs demo_world \<and> calls w' = calls demo_world \<and>
     ws_world.more w' = ws_world.more demo_world) demo_world"
  by (rule destroy_config_correct [OF demo_cli demo_cfg])

end
