(* ===== verification/WsSend.thy ===== *)
theory WsSend
  imports WsClient
begin

text \<open>
  \<open>esp_websocket_client_send\<close>: the data goes through the transmit buffer in chunks. The
  lemmas show that the loop ends, never copies outside the buffers, hands the bytes to
  the transport in order, and takes and gives the lock exactly once on every path; on a transport
  that writes all it is given, the loop is the plain cutting of the data into buffers.
\<close>

subsection \<open>The function\<close>

text \<open>
  \<open>memcpy(client->tx_buffer, data + widx, n)\<close>; the count is converted to \<open>size_t\<close>, and
  reading past the end of \<open>data\<close> is a fault as writing past the end of the buffer is.
\<close>

definition memcpy_tx :: "ptr \<Rightarrow> byte list \<Rightarrow> int \<Rightarrow> int \<Rightarrow> ('a, unit) ws_act" where
  "memcpy_tx tx data widx n =
    (if nat widx + size_t_of_int n \<le> length data
     then write_buf tx (take (size_t_of_int n) (drop (nat widx) data))
     else throw Out_Of_Bounds)"

text \<open>\<open>esp_transport_write(client->transport, client->tx_buffer, n, timeout)\<close>.\<close>

definition write_tx :: "'w env \<Rightarrow> esp_websocket_client \<Rightarrow> int \<Rightarrow> ('a, int) ws_act" where
  "write_tx E c n = bnd (load_buf (cl_tx_buffer c)) (\<lambda>buf.
     bnd (load_cfg (cl_config c)) (\<lambda>k.
     if size_t_of_int n \<le> length buf
     then ext_int E (esp_transport_write (cl_transport c) (take (size_t_of_int n) buf)
            (cfg_network_timeout_ms k))
     else throw Out_Of_Bounds))"

text \<open>The loop, from \<open>need_write\<close> and \<open>widx\<close>, and what follows it.\<close>

function send_loop ::
  "'w env \<Rightarrow> ptr \<Rightarrow> byte list \<Rightarrow> int \<Rightarrow> int \<Rightarrow> int \<Rightarrow> ('a, int) ws_act" where
  "send_loop E client data len need widx w =
    (if widx < len then
       bnd (load_cli client) (\<lambda>c. let n = (if need > cl_buffer_size c then cl_buffer_size c else need) in
         andthen (memcpy_tx (cl_tx_buffer c) data widx n)
        (bnd (write_tx E c n) (\<lambda>wlen t.
           if wlen \<le> 0 then andthen (ext_do (xSemaphoreGive (cl_lock c))) (ret wlen) t
           else if widx + wlen > 2 ^ 31 - 1 then Inl Signed_Overflow
           else send_loop E client data len (len - (widx + wlen)) (widx + wlen) t))) w
     else bnd (load_cli client) (\<lambda>c.
       andthen (ext_do (xSemaphoreGive (cl_lock c))) (ret widx)) w)"
  by pat_completeness auto

termination
  by (relation "measure (\<lambda>(E, client, data, len, need, widx, w). nat (len - widx))") auto

declare send_loop.simps [simp del]

definition esp_websocket_client_send ::
  "'w env \<Rightarrow> ptr \<Rightarrow> byte list option \<Rightarrow> int \<Rightarrow> nat \<Rightarrow> ('a, int) ws_act" where
  "esp_websocket_client_send E client data len timeout =
    (if client = NULL \<or> data = None \<or> len \<le> 0 then ret ESP_FAIL
     else bnd (esp_websocket_client_is_connected client) (\<lambda>up.
       if \<not> up then ret ESP_FAIL
       else bnd (load_cli client) (\<lambda>c.
         if cl_transport c = NULL then ret ESP_FAIL
         else bnd (ext_int E (xSemaphoreTake (cl_lock c) timeout)) (\<lambda>r.
           if r \<noteq> pdPASS then ret ESP_FAIL
           else send_loop E client (the data) len len 0))))"

subsection \<open>Frame\<close>

text \<open>Only the transmit buffer, and the list of calls, may have changed.\<close>

definition tx_frame :: "esp_websocket_client \<Rightarrow> 'a ws_world_scheme \<Rightarrow> 'a ws_world_scheme \<Rightarrow> bool" where
  "tx_frame cl w w' \<longleftrightarrow> strs w' = strs w \<and> cfgs w' = cfgs w \<and> clis w' = clis w \<and>
     ws_world.more w' = ws_world.more w \<and> next_addr (bufs w') = next_addr (bufs w) \<and>
     plan (bufs w') = plan (bufs w) \<and>
     (\<forall>a. Some a \<noteq> cl_tx_buffer cl \<longrightarrow> blocks (bufs w') a = blocks (bufs w) a)"

lemma tx_frame_refl [simp]: "tx_frame cl w w" "tx_frame cl w (w\<lparr>calls := cs\<rparr>)"
  by (simp_all add: tx_frame_def)

lemma tx_frame_trans: "tx_frame cl u v \<Longrightarrow> tx_frame cl v w \<Longrightarrow> tx_frame cl u w"
  by (simp add: tx_frame_def)

subsection \<open>The bytes on the wire\<close>

text \<open>The transport never accepts more bytes than it is given.\<close>

definition write_contract :: "'w env \<Rightarrow> bool" where
  "write_contract E \<longleftrightarrow>
     (\<forall>cs h bs t. r_int E cs (esp_transport_write h bs t) \<le> int (length bs))"

text \<open>The bytes the transport accepted during the calls \<open>xs\<close>, made after \<open>cs\<close>.\<close>

fun wire :: "'w env \<Rightarrow> call list \<Rightarrow> call list \<Rightarrow> byte list" where
  "wire E cs [] = []"
| "wire E cs (x # xs) =
     (case x of esp_transport_write h bs t \<Rightarrow> take (nat (r_int E cs x)) bs | _ \<Rightarrow> []) @
     wire E (cs @ [x]) xs"

text \<open>One round of the loop: copy a chunk and write it.\<close>

lemma wp_chunk:
  assumes live: "client_live c cl k w"
    and n: "0 < n" "n \<le> cl_buffer_size cl" and widx: "0 \<le> widx" "widx + n \<le> int (length data)"
    and cont: "\<And>w1. client_live c cl k w1 \<Longrightarrow> tx_frame cl w w1 \<Longrightarrow>
      calls w1 = calls w @ [esp_transport_write (cl_transport cl)
        (take (nat n) (drop (nat widx) data)) (cfg_network_timeout_ms k)] \<Longrightarrow>
      wp (f (r_int E (calls w) (esp_transport_write (cl_transport cl)
        (take (nat n) (drop (nat widx) data)) (cfg_network_timeout_ms k)))) Q w1"
  shows "wp (andthen (memcpy_tx (cl_tx_buffer cl) data widx n) (bnd (write_tx E cl n) f)) Q w"
proof -
  from live obtain q a bs where p: "blocks (clis w) c = Some cl" "cl_config cl = Some q"
    "blocks (cfgs w) q = Some k" "cl_tx_buffer cl = Some a" "blocks (bufs w) a = Some bs"
    "length bs = nat (cl_buffer_size cl)" "cl_buffer_size cl < 2 ^ 31" "cl_rx_buffer cl \<noteq> Some a"
    by (auto simp: client_live_def)
  have size: "size_t_of_int n = nat n" using n p(7) by (intro size_t_of_int_nonneg) auto
  let ?chunk = "take (nat n) (drop (nat widx) data)"
  let ?buf = "?chunk @ drop (nat n) bs"
  have len: "length ?chunk = nat n" using widx n by simp
  have fit: "nat widx + nat n \<le> length data" "nat n \<le> length bs" using widx n p(6) by auto
  let ?w1 = "w\<lparr>bufs := (bufs w)\<lparr>blocks := (blocks (bufs w))(a \<mapsto> ?buf)\<rparr>,
    calls := calls w @ [esp_transport_write (cl_transport cl) ?chunk (cfg_network_timeout_ms k)]\<rparr>"
  have "client_live c cl k ?w1"
    using live p len fit unfolding client_live_def by auto
  moreover have "tx_frame cl w ?w1" using p(4) by (auto simp: tx_frame_def)
  ultimately have "wp (f (r_int E (calls w) (esp_transport_write (cl_transport cl) ?chunk
      (cfg_network_timeout_ms k)))) Q ?w1"
    by (intro cont) simp_all
  then show ?thesis
    using p fit len by (simp add: memcpy_tx_def write_tx_def size wp_simps)
qed

lemma send_loop_unfold:
  "send_loop E client data len need widx =
    (if widx < len then
       bnd (load_cli client) (\<lambda>c. let n = (if need > cl_buffer_size c then cl_buffer_size c else need) in
         andthen (memcpy_tx (cl_tx_buffer c) data widx n)
        (bnd (write_tx E c n) (\<lambda>wlen.
           if wlen \<le> 0 then andthen (ext_do (xSemaphoreGive (cl_lock c))) (ret wlen)
           else if widx + wlen > 2 ^ 31 - 1 then throw Signed_Overflow
           else send_loop E client data len (len - (widx + wlen)) (widx + wlen))))
     else bnd (load_cli client) (\<lambda>c. andthen (ext_do (xSemaphoreGive (cl_lock c))) (ret widx)))"
proof -
  have if_app: "(\<lambda>t. if b then f t else if b' then Inl e else g t) =
      (if b then f else if b' then throw e else g)"
    for b b' e and f g :: "('a, int) ws_act"
    by (auto simp: throw_def)
  show ?thesis
    by (rule ext, subst send_loop.simps) (simp only: if_app, simp)
qed

text \<open>
  The calls of the loop: every write goes to the client's transport and carries between
  one byte and a buffer full. \<open>sent\<close> is the outcome \<open>r\<close> for the data still to send: all of
  it was accepted, or the last write accepted nothing and its answer is returned.
\<close>

definition chunk_write :: "esp_websocket_client \<Rightarrow> call \<Rightarrow> bool" where
  "chunk_write cl x \<longleftrightarrow> (\<exists>bs t. x = esp_transport_write (cl_transport cl) bs t \<and>
     bs \<noteq> [] \<and> int (length bs) \<le> cl_buffer_size cl)"

definition sent :: "'w env \<Rightarrow> call list \<Rightarrow> call list \<Rightarrow> byte list \<Rightarrow> int \<Rightarrow> int \<Rightarrow> bool" where
  "sent E cs xs todo len r \<longleftrightarrow>
     (r = len \<and> wire E cs xs = todo) \<or>
     (r \<le> 0 \<and> length (wire E cs xs) < length todo \<and>
      wire E cs xs = take (length (wire E cs xs)) todo \<and>
      (\<exists>ys x. xs = ys @ [x] \<and> r = r_int E (cs @ ys) x))"

lemma sent_step:
  assumes r: "r_int E cs x = int m" "0 < m" and x: "x = esp_transport_write h (take n todo) t"
    and m: "m \<le> n" "n \<le> length todo" and sent: "sent E (cs @ [x]) xs (drop m todo) len r"
  shows "sent E cs (x # xs) todo len r"
proof -
  have wire: "wire E cs (x # xs) = take m todo @ wire E (cs @ [x]) xs"
    using r m by (simp add: x min_def)
  from sent consider
      (all) "r = len" "wire E (cs @ [x]) xs = drop m todo"
    | (part) ys y where "r \<le> 0" "length (wire E (cs @ [x]) xs) < length todo - m"
        "wire E (cs @ [x]) xs = take (length (wire E (cs @ [x]) xs)) (drop m todo)"
        "xs = ys @ [y]" "r = r_int E ((cs @ [x]) @ ys) y"
    unfolding sent_def by (auto simp del: append_assoc)
  then show ?thesis
  proof cases
    case all
    then have "wire E cs (x # xs) = todo" unfolding wire by simp
    with all(1) show ?thesis by (simp only: sent_def simp_thms)
  next
    case part
    let ?l = "length (wire E (cs @ [x]) xs)"
    have len: "length (wire E cs (x # xs)) = m + ?l"
      unfolding wire using m by simp
    have "take (m + ?l) todo = take m todo @ take ?l (drop m todo)" by (rule take_add)
    then have pre: "wire E cs (x # xs) = take (length (wire E cs (x # xs))) todo"
      unfolding len unfolding wire using part(3) by metis
    have "x # xs = (x # ys) @ [y]" "r = r_int E (cs @ (x # ys)) y" using part(4,5) by simp_all
    then have "\<exists>zs z. x # xs = zs @ [z] \<and> r = r_int E (cs @ zs) z" by blast
    moreover have "length (wire E cs (x # xs)) < length todo" using part(2) len by linarith
    ultimately show ?thesis using part(1) pre unfolding sent_def by blast
  qed
qed

lemma wp_send_loop:
  assumes "write_contract E" and "client_live c cl k w"
    and "len \<le> int (length data)" and "len < 2 ^ 31" and "0 \<le> widx" and "widx \<le> len"
  shows "wp (send_loop E (Some c) data len (len - widx) widx) (\<lambda>r w'. tx_frame cl w w' \<and>
     client_live c cl k w' \<and>
     (\<exists>xs. calls w' = calls w @ xs @ [xSemaphoreGive (cl_lock cl)] \<and>
       list_all (chunk_write cl) xs \<and>
       sent E (calls w) xs (drop (nat widx) (take (nat len) data)) len r)) w"
    (is "wp _ (?Q widx w) w")
  using assms
proof (induction "nat (len - widx)" arbitrary: w widx rule: less_induct)
  case less
  note live = less.prems(2) and ct = less.prems(1)
  from live have cl: "blocks (clis w) c = Some cl" and size: "0 < cl_buffer_size cl"
    by (auto simp: client_live_def)
  show ?case
  proof (cases "widx < len")
    case False
    with less.prems cl have "?Q widx w widx (w\<lparr>calls := calls w @ [xSemaphoreGive (cl_lock cl)]\<rparr>)"
      by (auto simp: sent_def intro!: exI [of _ "[]"])
    with cl False show ?thesis by (simp add: send_loop_unfold wp_simps)
  next
    case True
    define n where "n = (if len - widx > cl_buffer_size cl then cl_buffer_size cl else len - widx)"
    have n: "0 < n" "n \<le> cl_buffer_size cl" "widx + n \<le> len"
      using True size by (auto simp: n_def)
    let ?todo = "drop (nat widx) (take (nat len) data)"
    let ?x = "esp_transport_write (cl_transport cl) (take (nat n) (drop (nat widx) data))
      (cfg_network_timeout_ms k)"
    have x: "?x = esp_transport_write (cl_transport cl) (take (nat n) ?todo) (cfg_network_timeout_ms k)"
      using n less.prems(5) by (simp add: drop_take min_def)
    have todo: "int (length ?todo) = len - widx" using less.prems n by auto
    have chunk: "chunk_write cl ?x"
      using n less.prems by (auto simp: chunk_write_def)
    let ?r = "r_int E (calls w) ?x"
    have "?r \<le> int (length (take (nat n) (drop (nat widx) data)))"
      using ct unfolding write_contract_def by blast
    also have "\<dots> \<le> n" using n by simp
    finally have r: "?r \<le> n" .
    have "wp (andthen (memcpy_tx (cl_tx_buffer cl) data widx n) (bnd (write_tx E cl n) (\<lambda>wlen.
           if wlen \<le> 0 then andthen (ext_do (xSemaphoreGive (cl_lock cl))) (ret wlen)
           else if widx + wlen > 2 ^ 31 - 1 then throw Signed_Overflow
           else send_loop E (Some c) data len (len - (widx + wlen)) (widx + wlen)))) (?Q widx w) w"
    proof (rule wp_chunk [OF live n(1,2) less.prems(5)])
      show "widx + n \<le> int (length data)" using n less.prems by simp
    next
      fix w1
      assume w1: "client_live c cl k w1" "tx_frame cl w w1" "calls w1 = calls w @ [?x]"
      have "wp (andthen (ext_do (xSemaphoreGive (cl_lock cl))) (ret ?r)) (?Q widx w) w1" if "?r \<le> 0"
      proof -
        have "sent E (calls w) [?x] ?todo len ?r"
          using that todo True by (auto simp: sent_def)
        with w1 chunk show ?thesis
          by (auto simp: wp_simps tx_frame_def intro!: exI [of _ "[?x]"])
      qed
      moreover have "wp (send_loop E (Some c) data len (len - (widx + ?r)) (widx + ?r)) (?Q widx w) w1"
        if pos: "\<not> ?r \<le> 0"
      proof -
        have "nat (len - (widx + ?r)) < nat (len - widx)" "0 \<le> widx + ?r" "widx + ?r \<le> len"
          using pos r n less.prems by auto
        from less.hyps [OF this(1) ct w1(1) less.prems(3,4) this(2,3)]
        show ?thesis
        proof (rule wp_mono, elim conjE exE)
          fix v w' xs
          assume f: "tx_frame cl w1 w'" and l: "client_live c cl k w'"
            and c: "calls w' = calls w1 @ xs @ [xSemaphoreGive (cl_lock cl)]"
            and xs: "list_all (chunk_write cl) xs"
            and s: "sent E (calls w1) xs (drop (nat (widx + ?r)) (take (nat len) data)) len v"
          have split: "drop (nat (widx + ?r)) (take (nat len) data) = drop (nat ?r) ?todo"
            using pos less.prems(5) by (simp add: nat_add_distrib add.commute)
          have "sent E (calls w) (?x # xs) ?todo len v"
          proof (rule sent_step [OF _ _ x])
            show "sent E (calls w @ [?x]) xs (drop (nat ?r) ?todo) len v"
              using s unfolding split w1(3) .
            show "nat ?r \<le> nat n" using r by (rule nat_mono)
            show "nat n \<le> length ?todo" using n todo by linarith
          qed (use pos in auto)
          with f l c xs chunk w1(2,3) show "?Q widx w v w'"
            by (auto simp: list_all_iff intro: tx_frame_trans intro!: exI [of _ "?x # xs"])
        qed
      qed
      ultimately show "wp (if ?r \<le> 0 then andthen (ext_do (xSemaphoreGive (cl_lock cl))) (ret ?r)
           else if widx + ?r > 2 ^ 31 - 1 then throw Signed_Overflow
           else send_loop E (Some c) data len (len - (widx + ?r)) (widx + ?r)) (?Q widx w) w1"
        using r n less.prems(4) by auto
    qed
    with cl True show ?thesis
      by (subst send_loop_unfold) (simp add: wp_bnd wp_loads n_def Let_def)
  qed
qed

subsection \<open>The whole function\<close>

text \<open>What a call of \<open>esp_websocket_client_send\<close> does, from its arguments and the answers.\<close>

definition send_outcome ::
  "'w env \<Rightarrow> esp_websocket_client \<Rightarrow> byte list \<Rightarrow> int \<Rightarrow> nat \<Rightarrow> call list \<Rightarrow> call list \<Rightarrow> int \<Rightarrow> bool" where
  "send_outcome E cl data len timeout cs cs' r \<longleftrightarrow>
    (let take = xSemaphoreTake (cl_lock cl) timeout; cs1 = cs @ [take] in
     if r_int E cs take \<noteq> pdPASS then r = ESP_FAIL \<and> cs' = cs1
     else \<exists>xs. cs' = cs1 @ xs @ [xSemaphoreGive (cl_lock cl)] \<and> list_all (chunk_write cl) xs \<and>
            sent E cs1 xs (List.take (nat len) data) len r)"

lemma wp_send:
  assumes E: "write_contract E" and live: "client_live c cl k w"
    and up: "cl_state cl = WEBSOCKET_STATE_CONNECTED" "cl_transport cl \<noteq> NULL"
    and len: "0 < len" "len \<le> int (length data)" "len < 2 ^ 31"
  shows "wp (esp_websocket_client_send E (Some c) (Some data) len timeout) (\<lambda>r w'. tx_frame cl w w' \<and>
     client_live c cl k w' \<and> send_outcome E cl data len timeout (calls w) (calls w') r) w"
proof -
  let ?take = "xSemaphoreTake (cl_lock cl) timeout"
  let ?w1 = "w\<lparr>calls := calls w @ [?take]\<rparr>"
  have cl: "blocks (clis w) c = Some cl" using live by (simp add: client_live_def)
  have "wp (send_loop E (Some c) data len (len - 0) 0) (\<lambda>r w'. tx_frame cl ?w1 w' \<and>
     client_live c cl k w' \<and>
     (\<exists>xs. calls w' = calls ?w1 @ xs @ [xSemaphoreGive (cl_lock cl)] \<and>
       list_all (chunk_write cl) xs \<and>
       sent E (calls ?w1) xs (drop (nat 0) (List.take (nat len) data)) len r)) ?w1"
    by (rule wp_send_loop) (use E live len in auto)
  then have loop: "wp (send_loop E (Some c) data len len 0) (\<lambda>r w'. tx_frame cl w w' \<and>
     client_live c cl k w' \<and> send_outcome E cl data len timeout (calls w) (calls w') r) ?w1"
    if "r_int E (calls w) ?take = pdPASS"
    unfolding diff_zero
    by (rule wp_mono) (use that in \<open>auto simp: send_outcome_def Let_def tx_frame_def\<close>)
  show ?thesis
    using loop cl up len live
    by (auto simp: esp_websocket_client_send_def esp_websocket_client_is_connected_def wp_simps
        send_outcome_def Let_def)
qed

text \<open>
  The reference for a transport that accepts whatever it is given: the data cut into pieces of
  \<open>n\<close> bytes, and one write of each.
\<close>

function chunks :: "nat \<Rightarrow> 'b list \<Rightarrow> 'b list list" where
  "chunks n xs = (if n = 0 \<or> xs = [] then [] else take n xs # chunks n (drop n xs))"
  by pat_completeness auto

termination
  by (relation "measure (\<lambda>(n, xs). length xs)") auto

declare chunks.simps [simp del]

lemma chunks_Nil [simp]: "chunks n [] = []"
  by (simp add: chunks.simps)

lemma chunks_step: "0 < n \<Longrightarrow> xs \<noteq> [] \<Longrightarrow> chunks n xs = take n xs # chunks n (drop n xs)"
  by (simp add: chunks.simps)

lemma concat_chunks: "0 < n \<Longrightarrow> concat (chunks n xs) = xs"
proof (induction n xs rule: chunks.induct)
  case (1 n xs)
  then show ?case by (cases "xs = []") (simp_all add: chunks_step)
qed

definition accepts_all :: "'w env \<Rightarrow> bool" where
  "accepts_all E \<longleftrightarrow> (\<forall>cs h bs t. r_int E cs (esp_transport_write h bs t) = int (length bs))"

definition chunk_writes :: "esp_websocket_client \<Rightarrow> websocket_config_storage \<Rightarrow> byte list \<Rightarrow> call list" where
  "chunk_writes cl k bs = map (\<lambda>piece. esp_transport_write (cl_transport cl) piece (cfg_network_timeout_ms k))
     (chunks (nat (cl_buffer_size cl)) bs)"

lemma wp_send_loop_chunks:
  assumes "accepts_all E" and "client_live c cl k w"
    and "len \<le> int (length data)" and "len < 2 ^ 31" and "0 \<le> widx" and "widx \<le> len"
  shows "wp (send_loop E (Some c) data len (len - widx) widx) (\<lambda>r w'. r = len \<and>
     calls w' = calls w @ chunk_writes cl k (drop (nat widx) (take (nat len) data)) @
       [xSemaphoreGive (cl_lock cl)]) w"
    (is "wp _ (?Q widx w) w")
  using assms
proof (induction "nat (len - widx)" arbitrary: w widx rule: less_induct)
  case less
  note live = less.prems(2)
  from live have cl: "blocks (clis w) c = Some cl" and size: "0 < cl_buffer_size cl"
    by (auto simp: client_live_def)
  let ?todo = "drop (nat widx) (take (nat len) data)"
  show ?case
  proof (cases "widx < len")
    case False
    with less.prems cl show ?thesis by (simp add: send_loop_unfold wp_simps chunk_writes_def)
  next
    case True
    define n where "n = (if len - widx > cl_buffer_size cl then cl_buffer_size cl else len - widx)"
    have n: "0 < n" "n \<le> cl_buffer_size cl" "widx + n \<le> len"
      using True size by (auto simp: n_def)
    let ?piece = "take (nat n) (drop (nat widx) data)"
    let ?x = "esp_transport_write (cl_transport cl) ?piece (cfg_network_timeout_ms k)"
    have todo: "int (length ?todo) = len - widx" using less.prems n by auto
    then have ne: "?todo \<noteq> []" using True by auto
    have "take (nat n) ?todo = ?piece" using n less.prems(5) by (simp add: drop_take min_def)
    moreover have "take (nat (cl_buffer_size cl)) ?todo = take (nat n) ?todo"
    proof (cases "len - widx > cl_buffer_size cl")
      case False
      with todo have "length ?todo \<le> nat n" "length ?todo \<le> nat (cl_buffer_size cl)"
        by (simp_all add: n_def)
      then show ?thesis by (simp only: take_all)
    qed (simp add: n_def)
    ultimately have first: "take (nat (cl_buffer_size cl)) ?todo = ?piece" by simp
    have rest: "drop (nat (cl_buffer_size cl)) ?todo = drop (nat (widx + n)) (take (nat len) data)"
    proof (cases "len - widx > cl_buffer_size cl")
      case True
      then show ?thesis
        using size less.prems(5) by (simp add: n_def nat_add_distrib add.commute)
    next
      case False
      then show ?thesis using todo by (simp add: n_def)
    qed
    have step: "chunk_writes cl k ?todo = ?x # chunk_writes cl k (drop (nat (widx + n)) (take (nat len) data))"
      using size ne first rest by (simp add: chunk_writes_def chunks_step)
    have "length ?piece = nat n" using n less.prems by simp
    then have r: "r_int E (calls w) ?x = n"
      using less.prems(1) n(1) by (simp add: accepts_all_def)
    have "wp (andthen (memcpy_tx (cl_tx_buffer cl) data widx n) (bnd (write_tx E cl n) (\<lambda>wlen.
           if wlen \<le> 0 then andthen (ext_do (xSemaphoreGive (cl_lock cl))) (ret wlen)
           else if widx + wlen > 2 ^ 31 - 1 then throw Signed_Overflow
           else send_loop E (Some c) data len (len - (widx + wlen)) (widx + wlen)))) (?Q widx w) w"
    proof (rule wp_chunk [OF live n(1,2) less.prems(5)])
      show "widx + n \<le> int (length data)" using n less.prems by simp
    next
      fix w1
      assume w1: "client_live c cl k w1" "calls w1 = calls w @ [?x]" and "tx_frame cl w w1"
      have "nat (len - (widx + n)) < nat (len - widx)" "0 \<le> widx + n"
        using n less.prems by auto
      from less.hyps [OF this(1) less.prems(1) w1(1) less.prems(3,4) this(2) n(3)]
      have "wp (send_loop E (Some c) data len (len - (widx + n)) (widx + n)) (?Q widx w) w1"
        by (rule wp_mono) (simp add: w1(2) step)
      then show "wp (if r_int E (calls w) ?x \<le> 0 then andthen (ext_do (xSemaphoreGive (cl_lock cl))) (ret (r_int E (calls w) ?x))
           else if widx + r_int E (calls w) ?x > 2 ^ 31 - 1 then throw Signed_Overflow
           else send_loop E (Some c) data len (len - (widx + r_int E (calls w) ?x)) (widx + r_int E (calls w) ?x))
         (?Q widx w) w1"
        using n less.prems(4) unfolding r by auto
    qed
    with cl True show ?thesis
      by (subst send_loop_unfold) (simp add: wp_bnd wp_loads n_def Let_def)
  qed
qed

lemma send_errors:
  shows "esp_websocket_client_send E NULL data len t w = Inr (ESP_FAIL, w)"
    and "esp_websocket_client_send E p None len t w = Inr (ESP_FAIL, w)"
    and "len \<le> 0 \<Longrightarrow> esp_websocket_client_send E p data len t w = Inr (ESP_FAIL, w)"
    and "blocks (clis w) c = Some cl \<Longrightarrow>
      cl_state cl \<noteq> WEBSOCKET_STATE_CONNECTED \<or> cl_transport cl = NULL \<Longrightarrow>
      esp_websocket_client_send E (Some c) data len t w = Inr (ESP_FAIL, w)"
  by (auto simp: esp_websocket_client_send_def esp_websocket_client_is_connected_def run_simps
      mem_load_def)

text \<open>Sending keeps the structures of the heaps, on every path.\<close>

lemma send_outcome_calls: "send_outcome E cl data len timeout cs cs' r \<Longrightarrow> \<exists>xs. cs' = cs @ xs"
  by (auto simp: send_outcome_def Let_def split: if_splits)

lemma wp_send_total:
  assumes E: "write_contract E" and live: "client_live c cl k w"
    and len: "len \<le> int (length data)" "len < 2 ^ 31"
  shows "wp (esp_websocket_client_send E (Some c) (Some data) len timeout)
    (\<lambda>r w'. tx_frame cl w w' \<and> client_live c cl k w' \<and> (\<exists>xs. calls w' = calls w @ xs)) w"
proof (cases "0 < len \<and> cl_state cl = WEBSOCKET_STATE_CONNECTED \<and> cl_transport cl \<noteq> NULL")
  case True
  then have "0 < len" "cl_state cl = WEBSOCKET_STATE_CONNECTED" "cl_transport cl \<noteq> NULL" by auto
  from wp_send [OF E live this(2,3,1) len, of timeout] show ?thesis
    by (rule wp_mono) (auto dest: send_outcome_calls)
next
  case False
  have cl: "blocks (clis w) c = Some cl" using live by (simp add: client_live_def)
  have "esp_websocket_client_send E (Some c) (Some data) len timeout w = Inr (ESP_FAIL, w)"
    using False send_errors(3) [of len] send_errors(4) [OF cl] by (meson not_le)
  then show ?thesis by (rule wp_runI) (simp add: live)
qed

text \<open>The contract holds in the concrete environment.\<close>

lemma demo_write: "write_contract demo_env"
  by (simp add: write_contract_def demo_env_def)

subsection \<open>Properties\<close>



text \<open>Property C14. On a transport that accepts what it is given the loop is equivalent to cutting the
  data into pieces of the buffer's size: one call takes the lock, one write goes out for each
  piece in order, one call gives the lock back, and the length is returned. The pieces make up
  the data, so the size of the buffer is not seen in what is sent.\<close>

theorem send_chunks:
  assumes "accepts_all E" and "client_live c cl k w"
    and "cl_state cl = WEBSOCKET_STATE_CONNECTED" and "cl_transport cl \<noteq> NULL"
    and "0 < len" and "len \<le> int (length data)" and "len < 2 ^ 31"
    and "r_int E (calls w) (xSemaphoreTake (cl_lock cl) timeout) = pdPASS"
  shows "wp (esp_websocket_client_send E (Some c) (Some data) len timeout) (\<lambda>r w'. r = len \<and>
     calls w' = calls w @ [xSemaphoreTake (cl_lock cl) timeout] @
       map (\<lambda>piece. esp_transport_write (cl_transport cl) piece (cfg_network_timeout_ms k))
         (chunks (nat (cl_buffer_size cl)) (take (nat len) data)) @ [xSemaphoreGive (cl_lock cl)] \<and>
     concat (chunks (nat (cl_buffer_size cl)) (take (nat len) data)) = take (nat len) data) w"
proof -
  let ?take = "xSemaphoreTake (cl_lock cl) timeout"
  let ?w1 = "w\<lparr>calls := calls w @ [?take]\<rparr>"
  have cl: "blocks (clis w) c = Some cl" and size: "0 < cl_buffer_size cl"
    using assms(2) by (auto simp: client_live_def)
  have "wp (send_loop E (Some c) data len (len - 0) 0) (\<lambda>r w'. r = len \<and>
     calls w' = calls ?w1 @ chunk_writes cl k (drop (nat 0) (take (nat len) data)) @
       [xSemaphoreGive (cl_lock cl)]) ?w1"
    by (rule wp_send_loop_chunks) (use assms in auto)
  with cl assms(3-5,8) size show ?thesis
    by (simp add: esp_websocket_client_send_def esp_websocket_client_is_connected_def wp_simps
        chunk_writes_def concat_chunks)
qed

theorem send_chunks_witness:
  "wp (esp_websocket_client_send demo_env (Some 0) (Some [1, 2, 3, 4, 5, 6]) 6 10) (\<lambda>r w'. r = 6 \<and>
     calls w' = [xSemaphoreTake (Some 5) 10, esp_transport_write (Some 3) [1, 2, 3, 4] 0,
       esp_transport_write (Some 3) [5, 6] 0, xSemaphoreGive (Some 5)]) demo_world"
proof -
  have "chunks 4 [1, 2, 3, 4, 5, 6 :: byte] = [[1, 2, 3, 4], [5, 6]]"
    by (simp add: chunks_step)
  moreover have "accepts_all demo_env" by (simp add: accepts_all_def demo_env_def)
  ultimately show ?thesis
    using send_chunks [OF _ demo_live, of demo_env 6 "[1, 2, 3, 4, 5, 6]" 10]
    by (simp add: demo_client_def demo_world_def zero_config_storage_def demo_env_def)
qed

text \<open>A send with no client, no data, a length that is not positive, or on a client that is
  not connected or has no transport returns \<open>ESP_FAIL\<close>, makes no call and changes nothing.\<close>

theorem send_rejects:
  assumes "client = NULL \<or> data = None \<or> len \<le> 0 \<or> (\<exists>c cl. client = Some c \<and> blocks (clis w) c = Some cl \<and>
    (cl_state cl \<noteq> WEBSOCKET_STATE_CONNECTED \<or> cl_transport cl = NULL))"
  shows "esp_websocket_client_send E client data len timeout w = Inr (ESP_FAIL, w)"
  using assms by (elim disjE exE conjE) (simp_all add: send_errors)

theorem send_rejects_witness:
  "esp_websocket_client_send demo_env (Some 0) (Some [1, 2]) (- 1) 10 demo_world = Inr (ESP_FAIL, demo_world)"
  by (rule send_rejects) simp

end
