(* ===== verification/WsTask.thy ===== *)
theory WsTask
  imports WsSend
begin

text \<open>
  The task of the websocket client: the events it dispatches, the aborted connection, the
  prologue, one pass of its loop, and its end. The application's event handlers are met
  through the locale \<open>ws_events\<close>; inside it the pass of the loop is shown to keep the client
  well formed and to follow the state machine of the connection. What the application shows
  of the events is the index of its invariant: it changes with the events that are delivered.
\<close>

subsection \<open>Dispatching an event\<close>

text \<open>
  \<open>esp_websocket_client_dispatch_event\<close>: the event is queued, and running the loop calls the
  handlers registered with it.
\<close>

definition esp_websocket_client_dispatch_event ::
  "'a ws_env \<Rightarrow> ptr \<Rightarrow> esp_websocket_event_id \<Rightarrow> ptr \<Rightarrow> int \<Rightarrow> ('a, int) ws_act" where
  "esp_websocket_client_dispatch_event E client event data len = bnd (load_cli client) (\<lambda>c.
     bnd (ext_int E (esp_event_post_to (cl_event_handle c) event data len
            WEBSOCKET_SEND_EVENT_TIMEOUT_MS)) (\<lambda>err.
       if err \<noteq> ESP_OK then ret err
       else bnd (ext_int E (esp_event_loop_run (cl_event_handle c) WEBSOCKET_SEND_EVENT_TIMEOUT_MS))
         (\<lambda>r. andthen (deliver E (cl_event_handle c) event \<lparr>data_ptr = data, data_len = len\<rparr>)
                (ret r))))"

definition esp_websocket_client_abort_connection :: "'a ws_env \<Rightarrow> ptr \<Rightarrow> ('a, int) ws_act" where
  "esp_websocket_client_abort_connection E client = bnd (load_cli client) (\<lambda>c.
     andthen (ext_do (esp_transport_close (cl_transport c)))
    (andthen (upd_cli client (\<lambda>d. d\<lparr>cl_wait_timeout_ms := WEBSOCKET_RECONNECT_TIMEOUT_MS\<rparr>))
    (bnd (tick_get_ms E) (\<lambda>t.
     andthen (upd_cli client (\<lambda>d. d\<lparr>cl_reconnect_tick_ms := t\<rparr>))
    (andthen (upd_cli client (\<lambda>d. d\<lparr>cl_state := WEBSOCKET_STATE_WAIT_TIMEOUT\<rparr>))
    (andthen (esp_websocket_client_dispatch_event E client WEBSOCKET_EVENT_DISCONNECTED NULL 0)
      (ret ESP_OK)))))))"

subsection \<open>The task\<close>

text \<open>What precedes the loop.\<close>

definition task_prologue :: "'a ws_env \<Rightarrow> ptr \<Rightarrow> ('a, unit) ws_act" where
  "task_prologue E client =
     andthen (upd_cli client (\<lambda>d. d\<lparr>cl_run := True\<rparr>))
    (bnd (load_cli client) (\<lambda>c. bnd (load_cfg (cl_config c)) (\<lambda>k. bnd (str_arg (cfg_scheme k)) (\<lambda>scheme.
     bnd (ext_ptr E (esp_transport_list_get_transport (cl_transport_list c) scheme)) (\<lambda>tr.
     andthen (upd_cli client (\<lambda>d. d\<lparr>cl_transport := tr\<rparr>))
    (andthen (when_do (tr = NULL) (upd_cli client (\<lambda>d. d\<lparr>cl_run := False\<rparr>)))
    (andthen (when_do (cfg_port k = 0)
       (bnd (ext_int E (esp_transport_get_default_port tr)) (\<lambda>p.
          upd_cfg (cl_config c) (\<lambda>k. k\<lparr>cfg_port := p\<rparr>))))
    (andthen (upd_cli client (\<lambda>d. d\<lparr>cl_state := WEBSOCKET_STATE_INIT\<rparr>))
      (ext_do (xEventGroupClearBits_STOPPED (cl_status_bits c)))))))))))"

text \<open>\<open>case WEBSOCKET_STATE_INIT\<close>.\<close>

definition task_init :: "'a ws_env \<Rightarrow> ptr \<Rightarrow> ('a, unit) ws_act" where
  "task_init E client = bnd (load_cli client) (\<lambda>c.
     if cl_transport c = NULL then upd_cli client (\<lambda>d. d\<lparr>cl_run := False\<rparr>)
     else bnd (load_cfg (cl_config c)) (\<lambda>k. bnd (str_arg (cfg_host k)) (\<lambda>host.
       bnd (ext_int E (esp_transport_connect (cl_transport c) host (cfg_port k)
              (cfg_network_timeout_ms k))) (\<lambda>r.
         if r < 0 then bnd (esp_websocket_client_abort_connection E client) (\<lambda>_. ret ())
         else andthen (upd_cli client (\<lambda>d. d\<lparr>cl_state := WEBSOCKET_STATE_CONNECTED\<rparr>))
           (bnd (esp_websocket_client_dispatch_event E client WEBSOCKET_EVENT_CONNECTED NULL 0)
             (\<lambda>_. ret ()))))))"

text \<open>\<open>esp_transport_read\<close> into the receive buffer.\<close>

definition read_rx :: "'a ws_env \<Rightarrow> esp_websocket_client \<Rightarrow> ('a, int) ws_act" where
  "read_rx E c = bnd (load_cfg (cl_config c)) (\<lambda>k.
     let x = esp_transport_read (cl_transport c) (cl_buffer_size c) (cfg_network_timeout_ms k) in
     bnd (gets (\<lambda>w. r_bytes E (calls w) x)) (\<lambda>bs.
     bnd (ext_int E x) (\<lambda>rlen.
       andthen (write_buf (cl_rx_buffer c) bs) (ret rlen))))"

text \<open>\<open>case WEBSOCKET_STATE_CONNECTED\<close>: the ping, then the read.\<close>

definition task_ping :: "'a ws_env \<Rightarrow> ptr \<Rightarrow> ('a, unit) ws_act" where
  "task_ping E client = bnd (tick_get_ms E) (\<lambda>t. bnd (load_cli client) (\<lambda>c.
     when_do (word_of_int WEBSOCKET_PING_TIMEOUT_MS < t - cl_ping_tick_ms c)
      (bnd (tick_get_ms E) (\<lambda>t2.
       andthen (upd_cli client (\<lambda>d. d\<lparr>cl_ping_tick_ms := t2\<rparr>))
      (bnd (load_cfg (cl_config c)) (\<lambda>k.
       bnd (ext_int E (esp_transport_write (cl_transport c) [] (cfg_network_timeout_ms k)))
         (\<lambda>_. ret ())))))))"

definition task_read :: "'a ws_env \<Rightarrow> ptr \<Rightarrow> ('a, unit) ws_act" where
  "task_read E client = bnd (tick_get_ms E) (\<lambda>t.
     andthen (upd_cli client (\<lambda>d. d\<lparr>cl_ping_tick_ms := t\<rparr>))
    (bnd (load_cli client) (\<lambda>c. bnd (read_rx E c) (\<lambda>rlen.
       if rlen < 0 then bnd (esp_websocket_client_abort_connection E client) (\<lambda>_. ret ())
       else when_do (rlen > 0)
         (bnd (esp_websocket_client_dispatch_event E client WEBSOCKET_EVENT_DATA (cl_rx_buffer c) rlen)
           (\<lambda>_. ret ()))))))"

definition task_connected :: "'a ws_env \<Rightarrow> ptr \<Rightarrow> ('a, unit) ws_act" where
  "task_connected E client = bnd (load_cli client) (\<lambda>c.
     bnd (ext_int E (esp_transport_poll_read (cl_transport c) 1000)) (\<lambda>read_select.
       if read_select < 0 then bnd (esp_websocket_client_abort_connection E client) (\<lambda>_. ret ())
       else andthen (task_ping E client) (when_do (read_select \<noteq> 0) (task_read E client))))"

text \<open>\<open>case WEBSOCKET_STATE_WAIT_TIMEOUT\<close>; the timeout is converted to \<open>uint64_t\<close>.\<close>

definition task_wait :: "'a ws_env \<Rightarrow> ptr \<Rightarrow> ('a, unit) ws_act" where
  "task_wait E client = bnd (load_cli client) (\<lambda>c. bnd (load_cfg (cl_config c)) (\<lambda>k.
     if \<not> cfg_auto_reconnect k then upd_cli client (\<lambda>d. d\<lparr>cl_run := False\<rparr>)
     else bnd (tick_get_ms E) (\<lambda>t.
       andthen (when_do (word_of_int (cl_wait_timeout_ms c) < t - cl_reconnect_tick_ms c)
         (andthen (upd_cli client (\<lambda>d. d\<lparr>cl_state := WEBSOCKET_STATE_INIT\<rparr>))
         (bnd (tick_get_ms E) (\<lambda>t2. upd_cli client (\<lambda>d. d\<lparr>cl_reconnect_tick_ms := t2\<rparr>)))))
       (ext_do (vTaskDelay (c_div (c_div (cl_wait_timeout_ms c) 2) portTICK_PERIOD_MS))))))"

text \<open>One pass of the loop: the switch has no case for the other states.\<close>

definition task_iteration :: "'a ws_env \<Rightarrow> ptr \<Rightarrow> ('a, unit) ws_act" where
  "task_iteration E client = bnd (load_cli client) (\<lambda>c. case cl_state c of
       WEBSOCKET_STATE_INIT \<Rightarrow> task_init E client
     | WEBSOCKET_STATE_CONNECTED \<Rightarrow> task_connected E client
     | WEBSOCKET_STATE_WAIT_TIMEOUT \<Rightarrow> task_wait E client
     | _ \<Rightarrow> ret ())"

text \<open>The loop for at most \<open>n\<close> passes; the result says whether it ended.\<close>

fun task_loop :: "nat \<Rightarrow> 'a ws_env \<Rightarrow> ptr \<Rightarrow> ('a, bool) ws_act" where
  "task_loop n E client = bnd (load_cli client) (\<lambda>c.
     if \<not> cl_run c then ret True
     else (case n of 0 \<Rightarrow> ret False
           | Suc m \<Rightarrow> andthen (task_iteration E client) (task_loop m E client)))"

declare task_loop.simps [simp del]

text \<open>What follows the loop: up to the event that releases \<open>esp_websocket_client_stop\<close>, and after it.\<close>

definition task_signal_stopped :: "ptr \<Rightarrow> ('a, unit) ws_act" where
  "task_signal_stopped client = bnd (load_cli client) (\<lambda>c.
     andthen (ext_do (esp_transport_close (cl_transport c)))
       (ext_do (xEventGroupSetBits_STOPPED (cl_status_bits c))))"

definition task_exit :: "ptr \<Rightarrow> ('a, unit) ws_act" where
  "task_exit client =
     andthen (upd_cli client (\<lambda>d. d\<lparr>cl_state := WEBSOCKET_STATE_UNKNOW\<rparr>)) (ext_do vTaskDelete)"

definition esp_websocket_client_task :: "nat \<Rightarrow> 'a ws_env \<Rightarrow> ptr \<Rightarrow> ('a, bool) ws_act" where
  "esp_websocket_client_task n E client =
     andthen (task_prologue E client)
    (bnd (task_loop n E client) (\<lambda>ended.
       andthen (when_do ended (andthen (task_signal_stopped client) (task_exit client)))
         (ret ended)))"

subsection \<open>The contract with the event handlers\<close>

text \<open>The fields the task never changes.\<close>

definition same_client :: "esp_websocket_client \<Rightarrow> esp_websocket_client \<Rightarrow> bool" where
  "same_client cl cl' \<longleftrightarrow> cl_event_handle cl' = cl_event_handle cl \<and>
     cl_transport_list cl' = cl_transport_list cl \<and>
     cl_config cl' = cl_config cl \<and> cl_status_bits cl' = cl_status_bits cl \<and>
     cl_lock cl' = cl_lock cl \<and> cl_rx_buffer cl' = cl_rx_buffer cl \<and>
     cl_tx_buffer cl' = cl_tx_buffer cl \<and> cl_buffer_size cl' = cl_buffer_size cl"

lemma same_client_refl [simp]: "same_client cl cl"
  by (simp add: same_client_def)

lemma same_client_trans [trans]: "same_client a b \<Longrightarrow> same_client b d \<Longrightarrow> same_client a d"
  by (simp add: same_client_def)

lemma same_client_upd [simp]:
  "same_client cl (d\<lparr>cl_run := r\<rparr>) = same_client cl d"
  "same_client cl (d\<lparr>cl_transport := p\<rparr>) = same_client cl d"
  "same_client cl (d\<lparr>cl_state := st\<rparr>) = same_client cl d"
  "same_client cl (d\<lparr>cl_ping_tick_ms := t\<rparr>) = same_client cl d"
  "same_client cl (d\<lparr>cl_reconnect_tick_ms := t\<rparr>) = same_client cl d"
  "same_client cl (d\<lparr>cl_wait_timeout_ms := i\<rparr>) = same_client cl d"
  "same_client (cl\<lparr>cl_run := r\<rparr>) d = same_client cl d"
  "same_client (cl\<lparr>cl_transport := p\<rparr>) d = same_client cl d"
  "same_client (cl\<lparr>cl_state := st\<rparr>) d = same_client cl d"
  "same_client (cl\<lparr>cl_ping_tick_ms := t\<rparr>) d = same_client cl d"
  "same_client (cl\<lparr>cl_reconnect_tick_ms := t\<rparr>) d = same_client cl d"
  "same_client (cl\<lparr>cl_wait_timeout_ms := i\<rparr>) d = same_client cl d"
  by (simp_all add: same_client_def)

text \<open>
  What the transport promises: it reads at most what fits, and what it reads is at least
  \<open>m\<close> bytes long, the shortest message the peer sends.
\<close>

definition read_contract :: "int \<Rightarrow> 'w env \<Rightarrow> bool" where
  "read_contract m E \<longleftrightarrow> (\<forall>cs h n t. 0 < n \<longrightarrow>
     r_int E cs (esp_transport_read h n t) \<le> n \<and>
     (0 < r_int E cs (esp_transport_read h n t) \<longrightarrow> m \<le> r_int E cs (esp_transport_read h n t)) \<and>
     int (length (r_bytes E cs (esp_transport_read h n t))) \<le> n)"

text \<open>
  The handlers registered on the client at \<open>c\<close>, together with the invariant \<open>I\<close> of the
  application's state, which is indexed by what the application has observed: handling an
  event keeps the client, the strings and \<open>I\<close>, and changes the observation by \<open>eff\<close>; the
  client's own steps keep both.
\<close>

text \<open>The event queue of the client takes every event.\<close>

definition posts_ok :: "'w env \<Rightarrow> bool" where
  "posts_ok E \<longleftrightarrow> (\<forall>cs h ev p n t. r_int E cs (esp_event_post_to h ev p n t) = ESP_OK)"

text \<open>What is observed of a move of the connection from one state to another.\<close>

definition conn_obs :: "(esp_websocket_event_id \<Rightarrow> 'o \<Rightarrow> 'o) \<Rightarrow> websocket_client_state \<Rightarrow>
  websocket_client_state \<Rightarrow> 'o \<Rightarrow> 'o" where
  "conn_obs eff st st' ob = (if st' = st then ob else case st' of
       WEBSOCKET_STATE_CONNECTED \<Rightarrow> eff WEBSOCKET_EVENT_CONNECTED ob
     | WEBSOCKET_STATE_WAIT_TIMEOUT \<Rightarrow> eff WEBSOCKET_EVENT_DISCONNECTED ob
     | _ \<Rightarrow> ob)"

locale ws_events =
  fixes E :: "'a ws_env" and c :: nat and I :: "'o \<Rightarrow> 'a ws_world_scheme \<Rightarrow> bool"
    and eff :: "esp_websocket_event_id \<Rightarrow> 'o \<Rightarrow> 'o" and least :: int
  assumes read: "read_contract least E"
    and calls_frame: "I ob (w\<lparr>calls := cs\<rparr>) = I ob w"
    and cfgs_frame: "I ob (w\<lparr>cfgs := h\<rparr>) = I ob w"
    and eff_data: "eff WEBSOCKET_EVENT_DATA ob = ob"
    and client_frame: "client_live c cl k w \<Longrightarrow> same_client cl cl' \<Longrightarrow> I ob w \<Longrightarrow>
      I ob (w\<lparr>clis := (clis w)\<lparr>blocks := (blocks (clis w))(c \<mapsto> cl')\<rparr>\<rparr>)"
    and rx_frame: "client_live c cl k w \<Longrightarrow> cl_rx_buffer cl = Some b \<Longrightarrow> I ob w \<Longrightarrow>
      length bs = nat (cl_buffer_size cl) \<Longrightarrow>
      I ob (w\<lparr>bufs := (bufs w)\<lparr>blocks := (blocks (bufs w))(b \<mapsto> bs)\<rparr>\<rparr>)"
    and deliver: "client_live c cl k w \<Longrightarrow> I ob w \<Longrightarrow>
      (ev = WEBSOCKET_EVENT_DATA \<longrightarrow> data_ptr d = cl_rx_buffer cl \<and> 0 < data_len d \<and>
        least \<le> data_len d \<and> data_len d \<le> cl_buffer_size cl) \<Longrightarrow>
      wp (deliver E (cl_event_handle cl) ev d) (\<lambda>_ w'. client_live c cl k w' \<and> I (eff ev ob) w' \<and>
        strs w' = strs w \<and> (\<exists>xs. calls w' = calls w @ xs)) w"
begin

definition ready :: "'o \<Rightarrow> esp_websocket_client \<Rightarrow> websocket_config_storage \<Rightarrow> 'a ws_world_scheme \<Rightarrow> bool"
  where "ready ob cl k w \<longleftrightarrow> client_live c cl k w \<and> I ob w"

text \<open>The observation after a pass that took the connection from \<open>st\<close> to \<open>st'\<close>.\<close>

definition seen :: "websocket_client_state \<Rightarrow> websocket_client_state \<Rightarrow> 'o \<Rightarrow> 'o \<Rightarrow> bool" where
  "seen st st' ob ob' \<longleftrightarrow> (posts_ok E \<longrightarrow> ob' = conn_obs eff st st' ob)"

lemma seen_simps [simp]:
  "seen st st ob ob"
  "seen WEBSOCKET_STATE_INIT WEBSOCKET_STATE_CONNECTED ob ob' \<longleftrightarrow>
     (posts_ok E \<longrightarrow> ob' = eff WEBSOCKET_EVENT_CONNECTED ob)"
  "seen WEBSOCKET_STATE_INIT WEBSOCKET_STATE_WAIT_TIMEOUT ob ob' \<longleftrightarrow>
     (posts_ok E \<longrightarrow> ob' = eff WEBSOCKET_EVENT_DISCONNECTED ob)"
  "seen WEBSOCKET_STATE_CONNECTED WEBSOCKET_STATE_WAIT_TIMEOUT ob ob' \<longleftrightarrow>
     (posts_ok E \<longrightarrow> ob' = eff WEBSOCKET_EVENT_DISCONNECTED ob)"
  "seen WEBSOCKET_STATE_CONNECTED WEBSOCKET_STATE_CONNECTED ob ob' \<longleftrightarrow> (posts_ok E \<longrightarrow> ob' = ob)"
  "seen WEBSOCKET_STATE_WAIT_TIMEOUT WEBSOCKET_STATE_INIT ob ob"
  by (simp_all add: seen_def conn_obs_def)

lemma ready_cli: "ready ob cl k w \<Longrightarrow> blocks (clis w) c = Some cl"
  by (simp add: ready_def client_live_def)

lemma ready_calls [simp]: "ready ob cl k (w\<lparr>calls := cs\<rparr>) = ready ob cl k w"
  by (simp add: ready_def calls_frame)

lemma wp_ready_load: "ready ob cl k w \<Longrightarrow> wp (f cl) Q w \<Longrightarrow> wp (bnd (load_cli (Some c)) f) Q w"
  by (rule wp_load_cli [OF ready_cli])

lemma wp_ready_cfg: "ready ob cl k w \<Longrightarrow> wp (f k) Q w \<Longrightarrow> wp (bnd (load_cfg (cl_config cl)) f) Q w"
  by (auto simp: ready_def client_live_def wp_simps)

lemma ready_upd:
  assumes "ready ob cl k w" and "same_client cl d"
  shows "ready ob d k (w\<lparr>clis := (clis w)\<lparr>blocks := (blocks (clis w))(c \<mapsto> d)\<rparr>\<rparr>)"
  using assms client_frame [of cl k w d]
  by (auto simp: ready_def client_live_def same_client_def)

lemma wp_ready_upd:
  assumes "ready ob cl k w" and "same_client cl (f cl)"
    and "\<And>w'. ready ob (f cl) k w' \<Longrightarrow> calls w' = calls w \<Longrightarrow> strs w' = strs w \<Longrightarrow> Q () w'"
  shows "wp (upd_cli (Some c) f) Q w"
proof -
  have "Q () (w\<lparr>clis := (clis w)\<lparr>blocks := (blocks (clis w))(c \<mapsto> f cl)\<rparr>\<rparr>)"
    using assms(3) [OF ready_upd [OF assms(1,2)]] by simp
  with ready_cli [OF assms(1)] show ?thesis by (simp add: wp_simps)
qed

lemma wp_ready_upd_then:
  assumes "ready ob cl k w" and "same_client cl (f cl)"
    and "\<And>w'. ready ob (f cl) k w' \<Longrightarrow> calls w' = calls w \<Longrightarrow> strs w' = strs w \<Longrightarrow> wp m Q w'"
  shows "wp (andthen (upd_cli (Some c) f) m) Q w"
  unfolding wp_andthen using assms by (rule wp_ready_upd)

text \<open>A call, and the clock.\<close>

lemma wp_ready_int:
  assumes "ready ob cl k w"
    and "\<And>w'. ready ob cl k w' \<Longrightarrow> calls w' = calls w @ [x] \<Longrightarrow> strs w' = strs w \<Longrightarrow> wp (f (r_int E (calls w) x)) Q w'"
  shows "wp (bnd (ext_int E x) f) Q w"
  using assms by (simp add: wp_simps)

lemma wp_ready_do:
  assumes "ready ob cl k w"
    and "\<And>w'. ready ob cl k w' \<Longrightarrow> calls w' = calls w @ [x] \<Longrightarrow> strs w' = strs w \<Longrightarrow> wp m Q w'"
  shows "wp (andthen (ext_do x) m) Q w"
  using assms by (simp add: wp_simps)

end

text \<open>The clock's answer after the calls \<open>cs\<close>.\<close>

definition clock_ms :: "'w env \<Rightarrow> call list \<Rightarrow> 64 word" where
  "clock_ms E cs = word_of_int (c_div (r_int E cs esp_timer_get_time) 1000)"

text \<open>The prologue as a function: the client, its configuration and the calls after it.\<close>

definition prologue_spec :: "'w env \<Rightarrow> string option \<Rightarrow> websocket_config_storage \<Rightarrow> call list \<Rightarrow>
  esp_websocket_client \<Rightarrow> esp_websocket_client \<times> websocket_config_storage \<times> call list" where
  "prologue_spec E scheme k cs cl =
    (let x = esp_transport_list_get_transport (cl_transport_list cl) scheme;
         tr = r_ptr E cs x; cs1 = cs @ [x]; y = esp_transport_get_default_port tr;
         d = cl\<lparr>cl_run := (tr \<noteq> NULL), cl_transport := tr, cl_state := WEBSOCKET_STATE_INIT\<rparr>;
         clear = xEventGroupClearBits_STOPPED (cl_status_bits cl) in
     if cfg_port k = 0 then (d, k\<lparr>cfg_port := r_int E cs1 y\<rparr>, cs1 @ [y, clear])
     else (d, k, cs1 @ [clear]))"

text \<open>
  The state machine of the connection, as a function: the client after one pass of the
  loop and the calls of that pass up to the event it posts. \<open>host\<close> is the stored host.
\<close>

definition post_call :: "esp_websocket_client \<Rightarrow> esp_websocket_event_id \<Rightarrow> ptr \<Rightarrow> int \<Rightarrow> call" where
  "post_call cl ev p n = esp_event_post_to (cl_event_handle cl) ev p n 200"

definition abort_spec :: "'w env \<Rightarrow> call list \<Rightarrow> esp_websocket_client \<Rightarrow> esp_websocket_client \<times> call list"
  where "abort_spec E cs cl =
    (cl\<lparr>cl_wait_timeout_ms := 1000,
        cl_reconnect_tick_ms := clock_ms E (cs @ [esp_transport_close (cl_transport cl)]),
        cl_state := WEBSOCKET_STATE_WAIT_TIMEOUT\<rparr>,
     cs @ [esp_transport_close (cl_transport cl), esp_timer_get_time,
       post_call cl WEBSOCKET_EVENT_DISCONNECTED NULL 0])"

definition init_spec :: "'w env \<Rightarrow> string option \<Rightarrow> websocket_config_storage \<Rightarrow> call list \<Rightarrow>
  esp_websocket_client \<Rightarrow> esp_websocket_client \<times> call list" where
  "init_spec E host k cs cl =
    (let x = esp_transport_connect (cl_transport cl) host (cfg_port k) (cfg_network_timeout_ms k) in
     if cl_transport cl = NULL then (cl\<lparr>cl_run := False\<rparr>, cs)
     else if r_int E cs x < 0 then abort_spec E (cs @ [x]) cl
     else (cl\<lparr>cl_state := WEBSOCKET_STATE_CONNECTED\<rparr>,
           cs @ [x, post_call cl WEBSOCKET_EVENT_CONNECTED NULL 0]))"

definition ping_spec :: "'w env \<Rightarrow> websocket_config_storage \<Rightarrow> call list \<Rightarrow>
  esp_websocket_client \<Rightarrow> esp_websocket_client \<times> call list" where
  "ping_spec E k cs cl =
    (if 10000 < clock_ms E cs - cl_ping_tick_ms cl
     then (cl\<lparr>cl_ping_tick_ms := clock_ms E (cs @ [esp_timer_get_time])\<rparr>,
           cs @ [esp_timer_get_time, esp_timer_get_time,
             esp_transport_write (cl_transport cl) [] (cfg_network_timeout_ms k)])
     else (cl, cs @ [esp_timer_get_time]))"

definition read_spec :: "'w env \<Rightarrow> websocket_config_storage \<Rightarrow> call list \<Rightarrow>
  esp_websocket_client \<Rightarrow> esp_websocket_client \<times> call list" where
  "read_spec E k cs cl =
    (let d = cl\<lparr>cl_ping_tick_ms := clock_ms E cs\<rparr>;
         x = esp_transport_read (cl_transport cl) (cl_buffer_size cl) (cfg_network_timeout_ms k);
         rlen = r_int E (cs @ [esp_timer_get_time]) x;
         cs' = cs @ [esp_timer_get_time, x] in
     if rlen < 0 then abort_spec E cs' d
     else (d, if rlen > 0 then cs' @ [post_call cl WEBSOCKET_EVENT_DATA (cl_rx_buffer cl) rlen] else cs'))"

definition connected_spec :: "'w env \<Rightarrow> websocket_config_storage \<Rightarrow> call list \<Rightarrow>
  esp_websocket_client \<Rightarrow> esp_websocket_client \<times> call list" where
  "connected_spec E k cs cl =
    (let x = esp_transport_poll_read (cl_transport cl) 1000; r = r_int E cs x;
         (d, cs') = ping_spec E k (cs @ [x]) cl in
     if r < 0 then abort_spec E (cs @ [x]) cl
     else if r = 0 then (d, cs')
     else read_spec E k cs' d)"

definition wait_spec :: "'w env \<Rightarrow> websocket_config_storage \<Rightarrow> call list \<Rightarrow>
  esp_websocket_client \<Rightarrow> esp_websocket_client \<times> call list" where
  "wait_spec E k cs cl =
    (let delay = vTaskDelay (c_div (c_div (cl_wait_timeout_ms cl) 2) 10) in
     if \<not> cfg_auto_reconnect k then (cl\<lparr>cl_run := False\<rparr>, cs)
     else if word_of_int (cl_wait_timeout_ms cl) < clock_ms E cs - cl_reconnect_tick_ms cl
     then (cl\<lparr>cl_state := WEBSOCKET_STATE_INIT,
              cl_reconnect_tick_ms := clock_ms E (cs @ [esp_timer_get_time])\<rparr>,
           cs @ [esp_timer_get_time, esp_timer_get_time, delay])
     else (cl, cs @ [esp_timer_get_time, delay]))"

definition pass_spec :: "'w env \<Rightarrow> string option \<Rightarrow> websocket_config_storage \<Rightarrow> call list \<Rightarrow>
  esp_websocket_client \<Rightarrow> esp_websocket_client \<times> call list" where
  "pass_spec E host k cs cl = (case cl_state cl of
       WEBSOCKET_STATE_INIT \<Rightarrow> init_spec E host k cs cl
     | WEBSOCKET_STATE_CONNECTED \<Rightarrow> connected_spec E k cs cl
     | WEBSOCKET_STATE_WAIT_TIMEOUT \<Rightarrow> wait_spec E k cs cl
     | _ \<Rightarrow> (cl, cs))"

context ws_events
begin

lemma wp_ready_tick:
  assumes "ready ob cl k w"
    and "\<And>w'. ready ob cl k w' \<Longrightarrow> calls w' = calls w @ [esp_timer_get_time] \<Longrightarrow>
      strs w' = strs w \<Longrightarrow>
      wp (f (clock_ms E (calls w))) Q w'"
  shows "wp (bnd (tick_get_ms E) f) Q w"
  using assms by (simp add: tick_get_ms_def clock_ms_def wp_simps)

lemma wp_dispatch:
  assumes "ready ob cl k w"
    and "ev = WEBSOCKET_EVENT_DATA \<longrightarrow> p = cl_rx_buffer cl \<and> 0 < n \<and> least \<le> n \<and>
      n \<le> cl_buffer_size cl"
    and Q: "\<And>w' xs ob'. ready ob' cl k w' \<Longrightarrow> (posts_ok E \<longrightarrow> ob' = eff ev ob) \<Longrightarrow>
      calls w' = calls w @ post_call cl ev p n # xs \<Longrightarrow> strs w' = strs w \<Longrightarrow> wp g Q w'"
  shows "wp (bnd (esp_websocket_client_dispatch_event E (Some c) ev p n) (\<lambda>_. g)) Q w"
proof -
  let ?d = "\<lparr>data_ptr = p, data_len = n\<rparr>"
  have post: "esp_event_post_to (cl_event_handle cl) ev p n WEBSOCKET_SEND_EVENT_TIMEOUT_MS =
      post_call cl ev p n"
    by (simp add: post_call_def ws_consts)
  have failed: "r_int E (calls w) (post_call cl ev p n) \<noteq> ESP_OK \<Longrightarrow> \<not> posts_ok E"
    unfolding posts_ok_def post_call_def by blast
  note failed [simp]
  have run: "wp (deliver E (cl_event_handle cl) ev ?d) (\<lambda>_. wp g Q) v"
    if v: "ready ob cl k v" "strs v = strs w" "calls v = calls w @ post_call cl ev p n # ys" for v ys
  proof -
    have "wp (deliver E (cl_event_handle cl) ev ?d) (\<lambda>_ w'. client_live c cl k w' \<and> I (eff ev ob) w' \<and>
        strs w' = strs v \<and> (\<exists>xs. calls w' = calls v @ xs)) v"
      using v(1) assms(2) by (intro deliver) (auto simp: ready_def)
    then show ?thesis
      by (rule wp_mono) (use v(2,3) Q in \<open>auto simp: ready_def\<close>)
  qed
  show ?thesis
    unfolding esp_websocket_client_dispatch_event_def post wp_bnd [of _ "\<lambda>_. g"]
    apply (rule wp_ready_load [OF assms(1)], rule wp_ready_int [OF assms(1)])
    using Q [of ob _ "[]"] run [of _ "[esp_event_loop_run (cl_event_handle cl) WEBSOCKET_SEND_EVENT_TIMEOUT_MS]"]
    by (auto simp: wp_ret wp_bnd wp_ext wp_andthen post)
qed

lemma wp_abort:
  assumes r: "ready ob cl k w"
    and Q: "\<And>w' xs ob'. ready ob' (fst (abort_spec E (calls w) cl)) k w' \<Longrightarrow>
      (posts_ok E \<longrightarrow> ob' = eff WEBSOCKET_EVENT_DISCONNECTED ob) \<Longrightarrow>
      calls w' = snd (abort_spec E (calls w) cl) @ xs \<Longrightarrow> strs w' = strs w \<Longrightarrow> Q () w'"
  shows "wp (bnd (esp_websocket_client_abort_connection E (Some c)) (\<lambda>_. ret ())) Q w"
  unfolding esp_websocket_client_abort_connection_def wp_bnd [of _ "\<lambda>_. ret ()"] andthen_def
    [of "esp_websocket_client_dispatch_event E (Some c) WEBSOCKET_EVENT_DISCONNECTED NULL 0"]
  apply (rule wp_ready_load [OF r], rule wp_ready_do [OF r], rule wp_ready_upd_then, assumption, simp)
  apply (rule wp_ready_tick, assumption, rule wp_ready_upd_then, assumption, simp)
  apply (rule wp_ready_upd_then, assumption, simp)
  apply (rule wp_dispatch, assumption, simp)
  by (auto simp: wp_ret abort_spec_def ws_consts post_call_def intro!: Q)

text \<open>The strings of the configuration can be read.\<close>

lemma wp_ready_str:
  assumes "ready ob cl k w" and "wp (f (cfg_strings k (blocks (strs w)) fld)) Q w"
  shows "wp (bnd (str_arg (field_get fld k)) f) Q w"
  using assms cfg_owned_live [of k "blocks (strs w)" fld]
  by (auto simp: ready_def client_live_def wp_simps cfg_strings_def split: option.splits)

lemma wp_task_init:
  assumes r: "ready ob cl k w"
    and st: "cl_state cl = WEBSOCKET_STATE_INIT"
    and Q: "\<And>w' xs ob'. ready ob' (fst (init_spec E (cfg_strings k (blocks (strs w)) F_host) k (calls w) cl)) k w' \<Longrightarrow>
      seen (cl_state cl) (cl_state (fst (init_spec E (cfg_strings k (blocks (strs w)) F_host) k (calls w) cl))) ob ob' \<Longrightarrow>
      calls w' = snd (init_spec E (cfg_strings k (blocks (strs w)) F_host) k (calls w) cl) @ xs \<Longrightarrow>
      strs w' = strs w \<Longrightarrow> Q () w'"
  shows "wp (task_init E (Some c)) Q w"
proof (cases "cl_transport cl = NULL")
  case True
  with Q have "ready ob (cl\<lparr>cl_run := False\<rparr>) k w' \<Longrightarrow> calls w' = calls w \<Longrightarrow> strs w' = strs w \<Longrightarrow> Q () w'" for w'
    by (simp add: init_spec_def)
  with True show ?thesis
    unfolding task_init_def
    by (intro wp_ready_load [OF r]) (simp, rule wp_ready_upd [OF r], simp_all)
next
  case False
  then obtain tr where tr: "cl_transport cl = Some tr" by auto
  let ?x = "esp_transport_connect (cl_transport cl) (cfg_strings k (blocks (strs w)) F_host)
    (cfg_port k) (cfg_network_timeout_ms k)"
  let ?k = "\<lambda>r. if r < 0 then bnd (esp_websocket_client_abort_connection E (Some c)) (\<lambda>_. ret ())
         else andthen (upd_cli (Some c) (\<lambda>d. d\<lparr>cl_state := WEBSOCKET_STATE_CONNECTED\<rparr>))
           (bnd (esp_websocket_client_dispatch_event E (Some c) WEBSOCKET_EVENT_CONNECTED NULL 0)
             (\<lambda>_. ret ()))"
  have cont: "wp (?k (r_int E (calls w) ?x)) Q v"
    if v: "ready ob cl k v" "calls v = calls w @ [?x]" "strs v = strs w" for v
  proof (cases "r_int E (calls w) ?x < 0")
    case True
    with tr v have eq: "init_spec E (cfg_strings k (blocks (strs w)) F_host) k (calls w) cl =
        abort_spec E (calls v) cl"
      by (simp add: init_spec_def Let_def)
    have "wp (bnd (esp_websocket_client_abort_connection E (Some c)) (\<lambda>_. ret ())) Q v"
      by (rule wp_abort [OF v(1)], rule Q) (auto simp: eq v(3) st abort_spec_def)
    with True show ?thesis by simp
  next
    case pos: False
    have "wp (andthen (upd_cli (Some c) (\<lambda>d. d\<lparr>cl_state := WEBSOCKET_STATE_CONNECTED\<rparr>))
        (bnd (esp_websocket_client_dispatch_event E (Some c) WEBSOCKET_EVENT_CONNECTED NULL 0) (\<lambda>_. ret ()))) Q v"
      apply (rule wp_ready_upd_then [OF v(1)], simp)
      apply (rule wp_dispatch, assumption, simp)
      using pos tr v by (auto simp: wp_ret init_spec_def Let_def post_call_def st intro!: Q)
    with pos show ?thesis by simp
  qed
  show ?thesis
    unfolding task_init_def
    apply (rule wp_ready_load [OF r], subst if_not_P, rule False)
    apply (rule wp_ready_cfg [OF r], rule wp_ready_str [OF r, of _ F_host, unfolded field_get.simps])
    apply (rule wp_ready_int [OF r], rule cont, assumption+)
    done
qed

lemma wp_task_ping:
  assumes r: "ready ob cl k w"
    and Q: "\<And>w'. ready ob (fst (ping_spec E k (calls w) cl)) k w' \<Longrightarrow>
      calls w' = snd (ping_spec E k (calls w) cl) \<Longrightarrow> strs w' = strs w \<Longrightarrow> Q () w'"
  shows "wp (task_ping E (Some c)) Q w"
proof -
  have due: "(word_of_int WEBSOCKET_PING_TIMEOUT_MS :: 64 word) = 10000" by (simp add: ws_consts)
  show ?thesis
    unfolding task_ping_def
    apply (rule wp_ready_tick [OF r], rule wp_ready_load, assumption)
    unfolding when_do_def due
  proof (split if_split, intro conjI impI)
    fix v
    assume v: "ready ob cl k v" "calls v = calls w @ [esp_timer_get_time]" "strs v = strs w"
      and late: "10000 < clock_ms E (calls w) - cl_ping_tick_ms cl"
    let ?x = "esp_transport_write (cl_transport cl) [] (cfg_network_timeout_ms k)"
    show "wp (bnd (tick_get_ms E) (\<lambda>t2. andthen (upd_cli (Some c) (\<lambda>d. d\<lparr>cl_ping_tick_ms := t2\<rparr>))
        (bnd (load_cfg (cl_config cl)) (\<lambda>k. bnd (ext_int E (esp_transport_write (cl_transport cl) []
          (cfg_network_timeout_ms k))) (\<lambda>_. ret ()))))) Q v"
      apply (rule wp_ready_tick [OF v(1)], rule wp_ready_upd_then, assumption, simp)
      apply (rule wp_ready_cfg [of _ "cl\<lparr>cl_ping_tick_ms := clock_ms E (calls v)\<rparr>" for v, simplified],
          assumption)
      apply (rule wp_ready_int, assumption)
      using late v by (auto simp: wp_ret ping_spec_def intro!: Q)
  next
    fix v
    assume "ready ob cl k v" "calls v = calls w @ [esp_timer_get_time]" "strs v = strs w"
      and "\<not> 10000 < clock_ms E (calls w) - cl_ping_tick_ms cl"
    then show "wp (ret ()) Q v" by (auto simp: wp_ret ping_spec_def intro!: Q)
  qed
qed

text \<open>A read fills the front of the receive buffer, never more.\<close>

lemma wp_read_rx:
  assumes r: "ready ob cl k w"
    and Q: "\<And>w'. ready ob cl k w' \<Longrightarrow> calls w' = calls w @ [esp_transport_read (cl_transport cl)
        (cl_buffer_size cl) (cfg_network_timeout_ms k)] \<Longrightarrow> strs w' = strs w \<Longrightarrow>
      wp (f (r_int E (calls w) (esp_transport_read (cl_transport cl) (cl_buffer_size cl)
        (cfg_network_timeout_ms k)))) Q w'"
  shows "wp (bnd (read_rx E cl) f) Q w"
proof -
  let ?x = "esp_transport_read (cl_transport cl) (cl_buffer_size cl) (cfg_network_timeout_ms k)"
  from r have live: "client_live c cl k w" and inv: "I ob w" by (simp_all add: ready_def)
  from live obtain q b old a where p: "cl_config cl = Some q"
    "blocks (cfgs w) q = Some k" "cl_rx_buffer cl = Some b" "blocks (bufs w) b = Some old"
    "length old = nat (cl_buffer_size cl)" "0 < cl_buffer_size cl" "cl_tx_buffer cl = Some a" "a \<noteq> b"
    unfolding client_live_def by blast
  let ?bs = "r_bytes E (calls w) ?x"
  let ?new = "?bs @ drop (length ?bs) old"
  have fit: "length ?bs \<le> length old"
    using read p(5,6) unfolding read_contract_def by (metis nat_int nat_mono)
  then have len: "length ?new = nat (cl_buffer_size cl)" using p(5) by simp
  let ?w1 = "w\<lparr>bufs := (bufs w)\<lparr>blocks := (blocks (bufs w))(b \<mapsto> ?new)\<rparr>\<rparr>"
  have "I ob ?w1" by (rule rx_frame [OF live p(3) inv len])
  moreover have "client_live c cl k ?w1"
    using live p(3,7,8) len by (auto simp: client_live_def)
  ultimately have "ready ob cl k (?w1\<lparr>calls := calls w @ [?x]\<rparr>)" by (simp add: ready_def calls_frame)
  from Q [OF this] have "wp (f (r_int E (calls w) ?x)) Q (?w1\<lparr>calls := calls w @ [?x]\<rparr>)" by simp
  moreover have "?w1\<lparr>calls := cs\<rparr> = w\<lparr>calls := cs, bufs := bufs ?w1\<rparr>" for cs by simp
  ultimately show ?thesis
    using p fit by (simp add: read_rx_def Let_def wp_simps)
qed

lemma wp_task_read:
  assumes r: "ready ob cl k w"
    and st: "cl_state cl = WEBSOCKET_STATE_CONNECTED"
    and Q: "\<And>w' xs ob'. ready ob' (fst (read_spec E k (calls w) cl)) k w' \<Longrightarrow>
      seen (cl_state cl) (cl_state (fst (read_spec E k (calls w) cl))) ob ob' \<Longrightarrow>
      calls w' = snd (read_spec E k (calls w) cl) @ xs \<Longrightarrow> strs w' = strs w \<Longrightarrow> Q () w'"
  shows "wp (task_read E (Some c)) Q w"
proof -
  let ?d = "cl\<lparr>cl_ping_tick_ms := clock_ms E (calls w)\<rparr>"
  let ?x = "esp_transport_read (cl_transport cl) (cl_buffer_size cl) (cfg_network_timeout_ms k)"
  let ?r = "r_int E (calls w @ [esp_timer_get_time]) ?x"
  have size: "0 < cl_buffer_size cl" using r by (simp add: ready_def client_live_def)
  then have max: "?r \<le> cl_buffer_size cl" "0 < ?r \<longrightarrow> least \<le> ?r"
    using read unfolding read_contract_def by blast+
  have cont: "wp (if ?r < 0 then bnd (esp_websocket_client_abort_connection E (Some c)) (\<lambda>_. ret ())
      else when_do (?r > 0) (bnd (esp_websocket_client_dispatch_event E (Some c) WEBSOCKET_EVENT_DATA
        (cl_rx_buffer cl) ?r) (\<lambda>_. ret ()))) Q v"
    if v: "ready ob ?d k v" "calls v = calls w @ [esp_timer_get_time, ?x]" "strs v = strs w" for v
  proof -
    consider (neg) "?r < 0" | (zero) "?r = 0" | (pos) "?r > 0" by linarith
    then show ?thesis
    proof cases
      case neg
      then have eq: "read_spec E k (calls w) cl = abort_spec E (calls v) ?d"
        by (simp add: read_spec_def Let_def v(2))
      have "wp (bnd (esp_websocket_client_abort_connection E (Some c)) (\<lambda>_. ret ())) Q v"
        by (rule wp_abort [OF v(1)], rule Q) (auto simp: eq v(3) st abort_spec_def)
      with neg show ?thesis by simp
    next
      case zero
      with v show ?thesis by (auto simp: when_do_def wp_ret read_spec_def Let_def intro!: Q)
    next
      case pos
      have "wp (bnd (esp_websocket_client_dispatch_event E (Some c) WEBSOCKET_EVENT_DATA
          (cl_rx_buffer cl) ?r) (\<lambda>_. ret ())) Q v"
        by (rule wp_dispatch [OF v(1)])
          (use pos max v in \<open>auto simp: wp_ret read_spec_def Let_def post_call_def st eff_data intro!: Q\<close>)
      with pos show ?thesis by (simp add: when_do_def)
    qed
  qed
  show ?thesis
    unfolding task_read_def
    apply (rule wp_ready_tick [OF r], rule wp_ready_upd_then, assumption, simp)
    apply (rule wp_ready_load, assumption, rule wp_read_rx, assumption)
    using cont by (simp split del: if_split cong: if_cong)
qed

lemma wp_task_connected:
  assumes r: "ready ob cl k w"
    and st: "cl_state cl = WEBSOCKET_STATE_CONNECTED"
    and Q: "\<And>w' xs ob'. ready ob' (fst (connected_spec E k (calls w) cl)) k w' \<Longrightarrow>
      seen (cl_state cl) (cl_state (fst (connected_spec E k (calls w) cl))) ob ob' \<Longrightarrow>
      calls w' = snd (connected_spec E k (calls w) cl) @ xs \<Longrightarrow> strs w' = strs w \<Longrightarrow> Q () w'"
  shows "wp (task_connected E (Some c)) Q w"
proof -
  let ?x = "esp_transport_poll_read (cl_transport cl) 1000"
  let ?r = "r_int E (calls w) ?x"
  obtain d cs where ping: "ping_spec E k (calls w @ [?x]) cl = (d, cs)" by fastforce
  then have same: "cl_state d = cl_state cl" by (auto simp: ping_spec_def split: if_splits)
  have cont: "wp (if ?r < 0 then bnd (esp_websocket_client_abort_connection E (Some c)) (\<lambda>_. ret ())
      else andthen (task_ping E (Some c)) (when_do (?r \<noteq> 0) (task_read E (Some c)))) Q v"
    if v: "ready ob cl k v" "calls v = calls w @ [?x]" "strs v = strs w" for v
  proof (cases "?r < 0")
    case True
    then have eq: "connected_spec E k (calls w) cl = abort_spec E (calls v) cl"
      by (simp add: connected_spec_def Let_def v(2) ping)
    have "wp (bnd (esp_websocket_client_abort_connection E (Some c)) (\<lambda>_. ret ())) Q v"
      by (rule wp_abort [OF v(1)], rule Q) (auto simp: eq v(3) st abort_spec_def)
    with True show ?thesis by simp
  next
    case pos: False
    have "wp (when_do (?r \<noteq> 0) (task_read E (Some c))) Q u"
      if u: "ready ob d k u" "calls u = cs" "strs u = strs w" for u
    proof (cases "?r = 0")
      case True
      with u pos show ?thesis
        by (auto simp: when_do_def wp_ret connected_spec_def Let_def ping same intro!: Q)
    next
      case False
      with pos have eq: "connected_spec E k (calls w) cl = read_spec E k (calls u) d"
        by (simp add: connected_spec_def Let_def ping u(2))
      have "wp (task_read E (Some c)) Q u"
        by (rule wp_task_read [OF u(1)]) (auto simp: eq u(3) same st intro!: Q)
      with False show ?thesis by (simp add: when_do_def)
    qed
    then have "wp (task_ping E (Some c)) (\<lambda>_. wp (when_do (?r \<noteq> 0) (task_read E (Some c))) Q) v"
      by (intro wp_task_ping [OF v(1)]) (simp add: v(2,3) ping)
    with pos show ?thesis by (simp add: wp_andthen)
  qed
  show ?thesis
    unfolding task_connected_def
    by (rule wp_ready_load [OF r], rule wp_ready_int [OF r], rule cont)
qed

lemma wp_task_wait:
  assumes r: "ready ob cl k w"
    and st: "cl_state cl = WEBSOCKET_STATE_WAIT_TIMEOUT"
    and Q: "\<And>w'. ready ob (fst (wait_spec E k (calls w) cl)) k w' \<Longrightarrow>
      seen (cl_state cl) (cl_state (fst (wait_spec E k (calls w) cl))) ob ob \<Longrightarrow>
      calls w' = snd (wait_spec E k (calls w) cl) \<Longrightarrow> strs w' = strs w \<Longrightarrow> Q () w'"
  shows "wp (task_wait E (Some c)) Q w"
proof (cases "cfg_auto_reconnect k")
  case False
  then have "wp (upd_cli (Some c) (\<lambda>d. d\<lparr>cl_run := False\<rparr>)) Q w"
    by (intro wp_ready_upd [OF r]) (auto simp: wait_spec_def Let_def intro!: Q)
  with False show ?thesis
    unfolding task_wait_def by (intro wp_ready_load [OF r] wp_ready_cfg [OF r]) simp
next
  case True
  let ?delay = "vTaskDelay (c_div (c_div (cl_wait_timeout_ms cl) 2) portTICK_PERIOD_MS)"
  have tick: "portTICK_PERIOD_MS = 10" by (simp add: ws_consts)
  let ?late = "word_of_int (cl_wait_timeout_ms cl) < clock_ms E (calls w) - cl_reconnect_tick_ms cl"
  have cont: "wp (andthen (when_do ?late
         (andthen (upd_cli (Some c) (\<lambda>d. d\<lparr>cl_state := WEBSOCKET_STATE_INIT\<rparr>))
         (bnd (tick_get_ms E) (\<lambda>t2. upd_cli (Some c) (\<lambda>d. d\<lparr>cl_reconnect_tick_ms := t2\<rparr>)))))
       (ext_do ?delay)) Q v"
    if v: "ready ob cl k v" "calls v = calls w @ [esp_timer_get_time]" "strs v = strs w" for v
  proof (cases ?late)
    case False
    with v True show ?thesis
      by (auto simp: wp_andthen when_do_def wp_ret wp_ext wait_spec_def Let_def tick intro!: Q)
  next
    case late: True
    have "wp (andthen (upd_cli (Some c) (\<lambda>d. d\<lparr>cl_state := WEBSOCKET_STATE_INIT\<rparr>))
         (bnd (tick_get_ms E) (\<lambda>t2. upd_cli (Some c) (\<lambda>d. d\<lparr>cl_reconnect_tick_ms := t2\<rparr>))))
        (\<lambda>_. wp (ext_do ?delay) Q) v"
      apply (rule wp_ready_upd_then [OF v(1)], simp, rule wp_ready_tick, assumption)
      apply (rule wp_ready_upd, assumption, simp)
      using v True late by (auto simp: wp_ext wait_spec_def Let_def tick st intro!: Q)
    with late show ?thesis by (simp add: wp_andthen when_do_def)
  qed
  have "wp (bnd (tick_get_ms E) (\<lambda>t. andthen (when_do
         (word_of_int (cl_wait_timeout_ms cl) < t - cl_reconnect_tick_ms cl)
         (andthen (upd_cli (Some c) (\<lambda>d. d\<lparr>cl_state := WEBSOCKET_STATE_INIT\<rparr>))
         (bnd (tick_get_ms E) (\<lambda>t2. upd_cli (Some c) (\<lambda>d. d\<lparr>cl_reconnect_tick_ms := t2\<rparr>)))))
       (ext_do ?delay))) Q w"
    by (rule wp_ready_tick [OF r], rule cont)
  with True show ?thesis
    unfolding task_wait_def by (intro wp_ready_load [OF r] wp_ready_cfg [OF r]) simp
qed

text \<open>One pass of the loop computes \<open>pass_spec\<close>, and keeps everything well formed.\<close>

lemma wp_iteration:
  assumes r: "ready ob cl k w"
    and Q: "\<And>w' xs ob'. ready ob' (fst (pass_spec E (cfg_strings k (blocks (strs w)) F_host) k (calls w) cl)) k w' \<Longrightarrow>
      seen (cl_state cl) (cl_state (fst (pass_spec E (cfg_strings k (blocks (strs w)) F_host) k (calls w) cl))) ob ob' \<Longrightarrow>
      calls w' = snd (pass_spec E (cfg_strings k (blocks (strs w)) F_host) k (calls w) cl) @ xs \<Longrightarrow>
      strs w' = strs w \<Longrightarrow> Q () w'"
  shows "wp (task_iteration E (Some c)) Q w"
  unfolding task_iteration_def
proof (rule wp_ready_load [OF r], cases "cl_state cl")
  case st: WEBSOCKET_STATE_INIT
  then have eq: "pass_spec E (cfg_strings k (blocks (strs w)) F_host) k (calls w) cl = init_spec E (cfg_strings k (blocks (strs w)) F_host) k (calls w) cl"
    by (simp add: pass_spec_def)
  have "wp (task_init E (Some c)) Q w"
    by (rule wp_task_init [OF r st]) (simp_all add: Q [unfolded eq])
  with st show "wp (case cl_state cl of WEBSOCKET_STATE_INIT \<Rightarrow> task_init E (Some c)
     | WEBSOCKET_STATE_CONNECTED \<Rightarrow> task_connected E (Some c)
     | WEBSOCKET_STATE_WAIT_TIMEOUT \<Rightarrow> task_wait E (Some c) | _ \<Rightarrow> ret ()) Q w" by simp
next
  case st: WEBSOCKET_STATE_CONNECTED
  then have eq: "pass_spec E (cfg_strings k (blocks (strs w)) F_host) k (calls w) cl = connected_spec E k (calls w) cl"
    by (simp add: pass_spec_def)
  have "wp (task_connected E (Some c)) Q w"
    by (rule wp_task_connected [OF r st]) (simp_all add: Q [unfolded eq])
  with st show "wp (case cl_state cl of WEBSOCKET_STATE_INIT \<Rightarrow> task_init E (Some c)
     | WEBSOCKET_STATE_CONNECTED \<Rightarrow> task_connected E (Some c)
     | WEBSOCKET_STATE_WAIT_TIMEOUT \<Rightarrow> task_wait E (Some c) | _ \<Rightarrow> ret ()) Q w" by simp
next
  case st: WEBSOCKET_STATE_WAIT_TIMEOUT
  then have eq: "pass_spec E (cfg_strings k (blocks (strs w)) F_host) k (calls w) cl = wait_spec E k (calls w) cl"
    by (simp add: pass_spec_def)
  have "wp (task_wait E (Some c)) Q w"
    by (rule wp_task_wait [OF r st]) (simp_all add: Q [unfolded eq, of _ _ "[]"])
  with st show "wp (case cl_state cl of WEBSOCKET_STATE_INIT \<Rightarrow> task_init E (Some c)
     | WEBSOCKET_STATE_CONNECTED \<Rightarrow> task_connected E (Some c)
     | WEBSOCKET_STATE_WAIT_TIMEOUT \<Rightarrow> task_wait E (Some c) | _ \<Rightarrow> ret ()) Q w" by simp
qed (use r Q [of _ _ "[]"] in \<open>simp_all add: pass_spec_def wp_ret\<close>)

text \<open>The prologue.\<close>

lemma wp_prologue:
  assumes r: "ready ob cl k w"
    and Q: "\<And>w'. (case prologue_spec E (cfg_strings k (blocks (strs w)) F_scheme) k (calls w) cl of
        (d, k', cs) \<Rightarrow> ready ob d k' w' \<and> calls w' = cs) \<Longrightarrow> strs w' = strs w \<Longrightarrow> Q () w'"
  shows "wp (task_prologue E (Some c)) Q w"
proof -
  let ?x = "esp_transport_list_get_transport (cl_transport_list cl) (cfg_strings k (blocks (strs w)) F_scheme)"
  let ?tr = "r_ptr E (calls w) ?x"
  let ?finish = "\<lambda>bits. andthen (upd_cli (Some c) (\<lambda>d. d\<lparr>cl_state := WEBSOCKET_STATE_INIT\<rparr>))
    (ext_do (xEventGroupClearBits_STOPPED bits))"
  let ?d = "cl\<lparr>cl_run := (?tr \<noteq> NULL), cl_transport := ?tr\<rparr>"
  have fin: "wp (?finish (cl_status_bits cl)) Q v" if v: "ready ob ?d k' v" "strs v = strs w"
    "prologue_spec E (cfg_strings k (blocks (strs w)) F_scheme) k (calls w) cl =
      (?d\<lparr>cl_state := WEBSOCKET_STATE_INIT\<rparr>, k', calls v @ [xEventGroupClearBits_STOPPED (cl_status_bits cl)])"
    for v k'
    by (rule wp_ready_upd_then [OF v(1)], simp) (auto simp: wp_ext v(2) v(3) intro!: Q)
  have port: "wp (andthen (when_do (cfg_port k = 0)
       (bnd (ext_int E (esp_transport_get_default_port ?tr)) (\<lambda>p.
          upd_cfg (cl_config cl) (\<lambda>k. k\<lparr>cfg_port := p\<rparr>)))) (?finish (cl_status_bits cl))) Q v"
    if v: "ready ob ?d k v" "calls v = calls w @ [?x]" "strs v = strs w" for v
  proof (cases "cfg_port k = 0")
    case False
    then have "wp (?finish (cl_status_bits cl)) Q v"
      by (intro fin [OF v(1,3)]) (simp add: prologue_spec_def Let_def v(2))
    with False show ?thesis
      by (simp add: when_do_def wp_andthen [of "ret ()"] wp_ret [of "()"])
  next
    case True
    let ?y = "esp_transport_get_default_port ?tr"
    let ?k = "k\<lparr>cfg_port := r_int E (calls v) ?y\<rparr>"
    from v(1) obtain q where q: "cl_config cl = Some q" "blocks (cfgs v) q = Some k"
      by (auto simp: ready_def client_live_def)
    let ?v = "v\<lparr>calls := calls v @ [?y], cfgs := (cfgs v)\<lparr>blocks := (blocks (cfgs v))(q \<mapsto> ?k)\<rparr>\<rparr>"
    have "ready ob ?d ?k ?v"
      using v(1) q by (auto simp: ready_def client_live_def cfgs_frame calls_frame cfg_owned_def)
    then have "wp (?finish (cl_status_bits cl)) Q ?v"
      by (rule fin) (use True v in \<open>simp_all add: prologue_spec_def Let_def\<close>)
    with True q show ?thesis
      by (simp add: wp_andthen [of "bnd _ _"] when_do_def wp_bnd wp_ext upd_cfg_def wp_zoom
          wp_mem_modify)
  qed
  have tr: "wp (andthen (when_do (?tr = NULL) (upd_cli (Some c) (\<lambda>d. d\<lparr>cl_run := False\<rparr>))) m) Q v"
    if v: "ready ob (cl\<lparr>cl_run := True, cl_transport := ?tr\<rparr>) k v" "calls v = calls w @ [?x]" "strs v = strs w"
      and m: "\<And>v. ready ob ?d k v \<Longrightarrow> calls v = calls w @ [?x] \<Longrightarrow> strs v = strs w \<Longrightarrow> wp m Q v" for v m
  proof (cases "?tr = NULL")
    case False
    with v m [of v] have "wp m Q v" by simp
    then show ?thesis unfolding when_do_def if_not_P [OF False] by (simp add: wp_andthen wp_ret)
  next
    case True
    have "wp (upd_cli (Some c) (\<lambda>d. d\<lparr>cl_run := False\<rparr>)) (\<lambda>_. wp m Q) v"
    proof (rule wp_ready_upd [OF v(1)])
      have d: "cl\<lparr>cl_run := True, cl_transport := ?tr, cl_run := False\<rparr> = ?d" using True by simp
      show "wp m Q v'" if "ready ob (cl\<lparr>cl_run := True, cl_transport := ?tr, cl_run := False\<rparr>) k v'"
        "calls v' = calls v" "strs v' = strs v" for v'
        using that v(2,3) unfolding d by (intro m) simp_all
    qed simp
    with True show ?thesis by (simp add: wp_andthen when_do_def)
  qed
  show ?thesis
    unfolding task_prologue_def
    apply (rule wp_ready_upd_then [OF r], simp, rule wp_ready_load, assumption)
    apply (rule wp_ready_cfg, assumption, rule wp_ready_str [of _ _ k _ _ F_scheme, unfolded field_get.simps],
        assumption)
    unfolding wp_bnd wp_ext
    apply (rule wp_ready_upd_then [of _ "cl\<lparr>cl_run := True\<rparr>" k], simp, simp)
    apply simp
    apply (rule tr, simp, simp, simp, rule port, assumption+)
    done
qed

end

subsection \<open>Facts about the state machine\<close>

text \<open>The states the loop runs in, and what one pass may do to the client.\<close>

definition loop_state :: "websocket_client_state \<Rightarrow> bool" where
  "loop_state st \<longleftrightarrow> WEBSOCKET_STATE_INIT \<le> st"

fun state_edge :: "websocket_client_state \<Rightarrow> websocket_client_state \<Rightarrow> bool" where
  "state_edge WEBSOCKET_STATE_INIT st \<longleftrightarrow>
     st \<in> {WEBSOCKET_STATE_INIT, WEBSOCKET_STATE_CONNECTED, WEBSOCKET_STATE_WAIT_TIMEOUT}"
| "state_edge WEBSOCKET_STATE_CONNECTED st \<longleftrightarrow>
     st \<in> {WEBSOCKET_STATE_CONNECTED, WEBSOCKET_STATE_WAIT_TIMEOUT}"
| "state_edge WEBSOCKET_STATE_WAIT_TIMEOUT st \<longleftrightarrow>
     st \<in> {WEBSOCKET_STATE_WAIT_TIMEOUT, WEBSOCKET_STATE_INIT}"
| "state_edge st st' \<longleftrightarrow> st' = st"

lemmas pass_defs = pass_spec_def init_spec_def connected_spec_def ping_spec_def read_spec_def
  wait_spec_def abort_spec_def

lemma pass_spec_same: "same_client cl (fst (pass_spec E host k cs cl))"
  by (auto simp: pass_defs Let_def split: websocket_client_state.split)

lemma pass_spec_edge: "state_edge (cl_state cl) (cl_state (fst (pass_spec E host k cs cl)))"
  by (cases "cl_state cl") (auto simp: pass_defs Let_def)

lemma pass_spec_transport [simp]: "cl_transport (fst (pass_spec E host k cs cl)) = cl_transport cl"
  by (auto simp: pass_defs Let_def split: websocket_client_state.split)

text \<open>
  The calls in which the task gives up the processor: it waits for the network, or delays
  itself by at least a tick.
\<close>

fun yields :: "call \<Rightarrow> bool" where
  "yields (esp_transport_connect h host p t) \<longleftrightarrow> True"
| "yields (esp_transport_poll_read h t) \<longleftrightarrow> 0 < t"
| "yields (vTaskDelay t) \<longleftrightarrow> 0 < t"
| "yields _ \<longleftrightarrow> False"

text \<open>While it waits for a reconnection the delay is the one an abort has set.\<close>

definition wait_set :: "esp_websocket_client \<Rightarrow> bool" where
  "wait_set cl \<longleftrightarrow> (cl_state cl = WEBSOCKET_STATE_WAIT_TIMEOUT \<longrightarrow>
     cl_wait_timeout_ms cl = WEBSOCKET_RECONNECT_TIMEOUT_MS)"

lemma pass_spec_loop:
  assumes "loop_state (cl_state cl)" and "wait_set cl"
  shows "loop_state (cl_state (fst (pass_spec E host k cs cl)))"
    and "wait_set (fst (pass_spec E host k cs cl))"
  using assms by (auto simp: pass_defs Let_def loop_state_def wait_set_def ws_consts
      less_eq_websocket_client_state_def split: websocket_client_state.split)

text \<open>A pass of a loop that goes on yields.\<close>

lemma pass_spec_yields:
  assumes "loop_state (cl_state cl)" and "wait_set cl" and "cl_run (fst (pass_spec E host k cs cl))"
  shows "\<exists>ys x zs. snd (pass_spec E host k cs cl) = cs @ ys @ x # zs \<and> yields x"
proof -
  have found: "\<exists>ys x zs. cs @ us = cs @ ys @ x # zs \<and> yields x" if "\<exists>x \<in> set us. yields x" for us
    using that by (metis split_list)
  consider (init) "cl_state cl = WEBSOCKET_STATE_INIT" | (up) "cl_state cl = WEBSOCKET_STATE_CONNECTED"
    | (wait) "cl_state cl = WEBSOCKET_STATE_WAIT_TIMEOUT"
    using assms(1) by (cases "cl_state cl") (auto simp: loop_state_def less_eq_websocket_client_state_def)
  then have "\<exists>us. snd (pass_spec E host k cs cl) = cs @ us \<and> (\<exists>x \<in> set us. yields x)"
  proof cases
    case init
    with assms(3) show ?thesis by (cases "cl_transport cl") (auto simp: pass_defs Let_def)
  next
    case up
    then show ?thesis by (auto simp: pass_defs Let_def)
  next
    case wait
    with assms(2,3) show ?thesis
      by (cases "cfg_auto_reconnect k") (auto simp: pass_defs Let_def wait_set_def ws_consts c_div_def)
  qed
  then show ?thesis using found by metis
qed

text \<open>A pass ends the loop only without a transport or without automatic reconnection.\<close>

lemma pass_spec_run:
  assumes "cl_transport cl \<noteq> NULL" and "cfg_auto_reconnect k"
  shows "cl_run (fst (pass_spec E host k cs cl)) = cl_run cl"
  using assms by (auto simp: pass_defs Let_def split: websocket_client_state.split)

context ws_events
begin

lemma run_loop: "task_loop n E (Some c) = bnd (load_cli (Some c)) (\<lambda>cl.
     if \<not> cl_run cl then ret True
     else (case n of 0 \<Rightarrow> ret False
           | Suc m \<Rightarrow> andthen (task_iteration E (Some c)) (task_loop m E (Some c))))"
  by (simp add: task_loop.simps)

text \<open>Any number of passes keeps the client well formed; the loop ends when \<open>run\<close> is false.\<close>

lemma wp_task_loop:
  assumes "ready ob cl k w"
  shows "wp (task_loop n E (Some c)) (\<lambda>ended w'. strs w' = strs w \<and> (\<exists>cl' ob'. ready ob' cl' k w' \<and>
    same_client cl cl' \<and> cl_transport cl' = cl_transport cl \<and> (ended \<longleftrightarrow> \<not> cl_run cl'))) w"
  using assms
proof (induction n arbitrary: w cl ob)
  case 0
  then show ?case
    by (subst run_loop, intro wp_ready_load [OF 0]) (auto simp: wp_ret)
next
  case (Suc n)
  show ?case
  proof (subst run_loop, rule wp_ready_load [OF Suc.prems], cases "cl_run cl")
    case False
    with Suc.prems show "wp (if \<not> cl_run cl then ret True else (case Suc n of 0 \<Rightarrow> ret False
        | Suc m \<Rightarrow> andthen (task_iteration E (Some c)) (task_loop m E (Some c))))
      (\<lambda>ended w'. strs w' = strs w \<and> (\<exists>cl' ob'. ready ob' cl' k w' \<and> same_client cl cl' \<and>
        cl_transport cl' = cl_transport cl \<and> (ended \<longleftrightarrow> \<not> cl_run cl'))) w"
      by (auto simp: wp_ret)
  next
    case True
    let ?Q = "\<lambda>ended w'. strs w' = strs w \<and> (\<exists>cl' ob'. ready ob' cl' k w' \<and> same_client cl cl' \<and>
        cl_transport cl' = cl_transport cl \<and> (ended \<longleftrightarrow> \<not> cl_run cl'))"
    have "wp (task_iteration E (Some c)) (\<lambda>_. wp (task_loop n E (Some c)) ?Q) w"
    proof (rule wp_iteration [OF Suc.prems])
      fix w' xs ob'
      let ?d = "fst (pass_spec E (cfg_strings k (blocks (strs w)) F_host) k (calls w) cl)"
      assume w': "ready ob' ?d k w'" "strs w' = strs w"
      show "wp (task_loop n E (Some c)) ?Q w'"
        by (rule wp_mono [OF Suc.IH [OF w'(1)]])
          (use w'(2) same_client_trans [OF pass_spec_same] in fastforce)
    qed
    with True show "wp (if \<not> cl_run cl then ret True else (case Suc n of 0 \<Rightarrow> ret False
        | Suc m \<Rightarrow> andthen (task_iteration E (Some c)) (task_loop m E (Some c)))) ?Q w"
      by (simp add: wp_andthen)
  qed
qed

text \<open>\<open>n\<close> passes that do not end the loop yield at least \<open>n\<close> times.\<close>

lemma wp_loop_yields:
  assumes "ready ob cl k w" and "loop_state (cl_state cl)" and "wait_set cl"
  shows "wp (task_loop n E (Some c)) (\<lambda>ended w'. (ended \<longleftrightarrow> (\<exists>cl'. blocks (clis w') c = Some cl' \<and> \<not> cl_run cl')) \<and>
    (\<exists>ob' cl'. ready ob' cl' k w') \<and>
    (\<exists>xs. calls w' = calls w @ xs \<and> (ended \<or> n \<le> length (filter yields xs)))) w"
    (is "wp _ (?Q n w) w")
  using assms
proof (induction n arbitrary: w cl ob)
  case 0
  then show ?case
    by (subst run_loop, intro wp_ready_load [OF 0(1)]) (auto simp: wp_ret dest: ready_cli)
next
  case (Suc n)
  show ?case
  proof (subst run_loop, rule wp_ready_load [OF Suc.prems(1)], cases "cl_run cl")
    case False
    with Suc.prems(1) show "wp (if \<not> cl_run cl then ret True else (case Suc n of 0 \<Rightarrow> ret False
        | Suc m \<Rightarrow> andthen (task_iteration E (Some c)) (task_loop m E (Some c)))) (?Q (Suc n) w) w"
      by (auto simp: wp_ret dest: ready_cli)
  next
    case True
    have "wp (task_iteration E (Some c)) (\<lambda>_. wp (task_loop n E (Some c)) (?Q (Suc n) w)) w"
    proof (rule wp_iteration [OF Suc.prems(1)])
      fix w' xs ob'
      let ?p = "pass_spec E (cfg_strings k (blocks (strs w)) F_host) k (calls w) cl"
      assume w': "ready ob' (fst ?p) k w'" "calls w' = snd ?p @ xs" "strs w' = strs w"
      note inv = pass_spec_loop [OF Suc.prems(2,3)]
      show "wp (task_loop n E (Some c)) (?Q (Suc n) w) w'"
      proof (cases "cl_run (fst ?p)")
        case False
        have "\<exists>us. snd ?p = calls w @ us"
          by (auto simp: pass_defs Let_def split: websocket_client_state.split)
        with False w' show ?thesis
          by (subst run_loop, intro wp_ready_load [OF w'(1)]) (auto simp: wp_ret dest: ready_cli)
      next
        case True
        from pass_spec_yields [OF Suc.prems(2,3) True] obtain ys x zs where
          x: "snd ?p = calls w @ ys @ x # zs" "yields x" by blast
        show ?thesis
        proof (rule wp_mono [OF Suc.IH [OF w'(1) inv]], elim conjE exE)
          fix ended u us d o'
          assume u: "calls u = calls w' @ us" "ended \<or> n \<le> length (filter yields us)" and
            "ended \<longleftrightarrow> (\<exists>cl'. blocks (clis u) c = Some cl' \<and> \<not> cl_run cl')" "ready o' d k u"
          moreover have "calls u = calls w @ ys @ x # zs @ xs @ us" by (simp add: u(1) w'(2) x(1))
          moreover have "ended \<or> Suc n \<le> length (filter yields (ys @ x # zs @ xs @ us))"
            using u(2) x(2) by auto
          ultimately show "?Q (Suc n) w ended u" by blast
        qed
      qed
    qed
    with True show "wp (if \<not> cl_run cl then ret True else (case Suc n of 0 \<Rightarrow> ret False
        | Suc m \<Rightarrow> andthen (task_iteration E (Some c)) (task_loop m E (Some c)))) (?Q (Suc n) w) w"
      by (simp add: wp_andthen)
  qed
qed

text \<open>With a transport and automatic reconnection the loop goes on for ever.\<close>

lemma wp_loop_persists:
  assumes "ready ob cl k w" and "cl_run cl" and "cl_transport cl \<noteq> NULL" and "cfg_auto_reconnect k"
  shows "wp (task_loop n E (Some c)) (\<lambda>ended w'. \<not> ended) w"
  using assms(1-3)
proof (induction n arbitrary: w cl ob)
  case 0
  then show ?case
    by (subst run_loop, intro wp_ready_load [OF 0(1)]) (simp add: wp_ret)
next
  case (Suc n)
  have "wp (task_iteration E (Some c)) (\<lambda>_. wp (task_loop n E (Some c)) (\<lambda>ended w'. \<not> ended)) w"
  proof (rule wp_iteration [OF Suc.prems(1)])
    fix w' xs ob'
    let ?d = "fst (pass_spec E (cfg_strings k (blocks (strs w)) F_host) k (calls w) cl)"
    assume w': "ready ob' ?d k w'"
    have "cl_run ?d" "cl_transport ?d \<noteq> NULL"
      using pass_spec_run [OF Suc.prems(3) assms(4)] Suc.prems(2,3) by auto
    then show "wp (task_loop n E (Some c)) (\<lambda>ended w'. \<not> ended) w'" by (rule Suc.IH [OF w'])
  qed
  with Suc.prems(2) show ?case
    by (subst run_loop, intro wp_ready_load [OF Suc.prems(1)]) (simp add: wp_andthen)
qed

text \<open>Without automatic reconnection it ends as soon as it waits.\<close>

lemma wp_loop_gives_up:
  assumes r: "ready ob cl k w" and "cl_state cl = WEBSOCKET_STATE_WAIT_TIMEOUT"
    and "\<not> cfg_auto_reconnect k"
  shows "wp (task_loop (Suc n) E (Some c)) (\<lambda>ended w'. ended) w"
proof (cases "cl_run cl")
  case False
  then show ?thesis by (subst run_loop, intro wp_ready_load [OF r]) (simp add: wp_ret)
next
  case True
  have "wp (task_iteration E (Some c)) (\<lambda>_. wp (task_loop n E (Some c)) (\<lambda>ended w'. ended)) w"
  proof (rule wp_iteration [OF r])
    fix w' xs ob'
    assume "ready ob' (fst (pass_spec E (cfg_strings k (blocks (strs w)) F_host) k (calls w) cl)) k w'"
    then have "ready ob' (cl\<lparr>cl_run := False\<rparr>) k w'" using assms(2,3) by (simp add: pass_spec_def wait_spec_def)
    then show "wp (task_loop n E (Some c)) (\<lambda>ended w'. ended) w'"
      by (subst run_loop, intro wp_ready_load) (assumption, simp add: wp_ret)
  qed
  with True show ?thesis
    by (subst run_loop, intro wp_ready_load [OF r]) (simp add: wp_andthen)
qed

text \<open>
  The whole task, for any number of passes: it keeps the client well formed, and if it ends
  it has closed the transport, signalled \<open>STOPPED_BIT\<close> and reset the state.
\<close>

lemma wp_task_end:
  assumes r: "ready ob cl k w" and Q: "\<And>w'. ready ob (cl\<lparr>cl_state := WEBSOCKET_STATE_UNKNOW\<rparr>) k w' \<Longrightarrow>
      calls w' = calls w @ [esp_transport_close (cl_transport cl),
        xEventGroupSetBits_STOPPED (cl_status_bits cl), vTaskDelete] \<Longrightarrow> Q () w'"
  shows "wp (andthen (task_signal_stopped (Some c)) (task_exit (Some c))) Q w"
proof -
  have "wp (task_exit (Some c)) Q v" if v: "ready ob cl k v" "calls v = calls w @
      [esp_transport_close (cl_transport cl), xEventGroupSetBits_STOPPED (cl_status_bits cl)]" for v
    unfolding task_exit_def
    by (rule wp_ready_upd_then [OF v(1)], simp) (auto simp: wp_ext v(2) intro!: Q)
  then have "wp (task_signal_stopped (Some c)) (\<lambda>_. wp (task_exit (Some c)) Q) w"
    unfolding task_signal_stopped_def
    by (intro wp_ready_load [OF r]) (simp add: wp_andthen wp_ext r)
  then show ?thesis by (simp only: wp_andthen)
qed

lemma wp_task:
  assumes r: "ready ob cl k w"
  shows "wp (esp_websocket_client_task n E (Some c)) (\<lambda>ended w'. \<exists>cl' k' ob'. ready ob' cl' k' w' \<and>
    same_client cl cl' \<and> (ended \<longrightarrow> \<not> cl_run cl' \<and> cl_state cl' = WEBSOCKET_STATE_UNKNOW \<and>
      (\<exists>cs. calls w' = cs @ [esp_transport_close (cl_transport cl'),
        xEventGroupSetBits_STOPPED (cl_status_bits cl'), vTaskDelete]))) w"
    (is "wp _ ?Q w")
proof -
  obtain d k' cs where spec:
    "prologue_spec E (cfg_strings k (blocks (strs w)) F_scheme) k (calls w) cl = (d, k', cs)"
    by (metis prod_cases3)
  then have same: "same_client cl d" by (auto simp: prologue_spec_def Let_def split: if_splits)
  have fin: "wp (andthen (when_do ended (andthen (task_signal_stopped (Some c)) (task_exit (Some c))))
      (ret ended)) ?Q v"
    if v: "ready ob' e k' v" "same_client d e" "ended \<longleftrightarrow> \<not> cl_run e" for ended e ob' v
  proof (cases ended)
    case False
    with v same show ?thesis
      by (simp add: wp_andthen when_do_def wp_ret) (blast intro: same_client_trans)
  next
    case True
    have "wp (andthen (task_signal_stopped (Some c)) (task_exit (Some c))) (\<lambda>_. ?Q True) v"
      by (rule wp_task_end [OF v(1)])
        (use True v same in \<open>auto intro!: exI [of _ "e\<lparr>cl_state := WEBSOCKET_STATE_UNKNOW\<rparr>"]
          intro: same_client_trans\<close>)
    with True show ?thesis by (simp add: wp_andthen when_do_def wp_ret)
  qed
  have loop: "wp (bnd (task_loop n E (Some c)) (\<lambda>ended. andthen (when_do ended
      (andthen (task_signal_stopped (Some c)) (task_exit (Some c)))) (ret ended))) ?Q v"
    if v: "ready ob d k' v" for v
    unfolding wp_bnd by (rule wp_mono [OF wp_task_loop [OF v]]) (blast intro: fin)
  show ?thesis
    unfolding esp_websocket_client_task_def wp_andthen [of "task_prologue E (Some c)"]
    by (rule wp_prologue [OF r]) (use spec loop in auto)
qed

lemma wp_task_yields:
  assumes r: "ready ob cl k w"
  shows "wp (esp_websocket_client_task n E (Some c)) (\<lambda>ended w'.
    \<exists>xs. calls w' = calls w @ xs \<and> (ended \<or> n \<le> length (filter yields xs))) w"
    (is "wp _ ?Q w")
proof -
  obtain d k' cs where spec:
    "prologue_spec E (cfg_strings k (blocks (strs w)) F_scheme) k (calls w) cl = (d, k', cs)"
    by (metis prod_cases3)
  then have d: "loop_state (cl_state d)" "wait_set d" "\<exists>us. cs = calls w @ us"
    by (auto simp: prologue_spec_def Let_def loop_state_def wait_set_def split: if_splits)
  have loop: "wp (bnd (task_loop n E (Some c)) (\<lambda>ended. andthen (when_do ended
      (andthen (task_signal_stopped (Some c)) (task_exit (Some c)))) (ret ended))) ?Q v"
    if v: "ready ob d k' v" "calls v = cs" for v
    unfolding wp_bnd
  proof (rule wp_mono [OF wp_loop_yields [OF v(1) d(1,2)]], elim conjE exE)
    fix ended u xs o' e
    assume u: "ready o' e k' u" "calls u = calls v @ xs" "ended \<or> n \<le> length (filter yields xs)"
    from d(3) obtain us where us: "cs = calls w @ us" ..
    have "wp (andthen (task_signal_stopped (Some c)) (task_exit (Some c))) (\<lambda>_. ?Q True) u"
      by (rule wp_task_end [OF u(1)]) (simp add: u(2) v(2) us)
    then show "wp (andthen (when_do ended (andthen (task_signal_stopped (Some c)) (task_exit (Some c))))
        (ret ended)) ?Q u"
      using u(2,3) v(2) us by (cases ended) (auto simp: wp_andthen when_do_def wp_ret)
  qed
  show ?thesis
    unfolding esp_websocket_client_task_def wp_andthen [of "task_prologue E (Some c)"]
    by (rule wp_prologue [OF r]) (use spec loop in auto)
qed

end

subsection \<open>Properties\<close>

text \<open>
  The client of \<open>demo_world\<close> with a transport that reads one byte at a time and with no handler
  registered, for the witnesses.
\<close>

definition quiet_env :: "unit ws_env" where
  "quiet_env = demo_env\<lparr>r_int := (\<lambda>_ x. case x of esp_transport_read h n t \<Rightarrow> 1 | _ \<Rightarrow> demo_int x)\<rparr>"

lemma quiet_events: "ws_events quiet_env 0 (\<lambda>(_ :: unit) _. True) (\<lambda>_. id) 1"
  by unfold_locales (auto simp: read_contract_def quiet_env_def demo_env_def wp_ret)

lemma readyI: "ws_events E c I eff least \<Longrightarrow> client_live c cl k w \<Longrightarrow> I ob w \<Longrightarrow>
    ws_events.ready c I ob cl k w"
  by (simp add: ws_events.ready_def)

text \<open>Property C7. One pass of the client's task never faults, and it computes the function
  \<open>pass_spec\<close>: the client after the pass and the calls made up to the event it posts are the ones
  of the specification, the state follows an edge of the connection's state machine, and the
  client stays well formed together with the application's invariant.\<close>

theorem pass_refines:
  assumes "ws_events E c I eff least" and "client_live c cl k w" and "I ob w"
  shows "wp (task_iteration E (Some c)) (\<lambda>_ w'.
    case pass_spec E (cfg_strings k (blocks (strs w)) F_host) k (calls w) cl of (cl', cs) \<Rightarrow>
      client_live c cl' k w' \<and> strs w' = strs w \<and> (\<exists>xs. calls w' = cs @ xs) \<and>
      state_edge (cl_state cl) (cl_state cl') \<and> (\<exists>ob'. I ob' w' \<and>
        (posts_ok E \<longrightarrow> ob' = conn_obs eff (cl_state cl) (cl_state cl') ob))) w"
  by (rule ws_events.wp_iteration [OF assms(1) readyI [OF assms]])
    (use pass_spec_edge [of cl E "cfg_strings k (blocks (strs w)) F_host" k "calls w"] in
      \<open>auto simp: ws_events.ready_def [OF assms(1)] ws_events.seen_def [OF assms(1)] split: prod.split\<close>)

theorem pass_refines_witness:
  "wp (task_iteration quiet_env (Some 0)) (\<lambda>_ w'.
    case pass_spec quiet_env (cfg_strings zero_config_storage (blocks (strs demo_world)) F_host)
      zero_config_storage (calls demo_world) demo_client of (cl', cs) \<Rightarrow>
      client_live 0 cl' zero_config_storage w' \<and> strs w' = strs demo_world \<and>
      (\<exists>xs. calls w' = cs @ xs) \<and> state_edge (cl_state demo_client) (cl_state cl')) demo_world"
  by (rule wp_mono [OF pass_refines [OF quiet_events demo_live TrueI]]) (auto split: prod.split)

text \<open>Property C11. What precedes the loop never faults: it sets \<open>run\<close> exactly if the transport of the
  stored scheme exists, selects that transport, fills in its default port only where no port was
  configured, enters the state INIT and clears \<open>STOPPED_BIT\<close>.\<close>

theorem prologue_correct:
  assumes "ws_events E c I eff least" and "client_live c cl k w" and "I ob w"
  shows "wp (task_prologue E (Some c)) (\<lambda>_ w'.
    case prologue_spec E (cfg_strings k (blocks (strs w)) F_scheme) k (calls w) cl of (cl', k', cs) \<Rightarrow>
      client_live c cl' k' w' \<and> I ob w' \<and> calls w' = cs \<and> strs w' = strs w) w"
  by (rule ws_events.wp_prologue [OF assms(1) readyI [OF assms]])
    (auto simp: ws_events.ready_def [OF assms(1)] split: prod.splits)

theorem prologue_correct_witness:
  "wp (task_prologue quiet_env (Some 0)) (\<lambda>_ w'.
    case prologue_spec quiet_env (cfg_strings zero_config_storage (blocks (strs demo_world)) F_scheme)
      zero_config_storage (calls demo_world) demo_client of (cl', k', cs) \<Rightarrow>
      client_live 0 cl' k' w' \<and> True \<and> calls w' = cs \<and> strs w' = strs demo_world) demo_world"
  by (rule prologue_correct [OF quiet_events demo_live TrueI])

text \<open>Any number of passes keeps the client well formed, its fields other than those of
  the connection, its transport, and the application's invariant; the loop ends exactly when
  \<open>run\<close> is false.\<close>

theorem loop_invariant:
  assumes "ws_events E c I eff least" and "client_live c cl k w" and "I ob w"
  shows "wp (task_loop n E (Some c)) (\<lambda>ended w'. \<exists>cl' ob'. client_live c cl' k w' \<and> I ob' w' \<and>
    same_client cl cl' \<and> cl_transport cl' = cl_transport cl \<and> (ended \<longleftrightarrow> \<not> cl_run cl')) w"
  by (rule wp_mono [OF ws_events.wp_task_loop [OF assms(1) readyI [OF assms]]])
    (auto simp: ws_events.ready_def [OF assms(1)])

theorem loop_invariant_witness:
  "wp (task_loop 3 quiet_env (Some 0)) (\<lambda>ended w'. \<exists>cl'. client_live 0 cl' zero_config_storage w' \<and>
    same_client demo_client cl' \<and> cl_transport cl' = cl_transport demo_client \<and>
    (ended \<longleftrightarrow> \<not> cl_run cl')) demo_world"
  by (rule wp_mono [OF loop_invariant [OF quiet_events demo_live TrueI]]) auto

text \<open>Property C25. A running client that has a transport and reconnects automatically is never given
  up: whatever the transport answers, no number of passes ends the loop.\<close>

theorem loop_persists:
  assumes "ws_events E c I eff least" and "client_live c cl k w" and "I ob w"
    and "cl_run cl" and "cl_transport cl \<noteq> NULL" and "cfg_auto_reconnect k"
  shows "wp (task_loop n E (Some c)) (\<lambda>ended w'. \<not> ended) w"
  by (rule ws_events.wp_loop_persists [OF assms(1) readyI [OF assms(1-3)] assms(4-6)])

lemma reconnecting_live:
  "client_live 0 demo_client (zero_config_storage\<lparr>cfg_auto_reconnect := True\<rparr>)
     (demo_world\<lparr>cfgs := (cfgs demo_world)\<lparr>blocks := [0 \<mapsto> zero_config_storage\<lparr>cfg_auto_reconnect := True\<rparr>]\<rparr>\<rparr>)"
  using demo_live by (simp add: client_live_def demo_cli demo_world_def demo_client_def cfg_owned_def)

theorem loop_persists_witness:
  "wp (task_loop 5 quiet_env (Some 0)) (\<lambda>ended w'. \<not> ended)
     (demo_world\<lparr>cfgs := (cfgs demo_world)\<lparr>blocks := [0 \<mapsto> zero_config_storage\<lparr>cfg_auto_reconnect := True\<rparr>]\<rparr>\<rparr>)"
  by (rule loop_persists [OF quiet_events reconnecting_live TrueI]) (simp_all add: demo_client_def)



text \<open>Property C27. Without automatic reconnection the loop ends in the first pass after the connection
  was lost.\<close>

theorem loop_gives_up:
  assumes "ws_events E c I eff least" and "client_live c cl k w" and "I ob w"
    and "cl_state cl = WEBSOCKET_STATE_WAIT_TIMEOUT" and "\<not> cfg_auto_reconnect k"
  shows "wp (task_loop (Suc n) E (Some c)) (\<lambda>ended w'. ended) w"
  by (rule ws_events.wp_loop_gives_up [OF assms(1) readyI [OF assms(1-3)] assms(4,5)])

lemma waiting_live:
  "client_live 0 (demo_client\<lparr>cl_state := WEBSOCKET_STATE_WAIT_TIMEOUT\<rparr>) zero_config_storage
     (demo_world\<lparr>clis := (clis demo_world)\<lparr>blocks := [0 \<mapsto> demo_client\<lparr>cl_state := WEBSOCKET_STATE_WAIT_TIMEOUT\<rparr>]\<rparr>\<rparr>)"
  using demo_live by (simp add: client_live_def demo_world_def demo_client_def)

theorem loop_gives_up_witness:
  "wp (task_loop (Suc 0) quiet_env (Some 0)) (\<lambda>ended w'. ended)
     (demo_world\<lparr>clis := (clis demo_world)\<lparr>blocks := [0 \<mapsto> demo_client\<lparr>cl_state := WEBSOCKET_STATE_WAIT_TIMEOUT\<rparr>]\<rparr>\<rparr>)"
  by (rule loop_gives_up [OF quiet_events waiting_live TrueI]) (simp_all add: zero_config_storage_def)

text \<open>Property C24. The whole task, for any number of passes, never faults and keeps the client and the
  application well formed; when it ends, its last calls close the transport, signal
  \<open>STOPPED_BIT\<close> and delete the task, and the client is back in the state UNKNOWN.\<close>

theorem task_correct:
  assumes "ws_events E c I eff least" and "client_live c cl k w" and "I ob w"
  shows "wp (esp_websocket_client_task n E (Some c)) (\<lambda>ended w'. \<exists>cl' k' ob'. client_live c cl' k' w' \<and> I ob' w' \<and>
    same_client cl cl' \<and> (ended \<longrightarrow> \<not> cl_run cl' \<and> cl_state cl' = WEBSOCKET_STATE_UNKNOW \<and>
      (\<exists>cs. calls w' = cs @ [esp_transport_close (cl_transport cl'),
        xEventGroupSetBits_STOPPED (cl_status_bits cl'), vTaskDelete]))) w"
  by (rule wp_mono [OF ws_events.wp_task [OF assms(1) readyI [OF assms]]])
    (auto simp: ws_events.ready_def [OF assms(1)])

theorem task_correct_witness:
  "wp (esp_websocket_client_task 4 quiet_env (Some 0)) (\<lambda>ended w'. \<exists>cl' k'. client_live 0 cl' k' w' \<and>
    same_client demo_client cl' \<and> (if ended then cl_state cl' = WEBSOCKET_STATE_UNKNOW else True)) demo_world"
  by (rule wp_mono [OF task_correct [OF quiet_events demo_live TrueI]]) auto

end
