(* ===== verification/RTOS.thy ===== *)
theory RTOS
  imports Prelude
begin

unbundle bit_operations_syntax

text \<open>
  The FreeRTOS objects whose contents the program reads back: message queues and event
  groups. FreeRTOS is not part of the repository, so the program's definitions take the
  operations as a record (\<open>queue_ops\<close>, \<open>evgroup_ops\<close>), and what the program relies on is
  stated as the laws of a locale, one law per documented call. A bounded list and a
  machine word realise the two interfaces.
\<close>

subsection \<open>Message queues\<close>

text \<open>
  Every call of the program has block time 0, so a receive or peek on an empty queue
  and a send to a full one fail at once. A creation may fail for lack of memory.
\<close>

record ('q, 'm) queue_ops =
  xQueueCreate :: "nat \<Rightarrow> 'q option"
  uxQueueMessagesWaiting :: "'q \<Rightarrow> nat"
  xQueuePeek :: "'q \<Rightarrow> 'm option"
  xQueueReceive :: "'q \<Rightarrow> ('m \<times> 'q) option"
  xQueueReset :: "'q \<Rightarrow> 'q"
  xQueueSend :: "'m \<Rightarrow> 'q \<Rightarrow> bool \<times> 'q"

locale freertos_queue =
  fixes Q :: "('q, 'm) queue_ops"
    and items :: "'q \<Rightarrow> 'm list"
    and capacity :: "'q \<Rightarrow> nat"
  assumes create: "xQueueCreate Q n = Some q \<Longrightarrow> items q = [] \<and> capacity q = n"
    and waiting: "uxQueueMessagesWaiting Q q = length (items q)"
    and peek: "xQueuePeek Q q = (case items q of [] \<Rightarrow> None | x # _ \<Rightarrow> Some x)"
    and receive_empty: "items q = [] \<Longrightarrow> xQueueReceive Q q = None"
    and receive_some: "items q = x # xs \<Longrightarrow>
      \<exists>q'. xQueueReceive Q q = Some (x, q') \<and> items q' = xs \<and> capacity q' = capacity q"
    and reset: "items (xQueueReset Q q) = [] \<and> capacity (xQueueReset Q q) = capacity q"
    and send_ok: "length (items q) < capacity q \<Longrightarrow>
      \<exists>q'. xQueueSend Q x q = (True, q') \<and> items q' = items q @ [x] \<and> capacity q' = capacity q"
    and send_full: "\<not> length (items q) < capacity q \<Longrightarrow> xQueueSend Q x q = (False, q)"
begin

lemma receive_iff:
  "xQueueReceive Q q = Some (x, q') \<Longrightarrow> items q = x # items q' \<and> capacity q' = capacity q"
  by (cases "items q") (use receive_empty receive_some in fastforce)+

end

text \<open>A queue of depth one, the only kind the program creates.\<close>

locale mailbox_queue = freertos_queue Q items capacity
  for Q :: "('q, 'm) queue_ops" and items capacity +
  fixes unit_q :: "'q \<Rightarrow> bool"
  assumes unit_q: "unit_q q \<longleftrightarrow> capacity q = 1 \<and> length (items q) \<le> 1"
begin

lemma unit_q_cases:
  assumes "unit_q q"
  obtains (empty) "items q = []" "capacity q = 1"
    | (single) x where "items q = [x]" "capacity q = 1"
  using assms by (cases "items q") (auto simp: unit_q)

lemma unit_q_create: "xQueueCreate Q 1 = Some q \<Longrightarrow> unit_q q \<and> items q = []"
  using create [of 1 q] by (simp add: unit_q)

lemma unit_q_reset: "unit_q q \<Longrightarrow> unit_q (xQueueReset Q q)"
  using reset [of q] by (simp add: unit_q)

lemma unit_q_receive:
  "unit_q q \<Longrightarrow> xQueueReceive Q q = Some (x, q') \<Longrightarrow> unit_q q' \<and> items q' = [] \<and> items q = [x]"
  using receive_iff [of q x q'] by (auto simp: unit_q)

lemma unit_q_send:
  assumes "unit_q q" and "items q = []"
  shows "\<exists>q'. xQueueSend Q x q = (True, q') \<and> items q' = [x] \<and> unit_q q'"
  using send_ok [of q x] assms by (auto simp: unit_q)

end

text \<open>The bounded list.\<close>

record 'm list_queue =
  lq_items :: "'m list"
  lq_cap :: nat

definition list_queue_ops :: "('m list_queue, 'm) queue_ops" where
  "list_queue_ops = \<lparr>
     xQueueCreate = (\<lambda>n. Some \<lparr>lq_items = [], lq_cap = n\<rparr>),
     uxQueueMessagesWaiting = (\<lambda>q. length (lq_items q)),
     xQueuePeek = (\<lambda>q. case lq_items q of [] \<Rightarrow> None | x # _ \<Rightarrow> Some x),
     xQueueReceive = (\<lambda>q. case lq_items q of [] \<Rightarrow> None
                          | x # xs \<Rightarrow> Some (x, q\<lparr>lq_items := xs\<rparr>)),
     xQueueReset = (\<lambda>q. q\<lparr>lq_items := []\<rparr>),
     xQueueSend = (\<lambda>x q. if length (lq_items q) < lq_cap q
                         then (True, q\<lparr>lq_items := lq_items q @ [x]\<rparr>) else (False, q))\<rparr>"

definition list_queue_unit :: "'m list_queue \<Rightarrow> bool" where
  "list_queue_unit q \<longleftrightarrow> lq_cap q = 1 \<and> length (lq_items q) \<le> 1"

interpretation lq: mailbox_queue list_queue_ops lq_items lq_cap list_queue_unit
  by unfold_locales (auto simp: list_queue_ops_def list_queue_unit_def split: list.split)

subsection \<open>Event groups\<close>

type_synonym event_bits = "32 word"

record 'g evgroup_ops =
  new_event_group :: "'g option"
  xEventGroupSetBits :: "event_bits \<Rightarrow> 'g \<Rightarrow> 'g"
  xEventGroupClearBits :: "event_bits \<Rightarrow> 'g \<Rightarrow> 'g"
  xEventGroupGetBits :: "'g \<Rightarrow> event_bits"

locale freertos_events =
  fixes G :: "'g evgroup_ops"
  assumes get_new: "new_event_group G = Some g \<Longrightarrow> xEventGroupGetBits G g = 0"
    and get_set: "xEventGroupGetBits G (xEventGroupSetBits G b g) = xEventGroupGetBits G g OR b"
    and get_clear:
      "xEventGroupGetBits G (xEventGroupClearBits G b g) = xEventGroupGetBits G g AND NOT b"

definition word_events_ops :: "event_bits evgroup_ops" where
  "word_events_ops = \<lparr>
     new_event_group = Some 0,
     xEventGroupSetBits = (\<lambda>b g. g OR b),
     xEventGroupClearBits = (\<lambda>b g. g AND NOT b),
     xEventGroupGetBits = (\<lambda>g. g)\<rparr>"

interpretation we: freertos_events word_events_ops
  by unfold_locales (simp_all add: word_events_ops_def)

end
