(* ===== verification/Mailbox.thy ===== *)
theory Mailbox
  imports WsTask RTOS
begin

text \<open>
  The application's state, which extends the state of the websocket client, and the mailbox
  of \<^verbatim>\<open>include/mailbox.c\<close>: its messages, its two queues of depth one, and the function with
  which an endpoint takes the message addressed to it. The flags of the event group, which the
  station and the websocket share, are read through \<open>app_flag\<close>.
\<close>

subsection \<open>Messages and the state of the application\<close>

text \<open>The only function whose address the program stores in \<open>onRecieve\<close>.\<close>

datatype msg_callback = Fn_onMessageRecieved

record xMailboxMessage =
  onRecieve :: msg_callback
  pData :: ptr
  msg_length :: int
  messageId :: int
  messageType :: int
  endpointId :: int

definition MSG_OK :: int where "MSG_OK = 0"
definition ERR_NOT_ENOUGH_MEMORY :: int where "ERR_NOT_ENOUGH_MEMORY = 1"
definition ERR_NOT_RECIEVED :: int where "ERR_NOT_RECIEVED = 2"
definition ERR_UNSUPORTED_MESSAGE_TYPE :: int where "ERR_UNSUPORTED_MESSAGE_TYPE = 3"

lemmas mailbox_consts = MSG_OK_def ERR_NOT_ENOUGH_MEMORY_def ERR_NOT_RECIEVED_def
  ERR_UNSUPORTED_MESSAGE_TYPE_def

definition sizeof_message :: nat where "sizeof_message = 24"

text \<open>
  The globals: a handle that is NULL is \<open>None\<close>. The queues hold pointers to messages; a
  message block that was allocated and not yet written is \<open>None\<close>.
\<close>

record ('q, 'g) app_world = ws_world +
  msgs :: "xMailboxMessage option mem"
  xMailboxIncomingQueue :: "'q option"
  xMailboxOutcomingQueue :: "'q option"
  xAppStateEventGroup :: "'g option"
  xConnectionHandle :: ptr

type_synonym ('q, 'g, 'b) app_act = "(('q, 'g) app_world, 'b) act"

text \<open>The operations of FreeRTOS the application uses.\<close>

record ('q, 'g) rtos =
  queues :: "('q, ptr) queue_ops"
  groups :: "'g evgroup_ops"

subsection \<open>Access to messages and queues\<close>

definition alloc_msg :: "('q, 'g, ptr) app_act" where
  "alloc_msg = zoom msgs msgs_update (mem_alloc sizeof_message None)"

text \<open>Reading a message that was never written is a fault.\<close>

definition load_msg :: "ptr \<Rightarrow> ('q, 'g, xMailboxMessage) app_act" where
  "load_msg p = bnd (zoom msgs msgs_update (mem_load p))
     (\<lambda>x. case x of None \<Rightarrow> throw Indeterminate | Some m \<Rightarrow> ret m)"

definition store_msg :: "ptr \<Rightarrow> xMailboxMessage \<Rightarrow> ('q, 'g, unit) app_act" where
  "store_msg p m = zoom msgs msgs_update (mem_store p (Some m))"

definition free_msg :: "ptr \<Rightarrow> ('q, 'g, unit) app_act" where
  "free_msg p = zoom msgs msgs_update (mem_free p)"

text \<open>Calls on a NULL queue run into FreeRTOS's assertion.\<close>

definition incoming :: "('q, 'g, 'q) app_act" where
  "incoming = bnd (gets xMailboxIncomingQueue)
     (\<lambda>h. case h of None \<Rightarrow> throw Null_Deref | Some q \<Rightarrow> ret q)"

definition set_incoming :: "'q \<Rightarrow> ('q, 'g, unit) app_act" where
  "set_incoming q = modify (\<lambda>w. w\<lparr>xMailboxIncomingQueue := Some q\<rparr>)"

lemma wp_load_msg [wp_simps]: "wp (load_msg p) Q w =
    (\<exists>a m. p = Some a \<and> blocks (msgs w) a = Some (Some m) \<and> Q m w)"
  by (auto simp: load_msg_def wp_simps split: option.split)

lemma wp_incoming [wp_simps]: "wp incoming Q w = (\<exists>q. xMailboxIncomingQueue w = Some q \<and> Q q w)"
  by (auto simp: incoming_def wp_simps split: option.split)

lemmas msg_access_wp [wp_simps] = alloc_msg_def store_msg_def free_msg_def set_incoming_def
lemmas msg_access_run [run_simps] = alloc_msg_def load_msg_def store_msg_def free_msg_def
  set_incoming_def incoming_def

subsection \<open>The state of the connections\<close>

text \<open>The event group of \<^verbatim>\<open>include/state.h\<close>; using a NULL handle is a fault.\<close>

definition statusCONNECTED_TO_NETWORK :: event_bits where "statusCONNECTED_TO_NETWORK = 1"
definition statusCONNECTED_TO_SERVER :: event_bits where "statusCONNECTED_TO_SERVER = 2"

definition app_group :: "('q, 'g, 'g) app_act" where
  "app_group = bnd (gets xAppStateEventGroup)
     (\<lambda>h. case h of None \<Rightarrow> throw Null_Deref | Some g \<Rightarrow> ret g)"

definition set_group :: "'g \<Rightarrow> ('q, 'g, unit) app_act" where
  "set_group g = modify (\<lambda>w. w\<lparr>xAppStateEventGroup := Some g\<rparr>)"

lemma wp_app_group [wp_simps]: "wp app_group Q w = (\<exists>g. xAppStateEventGroup w = Some g \<and> Q g w)"
  by (auto simp: app_group_def wp_simps split: option.split)

lemmas group_wp [wp_simps] = set_group_def
lemmas group_run [run_simps] = set_group_def app_group_def

text \<open>The bit that \<open>statusCONNECTED_TO_NETWORK\<close> tests, and the one of the server.\<close>

lemma status_bits: "bit statusCONNECTED_TO_NETWORK i \<longleftrightarrow> i = 0" "bit statusCONNECTED_TO_SERVER i \<longleftrightarrow> i = 1"
proof -
  have two: "(2 :: event_bits) = push_bit 1 1" by simp
  show "bit statusCONNECTED_TO_NETWORK i \<longleftrightarrow> i = 0"
    by (simp add: statusCONNECTED_TO_NETWORK_def bit_1_iff)
  show "bit statusCONNECTED_TO_SERVER i \<longleftrightarrow> i = 1"
    unfolding statusCONNECTED_TO_SERVER_def two bit_push_bit_iff by (auto simp: bit_1_iff)
qed

lemma word_and_nonzero:
  fixes x :: "'a::len word"
  shows "x AND y \<noteq> 0 \<longleftrightarrow> (\<exists>i. bit x i \<and> bit y i)"
proof
  show "\<exists>i. bit x i \<and> bit y i" if "x AND y \<noteq> 0"
  proof (rule ccontr)
    assume "\<not> ?thesis"
    then have "x AND y = 0" by (intro bit_eqI) (auto simp: bit_and_iff)
    with that show False ..
  qed
  show "x AND y \<noteq> 0" if ex: "\<exists>i. bit x i \<and> bit y i"
  proof
    assume z: "x AND y = 0"
    from ex obtain i where "bit (x AND y) i" by (auto simp: bit_and_iff)
    then show False unfolding z by simp
  qed
qed

lemma and_network: "(x AND statusCONNECTED_TO_NETWORK) \<noteq> 0 \<longleftrightarrow> bit x 0"
  by (simp add: word_and_nonzero status_bits)

lemma and_server: "(x AND statusCONNECTED_TO_SERVER) \<noteq> 0 \<longleftrightarrow> bit x 1"
  by (simp add: word_and_nonzero status_bits)

text \<open>The flag number \<open>i\<close> of the event group.\<close>

definition app_flag :: "('q, 'g) rtos \<Rightarrow> nat \<Rightarrow> ('q, 'g) app_world \<Rightarrow> bool" where
  "app_flag R i w \<longleftrightarrow> (\<exists>g. xAppStateEventGroup w = Some g \<and> bit (xEventGroupGetBits (groups R) g) i)"

subsection \<open>The mailbox\<close>

definition vMailboxInit :: "('q, 'g) rtos \<Rightarrow> ('q, 'g, unit) app_act" where
  "vMailboxInit R =
     andthen (modify (\<lambda>w. w\<lparr>xMailboxIncomingQueue := xQueueCreate (queues R) 1\<rparr>))
       (modify (\<lambda>w. w\<lparr>xMailboxOutcomingQueue := xQueueCreate (queues R) 1\<rparr>))"

text \<open>
  \<open>vMailboxRecieve\<close> in two halves, between which another task can run: looking at the queue
  without taking anything, and taking the message that was seen. The handler is the
  endpoint's function; its parameter \<open>params\<close> is always NULL.
\<close>

definition mailbox_look :: "('q, 'g) rtos \<Rightarrow> ('q, 'g, ptr option) app_act" where
  "mailbox_look R = bnd incoming (\<lambda>q.
     if uxQueueMessagesWaiting (queues R) q \<noteq> 0
     then bnd incoming (\<lambda>q. ret (xQueuePeek (queues R) q))
     else ret None)"

definition mailbox_take :: "('q, 'g) rtos \<Rightarrow> int \<Rightarrow> (ptr \<Rightarrow> ('q, 'g, unit) app_act) \<Rightarrow>
  ptr option \<Rightarrow> ('q, 'g, unit) app_act" where
  "mailbox_take R endpoint handler seen = (case seen of
       None \<Rightarrow> ret ()
     | Some pMessage \<Rightarrow> bnd (load_msg pMessage) (\<lambda>m.
         when_do (endpointId m = endpoint)
           (bnd incoming (\<lambda>q.
            andthen (set_incoming (xQueueReset (queues R) q))
              (handler pMessage)))))"

definition vMailboxRecieve ::
  "('q, 'g) rtos \<Rightarrow> int \<Rightarrow> (ptr \<Rightarrow> ('q, 'g, unit) app_act) \<Rightarrow> ('q, 'g, unit) app_act" where
  "vMailboxRecieve R endpoint handler =
     bnd (mailbox_look R) (mailbox_take R endpoint handler)"

lemmas mailbox_receive_defs = vMailboxRecieve_def mailbox_look_def mailbox_take_def

subsection \<open>What a receive does\<close>

text \<open>What the application relies on: the two FreeRTOS interfaces together.\<close>

locale app_rtos = mailbox_queue "queues R" items capacity unit_q + ev: freertos_events "groups R"
  for R :: "('q, 'g) rtos" and items :: "'q \<Rightarrow> ptr list" and capacity unit_q
begin

text \<open>Both queues are empty and of depth one after the initialisation, if there was memory.\<close>

lemma wp_mailbox_init:
  assumes "xQueueCreate (queues R) 1 \<noteq> None"
  shows "wp (vMailboxInit R) (\<lambda>_ w'. \<exists>q q'. unit_q q \<and> items q = [] \<and> unit_q q' \<and> items q' = [] \<and>
    w' = w\<lparr>xMailboxIncomingQueue := Some q, xMailboxOutcomingQueue := Some q'\<rparr>) w"
proof -
  obtain q where q: "xQueueCreate (queues R) 1 = Some q" using assms by auto
  then have "unit_q q \<and> items q = []" by (rule unit_q_create)
  with q show ?thesis by (simp add: vMailboxInit_def wp_simps) blast
qed

text \<open>
  A receive calls the handler on the message at the head of the queue exactly if it is
  addressed to the endpoint, after emptying the queue; otherwise nothing changes.
\<close>

lemma wp_receive_other:
  assumes "xMailboxIncomingQueue w = Some q" and "unit_q q"
    and "items q = [] \<or> (\<exists>a m. items q = [Some a] \<and> blocks (msgs w) a = Some (Some m) \<and> endpointId m \<noteq> ep)"
    and "P () w"
  shows "wp (vMailboxRecieve R ep h) P w"
  using assms by (auto simp: mailbox_receive_defs wp_simps waiting peek split: list.split)

lemma wp_receive_match:
  assumes "xMailboxIncomingQueue w = Some q" and "unit_q q"
    and "items q = [Some a]" and "blocks (msgs w) a = Some (Some m)" and "endpointId m = ep"
    and h: "\<And>q'. unit_q q' \<Longrightarrow> items q' = [] \<Longrightarrow> wp (h (Some a)) P (w\<lparr>xMailboxIncomingQueue := Some q'\<rparr>)"
  shows "wp (vMailboxRecieve R ep h) P w"
proof -
  have "unit_q (xQueueReset (queues R) q)" "items (xQueueReset (queues R) q) = []"
    using unit_q_reset [OF assms(2)] reset by blast+
  from h [OF this] assms show ?thesis
    by (simp add: mailbox_receive_defs wp_simps waiting peek)
qed

text \<open>A message whose fields were never written makes the receive read them.\<close>

lemma receive_indeterminate:
  assumes "xMailboxIncomingQueue w = Some q"
    and "items q = [Some a]" and "blocks (msgs w) a = Some None"
  shows "vMailboxRecieve R ep h w = Inl Indeterminate"
  using assms by (simp add: mailbox_receive_defs run_simps waiting peek mem_load_def)

end

text \<open>The bounded list and the machine word provide both.\<close>

definition list_rtos :: "(ptr list_queue, event_bits) rtos" where
  "list_rtos = \<lparr>queues = list_queue_ops, groups = word_events_ops\<rparr>"

interpretation lr: app_rtos list_rtos lq_items lq_cap list_queue_unit
proof -
  have "queues list_rtos = list_queue_ops" "groups list_rtos = word_events_ops"
    by (simp_all add: list_rtos_def)
  then show "app_rtos list_rtos lq_items lq_cap list_queue_unit"
    by (simp add: app_rtos_def lq.mailbox_queue_axioms we.freertos_events_axioms)
qed

subsection \<open>Properties\<close>

text \<open>Property C12. A receive hands the endpoint's handler exactly the message that is in the mailbox, and
  only if it is addressed to that endpoint; the mailbox is emptied before the handler runs. A
  message for another endpoint stays, and nothing changes.\<close>

theorem mailbox_receive:
  assumes "app_rtos R items capacity unit_q" and "xMailboxIncomingQueue w = Some q" and "unit_q q"
    and "items q = [] \<or> items q = [Some a] \<and> blocks (msgs w) a = Some (Some m)"
  shows "vMailboxRecieve R ep h w =
     (if items q \<noteq> [] \<and> endpointId m = ep
      then h (Some a) (w\<lparr>xMailboxIncomingQueue := Some (xQueueReset (queues R) q)\<rparr>) else Inr ((), w)) \<and>
    items (xQueueReset (queues R) q) = []"
proof
  have "mailbox_queue (queues R) items capacity unit_q" using assms(1) by (simp add: app_rtos_def)
  then have fq: "freertos_queue (queues R) items capacity" by (rule mailbox_queue.axioms)
  show "items (xQueueReset (queues R) q) = []" using freertos_queue.reset [OF fq] by blast
  show "vMailboxRecieve R ep h w =
     (if items q \<noteq> [] \<and> endpointId m = ep
      then h (Some a) (w\<lparr>xMailboxIncomingQueue := Some (xQueueReset (queues R) q)\<rparr>) else Inr ((), w))"
    using assms(2,4)
    by (auto simp: mailbox_receive_defs run_simps freertos_queue.waiting [OF fq]
        freertos_queue.peek [OF fq] mem_load_def)
qed

text \<open>A world with one message, addressed to endpoint 4.\<close>

definition mail_world :: "(ptr list_queue, event_bits) app_world" where
  "mail_world = \<lparr>strs = empty_mem (\<lambda>_ _. True), cfgs = empty_mem (\<lambda>_ _. True),
     clis = empty_mem (\<lambda>_ _. True), bufs = empty_mem (\<lambda>_ _. True), calls = [],
     msgs = \<lparr>blocks = [5 \<mapsto> Some \<lparr>onRecieve = Fn_onMessageRecieved, pData = Some 2, msg_length = 1,
       messageId = 7, messageType = 2, endpointId = 4\<rparr>], next_addr = 6, plan = (\<lambda>_ _. True)\<rparr>,
     xMailboxIncomingQueue = Some \<lparr>lq_items = [Some 5], lq_cap = 1\<rparr>, xMailboxOutcomingQueue = None,
     xAppStateEventGroup = Some 0, xConnectionHandle = NULL\<rparr>"

theorem mailbox_receive_witness:
  "vMailboxRecieve list_rtos 4 (\<lambda>_. ret ()) mail_world =
     Inr ((), mail_world\<lparr>xMailboxIncomingQueue := Some \<lparr>lq_items = [], lq_cap = 1\<rparr>\<rparr>) \<and>
   vMailboxRecieve list_rtos 3 (\<lambda>_. ret ()) mail_world = Inr ((), mail_world)"
  using mailbox_receive [OF lr.app_rtos_axioms, of mail_world "\<lparr>lq_items = [Some 5], lq_cap = 1\<rparr>" 5
      "\<lparr>onRecieve = Fn_onMessageRecieved, pData = Some 2, msg_length = 1, messageId = 7, messageType = 2,
        endpointId = 4\<rparr>"]
  by (simp add: mail_world_def list_queue_unit_def list_rtos_def list_queue_ops_def ret_def)

end
