(* ===== verification/WebsocketComponent.thy ===== *)
theory WebsocketComponent
  imports Mailbox
begin

text \<open>
  \<^verbatim>\<open>components/websocket/websocket.c\<close>: the layer between the client and the communication
  task. Its event handler and its start function only log, but to do so they read the
  client's URI through its handle, so a dangling or NULL handle is a fault here.
\<close>

text \<open>The argument \<open>client->config->uri\<close> of the log messages.\<close>

definition log_uri :: "ptr \<Rightarrow> ('a, unit) ws_act" where
  "log_uri client = bnd (load_cli client) (\<lambda>c. bnd (load_cfg (cl_config c)) (\<lambda>k.
     bnd (str_arg (cfg_uri k)) (\<lambda>_. ret ())))"

definition xWebsocketEventHandler :: "ptr \<Rightarrow> esp_websocket_event_id \<Rightarrow> ('a, unit) ws_act" where
  "xWebsocketEventHandler client eventId = (case eventId of
       WEBSOCKET_EVENT_CONNECTED \<Rightarrow> log_uri client
     | WEBSOCKET_EVENT_DISCONNECTED \<Rightarrow> log_uri client
     | WEBSOCKET_EVENT_ERROR \<Rightarrow> log_uri client
     | _ \<Rightarrow> ret ())"

definition xWebsocketInitConnection ::
  "'a ws_env \<Rightarrow> esp_websocket_client_config \<Rightarrow> ('a, ptr) ws_act" where
  "xWebsocketInitConnection E conf = bnd (esp_websocket_client_init E conf) (\<lambda>client.
     bnd (esp_websocket_register_events E client WEBSOCKET_EVENT_ANY Fn_xWebsocketEventHandler client)
       (\<lambda>_. ret client))"

definition xWebsocketStart :: "'a ws_env \<Rightarrow> ptr \<Rightarrow> ('a, int) ws_act" where
  "xWebsocketStart E client = andthen (log_uri client) (esp_websocket_client_start E client)"

lemma wp_log_uri:
  assumes "client_live c cl k w" and "Q () w"
  shows "wp (log_uri (Some c)) Q w"
  using assms cfg_owned_live [of k "blocks (strs w)" F_uri]
  by (auto simp: log_uri_def client_live_def wp_simps field_get.simps split: option.split)

text \<open>The handler changes nothing.\<close>

lemma wp_ws_handler:
  assumes "client_live c cl k w" and "Q () w"
  shows "wp (xWebsocketEventHandler (Some c) ev) Q w"
  using assms by (cases ev) (simp_all add: xWebsocketEventHandler_def wp_log_uri wp_ret)

text \<open>A handle that \<open>esp_websocket_client_init\<close> could not create is not looked at before use.\<close>

lemma xWebsocketStart_null: "xWebsocketStart E NULL w = Inl Null_Deref"
  by (simp add: xWebsocketStart_def log_uri_def run_simps mem_load_def)

end
