(* ===== verification/Communication.thy ===== *)
theory Communication
  imports WebsocketComponent
begin

text \<open>
  \<^verbatim>\<open>tasks/communication/communication.task.c\<close>: the messages that arrive on the websocket become
  mailbox messages, and the answers of the endpoints go back as status messages. The
  lemmas show who owns a message at every moment, what happens to short ones, and which events
  change the flag of the server.
\<close>

subsection \<open>Header of a message\<close>

definition C11N_MESSAGE_HEADER_LENGTH :: int where "C11N_MESSAGE_HEADER_LENGTH = 3"

text \<open>
  \<open>ENDPOINT_ID\<close>, \<open>MESSAGE_ID\<close>, \<open>MESSAGE_TYPE\<close>: the byte at an index of the received data,
  converted from \<open>char\<close> to \<open>int\<close>.
\<close>

definition header_byte :: "'w env \<Rightarrow> nat \<Rightarrow> esp_websocket_event_data \<Rightarrow> ('a, int) ws_act" where
  "header_byte E i d = bnd (load_buf (data_ptr d)) (\<lambda>bs.
     if i < length bs then ret (char_to_int (char_signed E) (bs ! i)) else throw Out_Of_Bounds)"

abbreviation "ENDPOINT_ID E d \<equiv> header_byte E 0 d"
abbreviation "MESSAGE_ID E d \<equiv> header_byte E 1 d"
abbreviation "MESSAGE_TYPE E d \<equiv> header_byte E 2 d"

subsection \<open>Answers\<close>

definition sendStatus ::
  "('q, 'g) app_world env \<Rightarrow> int \<Rightarrow> int \<Rightarrow> int \<Rightarrow> ('q, 'g, unit) app_act" where
  "sendStatus E endpoint message status = bnd (gets xConnectionHandle) (\<lambda>conn.
     bnd (esp_websocket_client_send E conn
            (Some (map int_to_char [endpoint, status, message])) C11N_MESSAGE_HEADER_LENGTH 100)
       (\<lambda>_. ret ()))"

definition onMessageRecieved ::
  "('q, 'g) app_world env \<Rightarrow> ptr \<Rightarrow> int \<Rightarrow> ('q, 'g, unit) app_act" where
  "onMessageRecieved E p status = bnd (load_msg p) (\<lambda>m.
     andthen (sendStatus E (endpointId m) (messageId m) status)
    (bnd (load_msg p) (\<lambda>m.
     andthen (free_buf (pData m))
       (free_msg p))))"

text \<open>\<open>pMessage->onRecieve(pMessage, status)\<close>.\<close>

definition call_onRecieve ::
  "('q, 'g) app_world env \<Rightarrow> ptr \<Rightarrow> int \<Rightarrow> ('q, 'g, unit) app_act" where
  "call_onRecieve E p status = bnd (load_msg p) (\<lambda>m. case onRecieve m of
     Fn_onMessageRecieved \<Rightarrow> onMessageRecieved E p status)"

subsection \<open>Incoming data\<close>

text \<open>\<open>clone(src + off, n)\<close>; the length is converted to \<open>size_t\<close> by both calls.\<close>

definition clone :: "'w env \<Rightarrow> ptr \<Rightarrow> nat \<Rightarrow> int \<Rightarrow> ('a, ptr) ws_act" where
  "clone E src off n = bnd (malloc_buf E n) (\<lambda>str.
     andthen (when_do (str \<noteq> NULL) (bnd (load_buf src) (\<lambda>bs.
       if off + size_t_of_int n \<le> length bs
       then write_buf str (take (size_t_of_int n) (drop off bs)) else throw Out_Of_Bounds)))
     (ret str))"

definition parseMessage ::
  "('q, 'g) app_world env \<Rightarrow> esp_websocket_event_data \<Rightarrow> ('q, 'g, ptr) app_act" where
  "parseMessage E d = bnd alloc_msg (\<lambda>p.
     andthen (when_do (p \<noteq> NULL)
       (let dataLength = data_len d - C11N_MESSAGE_HEADER_LENGTH in
        bnd (clone E (data_ptr d) 3 dataLength) (\<lambda>pd.
          when_do (pd \<noteq> NULL)
            (bnd (ENDPOINT_ID E d) (\<lambda>ep. bnd (MESSAGE_TYPE E d) (\<lambda>ty. bnd (MESSAGE_ID E d) (\<lambda>mid.
              store_msg p \<lparr>onRecieve = Fn_onMessageRecieved, pData = pd, msg_length = dataLength,
                messageId = mid, messageType = ty, endpointId = ep\<rparr>)))))))
     (ret p))"

text \<open>The queue part of \<open>sendDataToMailboxIncoming\<close>: an unread message is answered and dropped.\<close>

definition queue_message ::
  "('q, 'g) app_world env \<Rightarrow> ('q, 'g) rtos \<Rightarrow> ptr \<Rightarrow> ('q, 'g, unit) app_act" where
  "queue_message E R p =
     andthen (bnd incoming (\<lambda>q. when_do (uxQueueMessagesWaiting (queues R) q \<noteq> 0)
       (bnd incoming (\<lambda>q. case xQueueReceive (queues R) q of
          Some (prev, q') \<Rightarrow> andthen (set_incoming q') (call_onRecieve E prev ERR_NOT_RECIEVED)
        | None \<Rightarrow> set_incoming (xQueueReset (queues R) q)))))
     (bnd incoming (\<lambda>q. set_incoming (snd (xQueueSend (queues R) p q))))"

definition sendDataToMailboxIncoming :: "('q, 'g) app_world env \<Rightarrow> ('q, 'g) rtos \<Rightarrow>
  esp_websocket_event_data \<Rightarrow> ('q, 'g, unit) app_act" where
  "sendDataToMailboxIncoming E R d = bnd (parseMessage E d) (\<lambda>p.
     if p = NULL
     then bnd (ENDPOINT_ID E d) (\<lambda>ep. bnd (MESSAGE_ID E d) (\<lambda>mid.
            sendStatus E ep mid ERR_NOT_ENOUGH_MEMORY))
     else queue_message E R p)"

subsection \<open>Events of the websocket\<close>

definition vWebsocketEventHandler :: "('q, 'g) app_world env \<Rightarrow> ('q, 'g) rtos \<Rightarrow>
  esp_websocket_event_id \<Rightarrow> esp_websocket_event_data \<Rightarrow> ('q, 'g, unit) app_act" where
  "vWebsocketEventHandler E R eventId d = (case eventId of
       WEBSOCKET_EVENT_DATA \<Rightarrow> sendDataToMailboxIncoming E R d
     | WEBSOCKET_EVENT_CONNECTED \<Rightarrow>
         bnd app_group (\<lambda>g. set_group (xEventGroupSetBits (groups R) statusCONNECTED_TO_SERVER g))
     | WEBSOCKET_EVENT_DISCONNECTED \<Rightarrow>
         bnd app_group (\<lambda>g. set_group (xEventGroupClearBits (groups R) statusCONNECTED_TO_SERVER g))
     | _ \<Rightarrow> ret ())"

text \<open>What an event makes of the flag of the server.\<close>

definition server_flag :: "esp_websocket_event_id \<Rightarrow> bool \<Rightarrow> bool" where
  "server_flag ev b = (case ev of
       WEBSOCKET_EVENT_CONNECTED \<Rightarrow> True | WEBSOCKET_EVENT_DISCONNECTED \<Rightarrow> False | _ \<Rightarrow> b)"

lemma server_flag_simps [simp]:
  "server_flag WEBSOCKET_EVENT_CONNECTED b" "\<not> server_flag WEBSOCKET_EVENT_DISCONNECTED b"
  "server_flag WEBSOCKET_EVENT_DATA b = b" "server_flag WEBSOCKET_EVENT_ANY b = b"
  "server_flag WEBSOCKET_EVENT_ERROR b = b" "server_flag WEBSOCKET_EVENT_MAX b = b"
  by (simp_all add: server_flag_def)

text \<open>
  Running the event loop of a client calls the handlers that were registered with it, in
  order; \<open>with_handlers E R hs\<close> is the environment in which they are \<open>hs\<close>.
\<close>

definition run_handler :: "('q, 'g) app_world env \<Rightarrow> ('q, 'g) rtos \<Rightarrow>
  esp_websocket_event_id \<Rightarrow> esp_websocket_event_data \<Rightarrow> event_handler_fn \<times> ptr \<Rightarrow> ('q, 'g, unit) app_act"
  where "run_handler E R ev d h = (case h of
       (Fn_xWebsocketEventHandler, arg) \<Rightarrow> xWebsocketEventHandler arg ev
     | (Fn_vWebsocketEventHandler, arg) \<Rightarrow> vWebsocketEventHandler E R ev d)"

definition with_handlers :: "('q, 'g) app_world env \<Rightarrow> ('q, 'g) rtos \<Rightarrow>
  (event_handler_fn \<times> ptr) list \<Rightarrow> ('q, 'g) app_world env" where
  "with_handlers E R hs = E\<lparr>deliver := (\<lambda>_ ev d. foldr (\<lambda>h. andthen (run_handler E R ev d h)) hs (ret ()))\<rparr>"

text \<open>The handlers the program registers on its client.\<close>

abbreviation app_handlers :: "nat \<Rightarrow> (event_handler_fn \<times> ptr) list" where
  "app_handlers c \<equiv> [(Fn_xWebsocketEventHandler, Some c), (Fn_vWebsocketEventHandler, Some c)]"

subsection \<open>Ownership of messages\<close>

text \<open>
  \<open>owns c A w\<close>: the live messages are exactly those at the addresses \<open>A\<close>, every one is
  complete and owns its data, and the live buffers are exactly the two of the client at \<open>c\<close>
  and the messages' data. So nothing is leaked and nothing is shared.
\<close>

definition client_bufs :: "nat \<Rightarrow> 'a ws_world_scheme \<Rightarrow> nat set" where
  "client_bufs c w = {b. \<exists>cl. blocks (clis w) c = Some cl \<and> (cl_tx_buffer cl = Some b \<or> cl_rx_buffer cl = Some b)}"

definition msg_data :: "('q, 'g) app_world \<Rightarrow> nat \<Rightarrow> nat" where
  "msg_data w a = the (pData (the (the (blocks (msgs w) a))))"

definition msg_ok :: "('q, 'g) app_world \<Rightarrow> nat \<Rightarrow> bool" where
  "msg_ok w a \<longleftrightarrow> (\<exists>m b bs. blocks (msgs w) a = Some (Some m) \<and> pData m = Some b \<and>
     blocks (bufs w) b = Some bs \<and> int (length bs) = msg_length m)"

definition owns :: "nat \<Rightarrow> nat set \<Rightarrow> ('q, 'g) app_world \<Rightarrow> bool" where
  "owns c A w \<longleftrightarrow> mem_ok (msgs w) \<and> mem_ok (bufs w) \<and> dom (blocks (msgs w)) = A \<and>
     (\<forall>a \<in> A. msg_ok w a) \<and> inj_on (msg_data w) A \<and> msg_data w ` A \<inter> client_bufs c w = {} \<and>
     dom (blocks (bufs w)) = client_bufs c w \<union> msg_data w ` A"

lemma msg_okE:
  assumes "msg_ok w a"
  obtains m bs where "blocks (msgs w) a = Some (Some m)" "pData m = Some (msg_data w a)"
    "blocks (bufs w) (msg_data w a) = Some bs" "int (length bs) = msg_length m"
  using assms by (auto simp: msg_ok_def msg_data_def)

lemma msg_parts_simps [simp]:
  "msg_data (w\<lparr>calls := cs\<rparr>) = msg_data w" "msg_ok (w\<lparr>calls := cs\<rparr>) = msg_ok w"
  "msg_data (w\<lparr>cfgs := h\<rparr>) = msg_data w" "msg_ok (w\<lparr>cfgs := h\<rparr>) = msg_ok w"
  "msg_data (w\<lparr>xMailboxIncomingQueue := qi\<rparr>) = msg_data w"
  "msg_ok (w\<lparr>xMailboxIncomingQueue := qi\<rparr>) = msg_ok w"
  "msg_data (w\<lparr>xAppStateEventGroup := g\<rparr>) = msg_data w"
  "msg_ok (w\<lparr>xAppStateEventGroup := g\<rparr>) = msg_ok w"
  by (simp_all add: msg_data_def msg_ok_def fun_eq_iff)

lemma client_bufs_simps [simp]:
  "client_bufs c (w\<lparr>calls := cs\<rparr>) = client_bufs c w"
  "client_bufs c (w\<lparr>cfgs := h\<rparr>) = client_bufs c w"
  "client_bufs c (w'\<lparr>xMailboxIncomingQueue := qi\<rparr>) = client_bufs c w'"
  "client_bufs c (w'\<lparr>xAppStateEventGroup := g\<rparr>) = client_bufs c w'"
  by (simp_all add: client_bufs_def)

lemma owns_calls [simp]:
  "owns c A (w\<lparr>calls := cs\<rparr>) = owns c A w"
  "owns c A (w\<lparr>cfgs := h\<rparr>) = owns c A w"
  "owns c A (w\<lparr>xMailboxIncomingQueue := qi\<rparr>) = owns c A w"
  "owns c A (w\<lparr>xAppStateEventGroup := g\<rparr>) = owns c A w"
  by (simp_all add: owns_def)

text \<open>The globals and structures a handler leaves alone.\<close>

definition app_frame :: "('q, 'g) app_world \<Rightarrow> ('q, 'g) app_world \<Rightarrow> bool" where
  "app_frame w w' \<longleftrightarrow> strs w' = strs w \<and> cfgs w' = cfgs w \<and> clis w' = clis w \<and>
     plan (bufs w') = plan (bufs w) \<and> (\<exists>xs. calls w' = calls w @ xs) \<and>
     xMailboxIncomingQueue w' = xMailboxIncomingQueue w \<and>
     xMailboxOutcomingQueue w' = xMailboxOutcomingQueue w \<and>
     xAppStateEventGroup w' = xAppStateEventGroup w \<and> xConnectionHandle w' = xConnectionHandle w"

lemma app_frame_refl [simp]: "app_frame w w"
  by (simp add: app_frame_def)

lemma app_frame_trans [trans]: "app_frame u v \<Longrightarrow> app_frame v w \<Longrightarrow> app_frame u w"
  by (auto simp: app_frame_def)

lemma app_more:
  assumes "ws_world.more w' = ws_world.more w"
  shows "msgs w' = msgs w" "xMailboxIncomingQueue w' = xMailboxIncomingQueue w"
    "xMailboxOutcomingQueue w' = xMailboxOutcomingQueue w"
    "xAppStateEventGroup w' = xAppStateEventGroup w" "xConnectionHandle w' = xConnectionHandle w"
  using assms by (cases w; cases w'; simp)+

lemma live_bufs:
  assumes "client_live c cl k w"
  obtains a bs b rs where "cl_tx_buffer cl = Some a" "cl_rx_buffer cl = Some b" "a \<noteq> b"
    "blocks (bufs w) a = Some bs" "blocks (bufs w) b = Some rs" "client_bufs c w = {a, b}"
    "length bs = nat (cl_buffer_size cl)" "length rs = nat (cl_buffer_size cl)"
proof -
  from assms obtain a bs b rs where p: "blocks (clis w) c = Some cl" "cl_tx_buffer cl = Some a"
    "cl_rx_buffer cl = Some b" "a \<noteq> b" "blocks (bufs w) a = Some bs" "blocks (bufs w) b = Some rs"
    "length bs = nat (cl_buffer_size cl)" "length rs = nat (cl_buffer_size cl)"
    unfolding client_live_def by blast
  then have "client_bufs c w = {a, b}" by (auto simp: client_bufs_def)
  from that [OF p(2-6) this p(7,8)] show thesis .
qed

text \<open>Sending touches no message.\<close>

lemma owns_tx_frame:
  assumes o: "owns c A w" and live: "client_live c cl k w" "client_live c cl k w'"
    and f: "tx_frame cl w w'"
  shows "owns c A w'"
proof -
  from live(1) obtain a bs b rs where l: "cl_tx_buffer cl = Some a" "cl_rx_buffer cl = Some b"
    "a \<noteq> b" "blocks (bufs w) a = Some bs" "client_bufs c w = {a, b}"
    by (rule live_bufs)
  obtain bs' where a': "blocks (bufs w') a = Some bs'"
    by (rule live_bufs [OF live(2)]) (simp add: l(1))
  have m: "msgs w' = msgs w" using f by (intro app_more(1)) (simp add: tx_frame_def)
  have other: "blocks (bufs w') x = blocks (bufs w) x" if "x \<noteq> a" for x
    using f l(1) that by (simp add: tx_frame_def)
  have data: "msg_data w' = msg_data w" by (simp add: msg_data_def fun_eq_iff m)
  have cb: "client_bufs c w' = client_bufs c w"
    using f by (simp add: client_bufs_def tx_frame_def)
  have "dom (blocks (bufs w')) = dom (blocks (bufs w))"
  proof (rule set_eqI)
    show "x \<in> dom (blocks (bufs w')) \<longleftrightarrow> x \<in> dom (blocks (bufs w))" for x
      unfolding domIff using other [of x] a' l(4) by (cases "x = a") simp_all
  qed
  moreover have "msg_ok w' x" if "x \<in> A" for x
  proof -
    have ok: "msg_ok w x" and ne: "msg_data w x \<noteq> a"
      using o that l(5) by (auto simp: owns_def)
    from ok show ?thesis
      by (rule msg_okE) (use other [OF ne] in \<open>auto simp: msg_ok_def m\<close>)
  qed
  moreover have "mem_ok (bufs w')"
    unfolding mem_ok_def
  proof (intro allI impI)
    fix x assume x: "next_addr (bufs w') \<le> x"
    then have "blocks (bufs w) x = None" using o f by (simp add: owns_def mem_ok_def tx_frame_def)
    with l(4) other [of x] show "blocks (bufs w') x = None" by (cases "x = a") simp_all
  qed
  ultimately show ?thesis
    using o by (simp add: owns_def data cb m)
qed

subsection \<open>Answering\<close>

text \<open>What holds while a message is handled: the client is live and the handle is its own.\<close>

definition linked :: "nat \<Rightarrow> esp_websocket_client \<Rightarrow> websocket_config_storage \<Rightarrow>
  ('q, 'g) app_world \<Rightarrow> bool" where
  "linked c cl k w \<longleftrightarrow> client_live c cl k w \<and> xConnectionHandle w = Some c"

lemma wp_sendStatus:
  assumes E: "write_contract E" and l: "linked c cl k w" and o: "owns c A w"
    and Q: "\<And>w'. linked c cl k w' \<Longrightarrow> owns c A w' \<Longrightarrow> app_frame w w' \<Longrightarrow> msgs w' = msgs w \<Longrightarrow>
      tx_frame cl w w' \<Longrightarrow> Q () w'"
  shows "wp (sendStatus E ep mid st) Q w"
proof -
  let ?data = "map int_to_char [ep, st, mid]"
  have live: "client_live c cl k w" and conn: "xConnectionHandle w = Some c"
    using l by (simp_all add: linked_def)
  have "wp (esp_websocket_client_send E (Some c) (Some ?data) C11N_MESSAGE_HEADER_LENGTH 100)
      (\<lambda>r w'. tx_frame cl w w' \<and> client_live c cl k w' \<and> (\<exists>xs. calls w' = calls w @ xs)) w"
    by (rule wp_send_total [OF E live]) (simp_all add: C11N_MESSAGE_HEADER_LENGTH_def)
  then have "wp (esp_websocket_client_send E (Some c) (Some ?data) C11N_MESSAGE_HEADER_LENGTH 100)
      (\<lambda>_. Q ()) w"
  proof (rule wp_mono, elim conjE)
    fix w' assume f: "tx_frame cl w w'" and live': "client_live c cl k w'" and "\<exists>xs. calls w' = calls w @ xs"
    moreover have "ws_world.more w' = ws_world.more w" using f by (simp add: tx_frame_def)
    note app_more [OF this]
    ultimately show "Q () w'"
      using conn owns_tx_frame [OF o live live' f]
      by (intro Q) (auto simp: linked_def app_frame_def tx_frame_def)
  qed
  then show ?thesis by (simp add: sendStatus_def wp_simps conn)
qed

lemma owns_free:
  assumes o: "owns c A w" and a: "a \<in> A"
    and w': "w' = w\<lparr>bufs := (bufs w)\<lparr>blocks := (blocks (bufs w))(msg_data w a := None)\<rparr>,
      msgs := (msgs w)\<lparr>blocks := (blocks (msgs w))(a := None)\<rparr>\<rparr>"
  shows "owns c (A - {a}) w'"
proof -
  have data: "msg_data w' x = msg_data w x" if "x \<in> A - {a}" for x
    using that by (simp add: msg_data_def w')
  have cb: "client_bufs c w' = client_bufs c w" by (simp add: client_bufs_def w')
  have inj: "inj_on (msg_data w) A" using o by (simp add: owns_def)
  have img: "msg_data w ` (A - {a}) = msg_data w ` A - {msg_data w a}"
    using inj a by (simp add: inj_on_image_set_diff [OF inj])
  have img': "msg_data w' ` (A - {a}) = msg_data w ` (A - {a})"
    using data by (rule image_cong [OF refl])
  have not_cb: "msg_data w a \<notin> client_bufs c w" using o a by (auto simp: owns_def)
  have "msg_ok w' x" if x: "x \<in> A - {a}" for x
  proof -
    have "msg_ok w x" using o x by (simp add: owns_def)
    moreover have "msg_data w x \<noteq> msg_data w a" using inj x a by (auto dest: inj_onD)
    ultimately show ?thesis using x by (elim msg_okE) (simp add: msg_ok_def w')
  qed
  moreover have "inj_on (msg_data w') (A - {a})"
    using inj data by (simp add: inj_on_def)
  moreover have "mem_ok (msgs w')" "mem_ok (bufs w')" using o by (auto simp: owns_def mem_ok_def w')
  moreover have "dom (blocks (msgs w')) = A - {a}" using o by (simp add: owns_def w')
  moreover have "dom (blocks (bufs w')) = client_bufs c w \<union> msg_data w ` (A - {a})"
    using o not_cb by (auto simp: owns_def w' img)
  moreover have "msg_data w ` (A - {a}) \<inter> client_bufs c w = {}" using o by (auto simp: owns_def)
  ultimately show ?thesis by (simp add: owns_def img' cb)
qed

text \<open>The client stays live while its own buffers are untouched.\<close>

lemma client_live_cong:
  assumes live: "client_live c cl k w" and "clis w' = clis w" "cfgs w' = cfgs w" "strs w' = strs w"
    and b: "\<And>b. b \<in> client_bufs c w \<Longrightarrow> blocks (bufs w') b = blocks (bufs w) b"
  shows "client_live c cl k w'"
proof -
  from live obtain a bs b' rs where l: "cl_tx_buffer cl = Some a" "cl_rx_buffer cl = Some b'"
    "client_bufs c w = {a, b'}"
    by (rule live_bufs)
  then have "blocks (bufs w') a = blocks (bufs w) a" "blocks (bufs w') b' = blocks (bufs w) b'"
    using b by simp_all
  with live assms(2-4) l(1,2) show ?thesis by (simp add: client_live_def)
qed

lemma linked_free:
  assumes "linked c cl k w" and "b \<notin> client_bufs c w"
  shows "linked c cl k (w\<lparr>bufs := (bufs w)\<lparr>blocks := (blocks (bufs w))(b := None)\<rparr>, msgs := h\<rparr>)"
  using assms by (auto simp: linked_def elim: client_live_cong)

text \<open>The messages at \<open>A\<close> and their data are as before.\<close>

definition kept :: "nat set \<Rightarrow> ('q, 'g) app_world \<Rightarrow> ('q, 'g) app_world \<Rightarrow> bool" where
  "kept A w w' \<longleftrightarrow> (\<forall>x \<in> A. blocks (msgs w') x = blocks (msgs w) x \<and>
     blocks (bufs w') (msg_data w x) = blocks (bufs w) (msg_data w x))"

lemma kept_refl [simp]: "kept A w w"
  by (simp add: kept_def)

lemma kept_trans: "kept A u v \<Longrightarrow> kept A v w \<Longrightarrow> kept A u w"
  by (simp add: kept_def msg_data_def)

lemma kept_tx:
  assumes "owns c A w" and "client_live c cl k w" and "tx_frame cl w w'"
  shows "kept A w w'"
proof -
  have "msgs w' = msgs w" using assms(3) by (intro app_more(1)) (simp add: tx_frame_def)
  moreover have "Some (msg_data w x) \<noteq> cl_tx_buffer cl" if x: "x \<in> A" for x
  proof -
    have "msg_data w x \<notin> client_bufs c w" using assms(1) x by (auto simp: owns_def)
    moreover have "blocks (clis w) c = Some cl" using assms(2) by (simp add: client_live_def)
    ultimately show ?thesis by (auto simp: client_bufs_def)
  qed
  ultimately show ?thesis using assms(3) by (simp add: kept_def tx_frame_def)
qed

lemma kept_free:
  assumes "owns c A w" and "a \<in> A"
  shows "kept (A - {a}) w (w\<lparr>bufs := (bufs w)\<lparr>blocks := (blocks (bufs w))(msg_data w a := None)\<rparr>,
      msgs := (msgs w)\<lparr>blocks := (blocks (msgs w))(a := None)\<rparr>\<rparr>)"
  using assms by (auto simp: kept_def owns_def dest: inj_onD)

text \<open>
  \<open>onMessageRecieved\<close> answers once and frees the message and its data exactly once.
\<close>

lemma wp_onMessageRecieved:
  assumes E: "write_contract E" and l: "linked c cl k w" and o: "owns c A w" and a: "a \<in> A"
    and Q: "\<And>w'. linked c cl k w' \<Longrightarrow> owns c (A - {a}) w' \<Longrightarrow> app_frame w w' \<Longrightarrow>
      kept (A - {a}) w w' \<Longrightarrow> Q () w'"
  shows "wp (onMessageRecieved E (Some a) st) Q w"
proof -
  have ok: "msg_ok w a" using o a by (simp add: owns_def)
  then obtain m bs where m: "blocks (msgs w) a = Some (Some m)" "pData m = Some (msg_data w a)"
    "blocks (bufs w) (msg_data w a) = Some bs"
    by (rule msg_okE)
  have "wp (sendStatus E (endpointId m) (messageId m) st)
    (\<lambda>_. wp (bnd (load_msg (Some a)) (\<lambda>m. andthen (free_buf (pData m)) (free_msg (Some a)))) Q) w"
  proof (rule wp_sendStatus [OF E l o])
    fix v assume v: "linked c cl k v" "owns c A v" "app_frame w v" "msgs v = msgs w" "tx_frame cl w v"
    have ok': "msg_ok v a" using v(2) a by (simp add: owns_def)
    have data: "msg_data v a = msg_data w a" by (simp add: msg_data_def v(4))
    from ok' obtain bs' where b: "blocks (bufs v) (msg_data v a) = Some bs'"
      by (rule msg_okE)
    let ?v = "v\<lparr>bufs := (bufs v)\<lparr>blocks := (blocks (bufs v))(msg_data v a := None)\<rparr>,
      msgs := (msgs v)\<lparr>blocks := (blocks (msgs v))(a := None)\<rparr>\<rparr>"
    have cb: "msg_data v a \<notin> client_bufs c v" using v(2) a by (auto simp: owns_def)
    have "Q () ?v"
    proof (rule Q)
      show "linked c cl k ?v" by (rule linked_free [OF v(1) cb])
      show "owns c (A - {a}) ?v" by (rule owns_free [OF v(2) a refl])
      show "app_frame w ?v" using v(3) by (simp add: app_frame_def)
      have "kept (A - {a}) w v"
        using kept_tx [OF o _ v(5)] l by (auto simp: linked_def kept_def)
      then show "kept (A - {a}) w ?v" by (rule kept_trans) (rule kept_free [OF v(2) a])
    qed
    then show "wp (bnd (load_msg (Some a)) (\<lambda>m. andthen (free_buf (pData m)) (free_msg (Some a)))) Q v"
      using m(1,2) b by (simp add: wp_simps v(4) data)
  qed
  with m(1) show ?thesis by (simp add: onMessageRecieved_def wp_bnd wp_andthen wp_load_msg)
qed

lemma wp_call_onRecieve:
  assumes "write_contract E" and "linked c cl k w" and "owns c A w" and "a \<in> A"
    and "\<And>w'. linked c cl k w' \<Longrightarrow> owns c (A - {a}) w' \<Longrightarrow> app_frame w w' \<Longrightarrow>
      kept (A - {a}) w w' \<Longrightarrow> Q () w'"
  shows "wp (call_onRecieve E (Some a) st) Q w"
proof -
  have "msg_ok w a" using assms(3,4) by (simp add: owns_def)
  then obtain m where m: "blocks (msgs w) a = Some (Some m)" by (rule msg_okE)
  have "wp (case onRecieve m of Fn_onMessageRecieved \<Rightarrow> onMessageRecieved E (Some a) st) Q w"
    using assms by (cases "onRecieve m") (auto intro!: wp_onMessageRecieved)
  with m show ?thesis by (simp add: call_onRecieve_def wp_bnd wp_load_msg)
qed

subsection \<open>Parsing\<close>

text \<open>
  There is always memory for the body of a message, and none for a negative length. Whether
  \<open>malloc(0)\<close> returns NULL, as it does in ESP-IDF, is left open.
\<close>

definition heap_room :: "'a ws_world_scheme \<Rightarrow> bool" where
  "heap_room w \<longleftrightarrow> (\<forall>k n. 0 < n \<longrightarrow> (plan (bufs w) k n \<longleftrightarrow> n < 2 ^ 31))"

lemma wp_clone:
  assumes rs: "blocks (bufs w) r = Some rs" and ok: "mem_ok (bufs w)" and room: "heap_room w"
    and n: "0 < n" "int off + n \<le> int (length rs)" "n < 2 ^ 31"
    and Q: "\<And>b. b = next_addr (bufs w) \<Longrightarrow> Q (Some b) (w\<lparr>bufs := (bufs w)\<lparr>next_addr := Suc b,
      blocks := (blocks (bufs w))(b \<mapsto> take (nat n) (drop off rs))\<rparr>\<rparr>)"
  shows "wp (clone E (Some r) off n) Q w"
proof -
  let ?b = "next_addr (bufs w)"
  have size: "size_t_of_int n = nat n" using n by (intro size_t_of_int_nonneg) auto
  have ne: "r \<noteq> ?b" using rs mem_ok_fresh [OF ok] by auto
  have plan: "plan (bufs w) ?b (nat n)" using room n by (simp add: heap_room_def)
  have fit: "off + nat n \<le> length rs" using n by linarith
  have "wp (bnd (load_buf (Some r)) (\<lambda>bs. if off + size_t_of_int n \<le> length bs
       then write_buf (Some ?b) (take (size_t_of_int n) (drop off bs)) else throw Out_Of_Bounds))
     (\<lambda>_. Q (Some ?b)) (w\<lparr>bufs := (bufs w)\<lparr>
       blocks := (blocks (bufs w))(?b \<mapsto> map (junk E) [0..<nat n]), next_addr := Suc ?b\<rparr>\<rparr>)"
    using Q [OF refl] rs ne fit by (simp add: wp_simps size)
  then show ?thesis
    unfolding clone_def
    by (simp add: wp_bnd wp_andthen wp_ret wp_when_do malloc_buf_def wp_zoom wp_mem_alloc plan size)
qed

text \<open>The message that received bytes stand for.\<close>

definition decoded :: "'w env \<Rightarrow> byte list \<Rightarrow> int \<Rightarrow> nat \<Rightarrow> xMailboxMessage" where
  "decoded E rs len b = \<lparr>onRecieve = Fn_onMessageRecieved, pData = Some b, msg_length = len - 3,
     messageId = char_to_int (char_signed E) (rs ! 1),
     messageType = char_to_int (char_signed E) (rs ! 2),
     endpointId = char_to_int (char_signed E) (rs ! 0)\<rparr>"

lemma owns_new:
  assumes o: "owns c A w" and a: "a = next_addr (msgs w)" and b: "b = next_addr (bufs w)"
    and m: "pData m = Some b" "int (length bs) = msg_length m"
    and w': "w' = w\<lparr>bufs := (bufs w)\<lparr>next_addr := Suc b, blocks := (blocks (bufs w))(b \<mapsto> bs)\<rparr>,
      msgs := (msgs w)\<lparr>next_addr := Suc a, blocks := (blocks (msgs w))(a \<mapsto> Some m)\<rparr>\<rparr>"
  shows "owns c (insert a A) w'" and "a \<notin> A"
proof -
  have fresh: "blocks (msgs w) a = None" "blocks (bufs w) b = None"
    using o a b by (auto simp: owns_def mem_ok_fresh)
  show na: "a \<notin> A" using o fresh(1) unfolding owns_def by (metis domIff)
  have nb: "b \<notin> client_bufs c w \<union> msg_data w ` A"
    using o fresh(2) unfolding owns_def by (metis domIff)
  have data: "msg_data w' x = (if x = a then b else msg_data w x)" for x
    by (simp add: msg_data_def w' m)
  have img: "msg_data w' ` insert a A = insert b (msg_data w ` A)"
    using na by (auto simp: data image_iff)
  have cb: "client_bufs c w' = client_bufs c w" by (simp add: client_bufs_def w')
  have "msg_ok w' x" if x: "x \<in> insert a A" for x
  proof (cases "x = a")
    case True
    then show ?thesis using m by (simp add: msg_ok_def w')
  next
    case False
    with x o have "msg_ok w x" "msg_data w x \<noteq> b" using nb by (auto simp: owns_def)
    with False show ?thesis by (elim msg_okE) (simp add: msg_ok_def w')
  qed
  moreover have "inj_on (msg_data w') (insert a A)"
    using o na nb by (auto simp: owns_def inj_on_def data)
  moreover have "mem_ok (msgs w')" "mem_ok (bufs w')"
    using o a b by (simp_all add: owns_def mem_ok_def w')
  moreover have "dom (blocks (msgs w')) = insert a A" "dom (blocks (bufs w')) = insert b (dom (blocks (bufs w)))"
    using o by (simp_all add: owns_def w')
  moreover have "insert b (msg_data w ` A) \<inter> client_bufs c w = {}"
    "insert b (dom (blocks (bufs w))) = client_bufs c w \<union> insert b (msg_data w ` A)"
    using o nb by (auto simp: owns_def)
  ultimately show "owns c (insert a A) w'"
    unfolding owns_def img cb by simp
qed

text \<open>A message with a body is decoded into a block of its own, or there was no memory.\<close>

lemma wp_parseMessage:
  assumes l: "linked c cl k w" and o: "owns c A w" and room: "heap_room w"
    and d: "data_ptr d = cl_rx_buffer cl" "4 \<le> data_len d" "data_len d \<le> cl_buffer_size cl"
    and rs: "cl_rx_buffer cl = Some r" "blocks (bufs w) r = Some rs"
    and N: "\<And>w'. linked c cl k w' \<Longrightarrow> owns c A w' \<Longrightarrow> app_frame w w' \<Longrightarrow> bufs w' = bufs w \<Longrightarrow>
      blocks (msgs w') = blocks (msgs w) \<Longrightarrow> \<not> plan (msgs w) (next_addr (msgs w)) sizeof_message \<Longrightarrow>
      Q NULL w'"
    and S: "\<And>a b w'. linked c cl k w' \<Longrightarrow> owns c (insert a A) w' \<Longrightarrow> a \<notin> A \<Longrightarrow> app_frame w w' \<Longrightarrow>
      blocks (msgs w') a = Some (Some (decoded E rs (data_len d) b)) \<Longrightarrow>
      blocks (bufs w') b = Some (take (nat (data_len d - 3)) (drop 3 rs)) \<Longrightarrow>
      plan (msgs w) (next_addr (msgs w)) sizeof_message \<Longrightarrow> Q (Some a) w'"
  shows "wp (parseMessage E d) Q w"
proof -
  let ?a = "next_addr (msgs w)" and ?b = "next_addr (bufs w)" and ?n = "data_len d - 3"
  have live: "client_live c cl k w" using l by (simp add: linked_def)
  then have len: "int (length rs) = cl_buffer_size cl" "cl_buffer_size cl < 2 ^ 31"
    using rs by (auto simp: client_live_def)
  have okm: "mem_ok (msgs w)" and okb: "mem_ok (bufs w)" using o by (simp_all add: owns_def)
  let ?wN = "w\<lparr>msgs := (msgs w)\<lparr>next_addr := Suc ?a\<rparr>\<rparr>"
  have "Q NULL ?wN" if "\<not> plan (msgs w) ?a sizeof_message"
  proof (rule N)
    show "linked c cl k ?wN" using l by (auto simp: linked_def elim: client_live_cong)
    show "owns c A ?wN"
      using o mem_ok_fail [OF okm] by (auto simp: owns_def msg_ok_def msg_data_def inj_on_def client_bufs_def)
  qed (simp_all add: app_frame_def that)
  moreover have "wp (let dataLength = ?n in bnd (clone E (data_ptr d) 3 dataLength) (\<lambda>pd.
          when_do (pd \<noteq> NULL)
            (bnd (ENDPOINT_ID E d) (\<lambda>ep. bnd (MESSAGE_TYPE E d) (\<lambda>ty. bnd (MESSAGE_ID E d) (\<lambda>mid.
              store_msg (Some ?a) \<lparr>onRecieve = Fn_onMessageRecieved, pData = pd, msg_length = dataLength,
                messageId = mid, messageType = ty, endpointId = ep\<rparr>)))))) (\<lambda>_. Q (Some ?a))
       (w\<lparr>msgs := (msgs w)\<lparr>blocks := (blocks (msgs w))(?a \<mapsto> None), next_addr := Suc ?a\<rparr>\<rparr>)"
    (is "wp ?m _ ?w1") if mem: "plan (msgs w) ?a sizeof_message"
  proof -
    let ?bs = "take (nat ?n) (drop 3 rs)"
    let ?m = "decoded E rs (data_len d) ?b"
    let ?w2 = "w\<lparr>bufs := (bufs w)\<lparr>next_addr := Suc ?b, blocks := (blocks (bufs w))(?b \<mapsto> ?bs)\<rparr>,
      msgs := (msgs w)\<lparr>next_addr := Suc ?a, blocks := (blocks (msgs w))(?a \<mapsto> Some ?m)\<rparr>\<rparr>"
    have in_range: "rs \<noteq> []" "1 < length rs" "2 < length rs" using d len by auto
    have m: "pData ?m = Some ?b" "int (length ?bs) = msg_length ?m"
      using d(2,3) len by (simp_all add: decoded_def)
    have ne: "r \<noteq> ?b" using rs(2) mem_ok_fresh [OF okb] by auto
    note new = owns_new [OF o refl refl m refl]
    have cb: "?b \<notin> client_bufs c w"
    proof -
      from live obtain x bs y bs' where "client_bufs c w = {x, y}" "blocks (bufs w) x = Some bs"
        "blocks (bufs w) y = Some bs'"
        by (rule live_bufs)
      then show ?thesis using mem_ok_fresh [OF okb] by auto
    qed
    have "Q (Some ?a) ?w2"
    proof (rule S [where b = ?b, OF _ new])
      show "linked c cl k ?w2"
        using l cb by (auto simp: linked_def elim!: client_live_cong)
    qed (simp_all add: app_frame_def mem)
    then have bytes: "wp (bnd (ENDPOINT_ID E d) (\<lambda>ep. bnd (MESSAGE_TYPE E d) (\<lambda>ty. bnd (MESSAGE_ID E d) (\<lambda>mid.
              store_msg (Some ?a) \<lparr>onRecieve = Fn_onMessageRecieved, pData = Some ?b, msg_length = ?n,
                messageId = mid, messageType = ty, endpointId = ep\<rparr>)))) (\<lambda>_. Q (Some ?a))
       (?w1\<lparr>bufs := (bufs w)\<lparr>next_addr := Suc ?b, blocks := (blocks (bufs w))(?b \<mapsto> ?bs)\<rparr>\<rparr>)"
      using d rs ne in_range by (simp add: header_byte_def wp_simps decoded_def)
    show ?thesis
      unfolding Let_def wp_bnd [of "clone _ _ _ _"] d(1) rs(1)
      by (rule wp_clone [of _ r rs])
        (use bytes rs okb room d len in \<open>simp_all add: heap_room_def wp_when_do d(1)\<close>)
  qed
  ultimately show ?thesis
    unfolding parseMessage_def C11N_MESSAGE_HEADER_LENGTH_def by (simp add: wp_simps)
qed

subsection \<open>The invariant of the application\<close>

definition app_inv :: "('q \<Rightarrow> ptr list) \<Rightarrow> ('q \<Rightarrow> bool) \<Rightarrow> nat \<Rightarrow> ('q, 'g) app_world \<Rightarrow> bool" where
  "app_inv items unit_q c w \<longleftrightarrow> xConnectionHandle w = Some c \<and> heap_room w \<and>
     xAppStateEventGroup w \<noteq> None \<and>
     (\<exists>q. xMailboxIncomingQueue w = Some q \<and> unit_q q \<and> NULL \<notin> set (items q) \<and>
        owns c {a. Some a \<in> set (items q)} w)"

text \<open>Together with the flag of the server.\<close>

definition app_state :: "('q, 'g) rtos \<Rightarrow> ('q \<Rightarrow> ptr list) \<Rightarrow> ('q \<Rightarrow> bool) \<Rightarrow> nat \<Rightarrow> bool \<Rightarrow>
  ('q, 'g) app_world \<Rightarrow> bool" where
  "app_state R items unit_q c b w \<longleftrightarrow> app_inv items unit_q c w \<and> app_flag R 1 w = b"

lemma app_invI:
  assumes "xConnectionHandle w = Some c" and "heap_room w" and "xAppStateEventGroup w \<noteq> None"
    and "xMailboxIncomingQueue w = Some q" and "unit_q q" and "NULL \<notin> set (items q)"
    and "owns c {a. Some a \<in> set (items q)} w"
  shows "app_inv items unit_q c w"
  using assms by (simp add: app_inv_def)

lemma app_inv_calls [simp]: "app_inv items unit_q c (w\<lparr>calls := cs\<rparr>) = app_inv items unit_q c w"
  by (simp add: app_inv_def heap_room_def)

lemma app_frame_room: "app_frame w w' \<Longrightarrow> heap_room w' = heap_room w"
  by (simp add: app_frame_def heap_room_def)

context app_rtos
begin

lemma wp_queue_message:
  assumes E: "write_contract E" and l: "linked c cl k w"
    and q: "xMailboxIncomingQueue w = Some q" "unit_q q" "NULL \<notin> set (items q)"
    and A: "A = {x. Some x \<in> set (items q)}" and o: "owns c (insert a A) w" and a: "a \<notin> A"
    and Q: "\<And>w' q'. linked c cl k w' \<Longrightarrow> owns c {a} w' \<Longrightarrow> xMailboxIncomingQueue w' = Some q' \<Longrightarrow>
      unit_q q' \<Longrightarrow> items q' = [Some a] \<Longrightarrow> app_frame w (w'\<lparr>xMailboxIncomingQueue := Some q\<rparr>) \<Longrightarrow>
      kept {a} w w' \<Longrightarrow> Q () w'"
  shows "wp (queue_message E R (Some a)) Q w"
proof -
  let ?send = "bnd incoming (\<lambda>q. set_incoming (snd (xQueueSend (queues R) (Some a) q)))"
  have send: "wp ?send Q v"
    if v: "linked c cl k v" "owns c {a} v" "xMailboxIncomingQueue v = Some p" "unit_q p" "items p = []"
      "app_frame w (v\<lparr>xMailboxIncomingQueue := Some q\<rparr>)" "kept {a} w v" for v p
  proof -
    from unit_q_send [OF v(4,5), of "Some a"] obtain p' where p': "xQueueSend (queues R) (Some a) p = (True, p')"
      "items p' = [Some a]" "unit_q p'" by blast
    have "Q () (v\<lparr>xMailboxIncomingQueue := Some p'\<rparr>)"
      by (rule Q [of _ p']) (use v p' in \<open>auto simp: linked_def client_live_def kept_def\<close>)
    with v(3) p'(1) show ?thesis by (simp add: wp_simps)
  qed
  let ?evict = "\<lambda>q. case xQueueReceive (queues R) q of
      Some (prev, q') \<Rightarrow> andthen (set_incoming q') (call_onRecieve E prev ERR_NOT_RECIEVED)
    | None \<Rightarrow> set_incoming (xQueueReset (queues R) q)"
  have evict: "wp (?evict q) (\<lambda>_. wp ?send Q) w" if ne: "items q \<noteq> []"
  proof -
    obtain prev where it: "items q = [prev]"
      by (rule unit_q_cases [OF q(2)]) (use ne that in auto)
    obtain q' where r: "xQueueReceive (queues R) q = Some (prev, q')" and q': "items q' = []"
      using receive_some [OF it] by blast
    have u': "unit_q q'" using unit_q_receive [OF q(2) r] by simp
    obtain b where b: "prev = Some b" using q(3) it by (cases prev) auto
    have A': "A = {b}" using A it b by auto
    let ?v = "w\<lparr>xMailboxIncomingQueue := Some q'\<rparr>"
    have "wp (call_onRecieve E (Some b) ERR_NOT_RECIEVED) (\<lambda>_. wp ?send Q) ?v"
    proof (rule wp_call_onRecieve [OF E])
      show "linked c cl k ?v" using l by (simp add: linked_def client_live_def)
      show "owns c {b, a} ?v" using o A' by (simp add: insert_commute)
    next
      fix v
      assume v: "linked c cl k v" "owns c ({b, a} - {b}) v" "app_frame ?v v" "kept ({b, a} - {b}) ?v v"
      have ab: "{b, a} - {b} = {a}" using a A' by auto
      show "wp ?send Q v"
        by (rule send [of _ q'])
          (use v q' u' q(1) in \<open>auto simp: ab app_frame_def kept_def\<close>)
    qed simp
    with r b show ?thesis by (simp add: wp_simps)
  qed
  have none: "wp ?send Q w" if "items q = []"
    using that q l o A by (intro send [of _ q]) (auto simp: app_frame_def)
  show ?thesis
    unfolding queue_message_def wp_andthen
    using q(1) evict none by (simp add: wp_bnd wp_incoming wp_when_do waiting)
qed

text \<open>
  Incoming data: the queue then holds exactly the new message, or there was no memory for it,
  the peer was told so and the queue is as before.
\<close>

lemma wp_sendData:
  assumes E: "write_contract E" and l: "linked c cl k w" and inv: "app_inv items unit_q c w"
    and d: "data_ptr d = cl_rx_buffer cl" "4 \<le> data_len d" "data_len d \<le> cl_buffer_size cl"
    and rs: "cl_rx_buffer cl = Some r" "blocks (bufs w) r = Some rs"
    and Q: "\<And>w'. linked c cl k w' \<Longrightarrow> app_inv items unit_q c w' \<Longrightarrow>
      app_frame w (w'\<lparr>xMailboxIncomingQueue := xMailboxIncomingQueue w\<rparr>) \<Longrightarrow>
      \<not> plan (msgs w) (next_addr (msgs w)) sizeof_message \<and>
        xMailboxIncomingQueue w' = xMailboxIncomingQueue w \<and> blocks (msgs w') = blocks (msgs w) \<or>
      plan (msgs w) (next_addr (msgs w)) sizeof_message \<and>
      (\<exists>q a b. xMailboxIncomingQueue w' = Some q \<and> items q = [Some a] \<and> blocks (msgs w) a = None \<and>
         blocks (msgs w') a = Some (Some (decoded E rs (data_len d) b)) \<and>
         blocks (bufs w') b = Some (take (nat (data_len d - 3)) (drop 3 rs))) \<Longrightarrow> Q () w'"
  shows "wp (sendDataToMailboxIncoming E R d) Q w"
proof -
  from inv obtain q where q: "xMailboxIncomingQueue w = Some q" "unit_q q" "NULL \<notin> set (items q)"
    and o: "owns c {a. Some a \<in> set (items q)} w" and room: "heap_room w"
    and rest: "xConnectionHandle w = Some c" "xAppStateEventGroup w \<noteq> None"
    by (auto simp: app_inv_def)
  have live: "client_live c cl k w" using l by (simp add: linked_def)
  have len: "int (length rs) = cl_buffer_size cl" using live rs by (auto simp: client_live_def)
  then have in_range: "rs \<noteq> []" "1 < length rs" using d by auto
  show ?thesis
    unfolding sendDataToMailboxIncoming_def wp_bnd [of "parseMessage E d"]
  proof (rule wp_parseMessage [OF l o room d rs])
    fix v assume v: "linked c cl k v" "owns c {a. Some a \<in> set (items q)} v" "app_frame w v" "bufs v = bufs w"
      "blocks (msgs v) = blocks (msgs w)" "\<not> plan (msgs w) (next_addr (msgs w)) sizeof_message"
    have "wp (sendStatus E ep mid ERR_NOT_ENOUGH_MEMORY) Q v" for ep mid
    proof (rule wp_sendStatus [OF E v(1,2)])
      fix u assume u: "linked c cl k u" "owns c {a. Some a \<in> set (items q)} u" "app_frame v u" "msgs u = msgs v"
      have f: "app_frame w u" using v(3) u(3) by (rule app_frame_trans)
      show "Q () u"
      proof (rule Q [OF u(1)])
        show "app_inv items unit_q c u"
          using f q rest u(2) room app_frame_room [OF f] by (intro app_invI) (auto simp: app_frame_def)
      qed (use f u(4) v(5,6) in \<open>auto simp: app_frame_def\<close>)
    qed
    then show "wp (if NULL = NULL then bnd (ENDPOINT_ID E d) (\<lambda>ep. bnd (MESSAGE_ID E d) (\<lambda>mid.
        sendStatus E ep mid ERR_NOT_ENOUGH_MEMORY)) else queue_message E R NULL) Q v"
      using d(1) rs v(4) in_range by (simp add: header_byte_def wp_bnd wp_loads wp_ret)
  next
    fix a b v
    assume v: "linked c cl k v" "owns c (insert a {a. Some a \<in> set (items q)}) v"
      "a \<notin> {a. Some a \<in> set (items q)}" "app_frame w v"
      "blocks (msgs v) a = Some (Some (decoded E rs (data_len d) b))"
      "blocks (bufs v) b = Some (take (nat (data_len d - 3)) (drop 3 rs))"
      "plan (msgs w) (next_addr (msgs w)) sizeof_message"
    have data: "msg_data v a = b" by (simp add: msg_data_def v(5) decoded_def)
    have new: "blocks (msgs w) a = None" using v(3) o by (auto simp: owns_def)
    have qv: "xMailboxIncomingQueue v = Some q" using v(4) q(1) by (simp add: app_frame_def)
    have "wp (queue_message E R (Some a)) Q v"
    proof (rule wp_queue_message [OF E v(1) qv q(2,3) refl v(2,3)])
      fix u q'
      assume u: "linked c cl k u" "owns c {a} u" "xMailboxIncomingQueue u = Some q'" "unit_q q'"
        "items q' = [Some a]" "app_frame v (u\<lparr>xMailboxIncomingQueue := Some q\<rparr>)" "kept {a} v u"
      have f: "app_frame w (u\<lparr>xMailboxIncomingQueue := Some q\<rparr>)" using v(4) u(6) by (rule app_frame_trans)
      show "Q () u"
      proof (rule Q [OF u(1)])
        show "app_inv items unit_q c u"
          using f rest room app_frame_room [OF f] u
          by (intro app_invI [of _ _ q']) (auto simp: app_frame_def heap_room_def)
        have "blocks (msgs u) a = blocks (msgs v) a" "blocks (bufs u) b = blocks (bufs v) b"
          using u(7) data by (auto simp: kept_def)
        with u v new show "\<not> plan (msgs w) (next_addr (msgs w)) sizeof_message \<and>
            xMailboxIncomingQueue u = xMailboxIncomingQueue w \<and> blocks (msgs u) = blocks (msgs w) \<or>
          plan (msgs w) (next_addr (msgs w)) sizeof_message \<and>
          (\<exists>q a b. xMailboxIncomingQueue u = Some q \<and> items q = [Some a] \<and> blocks (msgs w) a = None \<and>
             blocks (msgs u) a = Some (Some (decoded E rs (data_len d) b)) \<and>
             blocks (bufs u) b = Some (take (nat (data_len d - 3)) (drop 3 rs)))" by auto
      qed (use f q(1) in simp)
    qed
    then show "wp (if Some a = NULL then bnd (ENDPOINT_ID E d) (\<lambda>ep. bnd (MESSAGE_ID E d) (\<lambda>mid.
        sendStatus E ep mid ERR_NOT_ENOUGH_MEMORY)) else queue_message E R (Some a)) Q v" by simp
  qed
qed

text \<open>Every event keeps the invariant, and the client; the flag of the server follows the events.\<close>

lemma wp_vWebsocketEventHandler:
  assumes E: "write_contract E" and live: "client_live c cl k w" and inv: "app_inv items unit_q c w"
    and d: "ev = WEBSOCKET_EVENT_DATA \<longrightarrow> data_ptr d = cl_rx_buffer cl \<and> 4 \<le> data_len d \<and>
      data_len d \<le> cl_buffer_size cl"
  shows "wp (vWebsocketEventHandler E R ev d) (\<lambda>_ w'. client_live c cl k w' \<and> app_inv items unit_q c w' \<and>
    app_flag R 1 w' = server_flag ev (app_flag R 1 w) \<and> strs w' = strs w \<and> (\<exists>xs. calls w' = calls w @ xs)) w"
proof (cases "ev = WEBSOCKET_EVENT_DATA")
  case True
  have l: "linked c cl k w" using live inv by (simp add: linked_def app_inv_def)
  from live obtain r rs where rs: "cl_rx_buffer cl = Some r" "blocks (bufs w) r = Some rs"
    by (rule live_bufs)
  have "wp (sendDataToMailboxIncoming E R d) (\<lambda>_ w'. client_live c cl k w' \<and> app_inv items unit_q c w' \<and>
    app_flag R 1 w' = server_flag ev (app_flag R 1 w) \<and> strs w' = strs w \<and> (\<exists>xs. calls w' = calls w @ xs)) w"
    by (rule wp_sendData [OF E l inv _ _ _ rs])
      (use True d in \<open>auto simp: linked_def app_frame_def app_flag_def\<close>)
  with True show ?thesis by (simp add: vWebsocketEventHandler_def)
next
  case False
  from inv obtain g where g: "xAppStateEventGroup w = Some g" by (auto simp: app_inv_def)
  have "client_live c cl k (w\<lparr>xAppStateEventGroup := Some h\<rparr>) \<and>
      app_inv items unit_q c (w\<lparr>xAppStateEventGroup := Some h\<rparr>)" for h
    using live inv by (simp add: client_live_def app_inv_def heap_room_def)
  with False g live inv show ?thesis
    by (cases ev) (simp_all add: vWebsocketEventHandler_def wp_simps app_flag_def ev.get_set
        ev.get_clear bit_or_iff bit_and_iff bit_not_iff status_bits)
qed

lemma owns_client_cong:
  assumes o: "owns c A w" and "msgs w' = msgs w" and "client_bufs c w' = client_bufs c w"
    and "mem_ok (bufs w')" and "dom (blocks (bufs w')) = dom (blocks (bufs w))"
    and b: "\<And>b. b \<notin> client_bufs c w \<Longrightarrow> blocks (bufs w') b = blocks (bufs w) b"
  shows "owns c A w'"
proof -
  have data: "msg_data w' = msg_data w" using assms(2) by (simp add: msg_data_def fun_eq_iff)
  have "msg_ok w' x" if x: "x \<in> A" for x
  proof -
    have "msg_ok w x" "msg_data w x \<notin> client_bufs c w" using o x by (auto simp: owns_def)
    then show ?thesis using b assms(2) by (elim msg_okE) (simp add: msg_ok_def)
  qed
  with assms(1-5) data show ?thesis by (simp add: owns_def)
qed

lemma app_ws_events:
  assumes E: "write_contract E" "read_contract 4 E"
  shows "ws_events (with_handlers E R (app_handlers c)) c (app_state R items unit_q c) server_flag 4"
proof
  show "read_contract 4 (with_handlers E R (app_handlers c))"
    using E(2) by (simp add: read_contract_def with_handlers_def)
  show "app_state R items unit_q c b (w\<lparr>calls := cs\<rparr>) = app_state R items unit_q c b w"
    and "app_state R items unit_q c b (w\<lparr>cfgs := h\<rparr>) = app_state R items unit_q c b w" for b w cs h
    by (simp_all add: app_state_def app_inv_def heap_room_def app_flag_def)
  show "server_flag WEBSOCKET_EVENT_DATA b = b" for b by simp
  show "app_state R items unit_q c b (w\<lparr>clis := (clis w)\<lparr>blocks := (blocks (clis w))(c \<mapsto> cl')\<rparr>\<rparr>)"
    if "client_live c cl k w" "same_client cl cl'" "app_state R items unit_q c b w" for cl k w cl' b
  proof -
    let ?w = "w\<lparr>clis := (clis w)\<lparr>blocks := (blocks (clis w))(c \<mapsto> cl')\<rparr>\<rparr>"
    have cb: "client_bufs c ?w = client_bufs c w"
      using that(1,2) by (auto simp: client_bufs_def client_live_def same_client_def)
    from that(3) obtain q where "xMailboxIncomingQueue w = Some q" "unit_q q" "NULL \<notin> set (items q)"
      "owns c {a. Some a \<in> set (items q)} w"
      by (auto simp: app_state_def app_inv_def)
    with that(3) cb owns_client_cong [of c _ w ?w] have "app_inv items unit_q c ?w"
      by (intro app_invI [of _ _ q]) (auto simp: app_state_def app_inv_def heap_room_def owns_def)
    with that(3) show ?thesis by (simp add: app_state_def app_flag_def)
  qed
  show "app_state R items unit_q c f (w\<lparr>bufs := (bufs w)\<lparr>blocks := (blocks (bufs w))(b \<mapsto> bs)\<rparr>\<rparr>)"
    if "client_live c cl k w" "cl_rx_buffer cl = Some b" "app_state R items unit_q c f w"
      "length bs = nat (cl_buffer_size cl)" for cl k w b bs f
  proof -
    let ?w = "w\<lparr>bufs := (bufs w)\<lparr>blocks := (blocks (bufs w))(b \<mapsto> bs)\<rparr>\<rparr>"
    note live = that(1) and rx = that(2)
    obtain x old where l: "client_bufs c w = {x, b}" "blocks (bufs w) b = Some old"
      by (rule live_bufs [OF live]) (use rx that in auto)
    from that(3) obtain q where q: "xMailboxIncomingQueue w = Some q" "unit_q q" "NULL \<notin> set (items q)"
      "owns c {a. Some a \<in> set (items q)} w"
      by (auto simp: app_state_def app_inv_def)
    have "owns c {a. Some a \<in> set (items q)} ?w"
    proof (rule owns_client_cong [OF q(4)])
      show "mem_ok (bufs ?w)" using q(4) l(2) mem_ok_upd [of "bufs w" b] by (simp add: owns_def)
      show "blocks (bufs ?w) z = blocks (bufs w) z" if "z \<notin> client_bufs c w" for z
        using that l(1) by auto
    qed (use l(2) in \<open>auto simp: client_bufs_def\<close>)
    with q that(3) have "app_inv items unit_q c ?w"
      by (intro app_invI [of _ _ q]) (auto simp: app_state_def app_inv_def heap_room_def)
    with that(3) show ?thesis by (simp add: app_state_def app_flag_def)
  qed
  show "wp (deliver (with_handlers E R (app_handlers c)) (cl_event_handle cl) ev d)
      (\<lambda>_ w'. client_live c cl k w' \<and> app_state R items unit_q c (server_flag ev b) w' \<and>
        strs w' = strs w \<and> (\<exists>xs. calls w' = calls w @ xs)) w"
    if "client_live c cl k w" "app_state R items unit_q c b w"
      "ev = WEBSOCKET_EVENT_DATA \<longrightarrow> data_ptr d = cl_rx_buffer cl \<and> 0 < data_len d \<and>
        4 \<le> data_len d \<and> data_len d \<le> cl_buffer_size cl" for cl k w ev d b
  proof -
    have "app_inv items unit_q c w" "app_flag R 1 w = b" using that(2) by (simp_all add: app_state_def)
    then have "wp (vWebsocketEventHandler E R ev d) (\<lambda>_ w'. client_live c cl k w' \<and>
        app_state R items unit_q c (server_flag ev b) w' \<and> strs w' = strs w \<and>
        (\<exists>xs. calls w' = calls w @ xs)) w"
      by (intro wp_mono [OF wp_vWebsocketEventHandler [OF E(1) that(1)]])
        (use that(3) in \<open>auto simp: app_state_def\<close>)
    then show ?thesis
      by (simp add: with_handlers_def run_handler_def wp_andthen wp_ws_handler [OF that(1)] wp_ret)
  qed
qed

end

text \<open>
  The interface of the client's task holds for the program's own handlers, in every
  environment whose transport keeps its contract. \<open>disciplined n E\<close> is \<open>E\<close> with a transport
  made to keep it, which delivers no message of fewer than \<open>n\<close> bytes.
\<close>

definition disciplined :: "int \<Rightarrow> 'w env \<Rightarrow> 'w env" where
  "disciplined m E = E\<lparr>
     r_int := (\<lambda>cs x. case x of
         esp_transport_write h bs t \<Rightarrow> min (r_int E cs x) (int (length bs))
       | esp_transport_read h n t \<Rightarrow>
           (if 0 < r_int E cs x \<and> r_int E cs x < m \<or> n < r_int E cs x then - 1 else r_int E cs x)
       | _ \<Rightarrow> r_int E cs x),
     r_bytes := (\<lambda>cs x. case x of
         esp_transport_read h n t \<Rightarrow> take (nat n) (r_bytes E cs x) | _ \<Rightarrow> r_bytes E cs x)\<rparr>"

lemma disciplined_contract: "write_contract (disciplined m E)" "read_contract m (disciplined m E)"
  by (auto simp: write_contract_def read_contract_def disciplined_def)

interpretation app: ws_events "with_handlers (disciplined 4 E) list_rtos (app_handlers c)" c
    "app_state list_rtos lq_items list_queue_unit c" server_flag 4
  for E :: "(ptr list_queue, event_bits) app_world env" and c
  by (rule lr.app_ws_events [OF disciplined_contract])

subsection \<open>A concrete application\<close>

text \<open>
  The client of \<open>demo_world\<close> in an application with one message in the queue: type \<open>ty\<close> for
  endpoint \<open>ep\<close>, with the body \<open>body\<close>.
\<close>

definition demo_message :: "int \<Rightarrow> int \<Rightarrow> byte list \<Rightarrow> xMailboxMessage" where
  "demo_message ep ty body = \<lparr>onRecieve = Fn_onMessageRecieved, pData = Some 2,
     msg_length = int (length body), messageId = 7, messageType = ty, endpointId = ep\<rparr>"

definition demo_app :: "int \<Rightarrow> int \<Rightarrow> byte list \<Rightarrow> (ptr list_queue, event_bits) app_world" where
  "demo_app ep ty body = \<lparr>strs = strs demo_world, cfgs = cfgs demo_world, clis = clis demo_world,
     bufs = \<lparr>blocks = [0 \<mapsto> [1, 7, 2, 9], 1 \<mapsto> [0, 0, 0, 0], 2 \<mapsto> body], next_addr = 3,
       plan = (\<lambda>_ n. n < 2 ^ 31)\<rparr>,
     calls = [],
     msgs = \<lparr>blocks = [0 \<mapsto> Some (demo_message ep ty body)], next_addr = 1, plan = (\<lambda>_ _. True)\<rparr>,
     xMailboxIncomingQueue = Some \<lparr>lq_items = [Some 0], lq_cap = 1\<rparr>,
     xMailboxOutcomingQueue = Some \<lparr>lq_items = [], lq_cap = 1\<rparr>,
     xAppStateEventGroup = Some 3, xConnectionHandle = Some 0\<rparr>"

lemma demo_app_parts:
  "clis (demo_app ep ty body) = clis demo_world"
  "blocks (bufs (demo_app ep ty body)) = [0 \<mapsto> [1, 7, 2, 9], 1 \<mapsto> [0, 0, 0, 0], 2 \<mapsto> body]"
  "blocks (msgs (demo_app ep ty body)) = [0 \<mapsto> Some (demo_message ep ty body)]"
  "xMailboxIncomingQueue (demo_app ep ty body) = Some \<lparr>lq_items = [Some 0], lq_cap = 1\<rparr>"
  "xAppStateEventGroup (demo_app ep ty body) = Some 3"
  by (simp_all add: demo_app_def)

lemma demo_app_linked: "linked 0 demo_client zero_config_storage (demo_app ep ty body)"
  using demo_live by (simp add: linked_def client_live_def demo_app_def demo_world_def demo_client_def)

lemma demo_app_owns: "owns 0 {0} (demo_app ep ty body)"
  by (auto simp: owns_def msg_ok_def msg_data_def client_bufs_def demo_app_def demo_message_def
      demo_world_def demo_client_def mem_ok_def)

lemma demo_app_inv: "app_inv lq_items list_queue_unit 0 (demo_app ep ty body)"
proof (rule app_invI)
  show "xMailboxIncomingQueue (demo_app ep ty body) = Some \<lparr>lq_items = [Some 0], lq_cap = 1\<rparr>"
    by (rule demo_app_parts)
  show "owns 0 {a. Some a \<in> set (lq_items \<lparr>lq_items = [Some 0], lq_cap = 1\<rparr>)} (demo_app ep ty body)"
    using demo_app_owns by simp
qed (simp_all add: demo_app_def heap_room_def list_queue_unit_def)

text \<open>An application's environment in which every call succeeds.\<close>

definition app_env :: "(ptr list_queue, event_bits) app_world env" where
  "app_env = \<lparr>r_int = (\<lambda>_. demo_int), r_ptr = (\<lambda>cs _. Some (length cs)),
     r_bytes = (\<lambda>_ _. []), http_parser_parse_url = http_parser_parse_url demo_env,
     asprintf_null = True, junk = (\<lambda>_. 0), deliver = (\<lambda>_ _ _. ret ()), char_signed = False\<rparr>"

lemma app_env_write: "write_contract app_env"
  using demo_write by (simp add: write_contract_def app_env_def demo_env_def)

subsection \<open>Properties\<close>

text \<open>Property C13. Answering a message never faults, sends through the live client, and frees the
  message and its data exactly once: afterwards the application owns what it owned before,
  less this message, and every other message is untouched.\<close>

theorem answer_frees_once:
  assumes "write_contract E" and "linked c cl k w" and "owns c A w" and "a \<in> A"
  shows "wp (onMessageRecieved E (Some a) status) (\<lambda>_ w'. linked c cl k w' \<and> owns c (A - {a}) w' \<and>
    blocks (msgs w') a = None \<and> kept (A - {a}) w w' \<and> app_frame w w') w"
proof (rule wp_onMessageRecieved [OF assms])
  fix w'
  assume w': "linked c cl k w'" "owns c (A - {a}) w'" "app_frame w w'" "kept (A - {a}) w w'"
  have "dom (blocks (msgs w')) = A - {a}" using w'(2) by (simp add: owns_def)
  then have "blocks (msgs w') a = None" by (metis Diff_iff domIff singletonI)
  with w' show "linked c cl k w' \<and> owns c (A - {a}) w' \<and> blocks (msgs w') a = None \<and>
      kept (A - {a}) w w' \<and> app_frame w w'" by simp
qed

theorem answer_frees_once_witness:
  "wp (onMessageRecieved app_env (Some 0) 3) (\<lambda>_ w'. linked 0 demo_client zero_config_storage w' \<and>
    owns 0 ({0} - {0}) w' \<and> blocks (msgs w') 0 = None \<and> kept ({0} - {0}) (demo_app 1 2 [5, 6]) w' \<and>
    app_frame (demo_app 1 2 [5, 6]) w') (demo_app 1 2 [5, 6])"
  by (rule answer_frees_once [OF app_env_write demo_app_linked demo_app_owns]) simp

text \<open>Property C9. What a peer encodes is what the endpoint gets: received bytes that start with endpoint,
  message id and type, followed by a body of at least a byte, are parsed into a message with these fields, whose
  data is a copy of the body, in blocks of its own.\<close>

definition encode :: "int \<Rightarrow> int \<Rightarrow> int \<Rightarrow> byte list \<Rightarrow> byte list" where
  "encode endpoint message type body = map int_to_char [endpoint, message, type] @ body"

lemma char_to_int_int_to_char:
  assumes "if sc then - 128 \<le> i \<and> i < 128 else 0 \<le> i \<and> i < 256"
  shows "char_to_int sc (int_to_char i) = i"
proof (cases sc)
  case True
  then have "signed_take_bit 7 i = i" using assms by (intro signed_take_bit_int_eq_self) auto
  with True show ?thesis by (simp add: char_to_int_def int_to_char_def signed_of_int)
next
  case False
  with assms show ?thesis by (simp add: char_to_int_def int_to_char_def uint_word_of_int)
qed

theorem parse_encode:
  assumes "linked c cl k w" and "owns c A w" and "heap_room w"
    and "plan (msgs w) (next_addr (msgs w)) sizeof_message"
    and "data_ptr d = cl_rx_buffer cl" and "data_len d = int (length (encode ep mid ty body))"
    and "data_len d \<le> cl_buffer_size cl"
    and "cl_rx_buffer cl = Some r" and "blocks (bufs w) r = Some (encode ep mid ty body @ rest)"
    and "\<forall>i \<in> {ep, mid, ty}. if char_signed E then - 128 \<le> i \<and> i < 128 else 0 \<le> i \<and> i < 256"
    and "body \<noteq> []"
  shows "wp (parseMessage E d) (\<lambda>p w'. \<exists>a b. p = Some a \<and> a \<notin> A \<and> owns c (insert a A) w' \<and>
    blocks (bufs w') b = Some body \<and> blocks (msgs w') a = Some (Some \<lparr>onRecieve = Fn_onMessageRecieved,
      pData = Some b, msg_length = int (length body), messageId = mid, messageType = ty, endpointId = ep\<rparr>)) w"
proof (rule wp_parseMessage [OF assms(1-3,5) _ assms(7-9)])
  show "4 \<le> data_len d" using assms(6,11) by (cases body) (simp_all add: encode_def)
next
  fix w' assume "\<not> plan (msgs w) (next_addr (msgs w)) sizeof_message"
  with assms(4) show "\<exists>a b. NULL = Some a \<and> a \<notin> A \<and> owns c (insert a A) w' \<and>
    blocks (bufs w') b = Some body \<and> blocks (msgs w') a = Some (Some \<lparr>onRecieve = Fn_onMessageRecieved,
      pData = Some b, msg_length = int (length body), messageId = mid, messageType = ty, endpointId = ep\<rparr>)"
    by blast
next
  fix a b w'
  assume w': "owns c (insert a A) w'" "a \<notin> A"
    "blocks (msgs w') a = Some (Some (decoded E (encode ep mid ty body @ rest) (data_len d) b))"
    "blocks (bufs w') b = Some (take (nat (data_len d - 3)) (drop 3 (encode ep mid ty body @ rest)))"
  have "take (nat (data_len d - 3)) (drop 3 (encode ep mid ty body @ rest)) = body"
    using assms(6) by (simp add: encode_def)
  moreover have "decoded E (encode ep mid ty body @ rest) (data_len d) b = \<lparr>onRecieve = Fn_onMessageRecieved,
      pData = Some b, msg_length = int (length body), messageId = mid, messageType = ty, endpointId = ep\<rparr>"
    using assms(6,10) by (simp add: decoded_def encode_def char_to_int_int_to_char)
  ultimately show "\<exists>a' b. Some a = Some a' \<and> a' \<notin> A \<and> owns c (insert a' A) w' \<and>
    blocks (bufs w') b = Some body \<and> blocks (msgs w') a' = Some (Some \<lparr>onRecieve = Fn_onMessageRecieved,
      pData = Some b, msg_length = int (length body), messageId = mid, messageType = ty, endpointId = ep\<rparr>)"
    using w' by auto
qed

theorem parse_encode_witness:
  "wp (parseMessage app_env \<lparr>data_ptr = Some 0, data_len = 4\<rparr>) (\<lambda>p w'. \<exists>a b. p = Some a \<and> a \<notin> {0} \<and>
    owns 0 (insert a {0}) w' \<and> blocks (bufs w') b = Some [9] \<and>
    blocks (msgs w') a = Some (Some \<lparr>onRecieve = Fn_onMessageRecieved, pData = Some b,
      msg_length = int (length [9 :: byte]), messageId = 7, messageType = 2, endpointId = 1\<rparr>)) (demo_app 1 2 [5, 6])"
  by (rule parse_encode [OF demo_app_linked demo_app_owns, where r = 0 and rest = "[]"])
    (simp_all add: demo_app_def heap_room_def demo_client_def encode_def int_to_char_def app_env_def)



end
