(* ===== verification/Gpio.thy ===== *)
theory Gpio
  imports Communication
begin

text \<open>
  \<^verbatim>\<open>tasks/endpoints/gpio/gpio.c\<close>: the endpoint that sets pins. What a mailbox message obliges
  its handler to do is the contract \<open>endpoint\<close>; under it a receive keeps the invariant of
  the application. The lemmas show that the GPIO handler meets the contract, which calls it
  makes for each type of message, and what a message with a one-byte body does to it.
\<close>

subsection \<open>The endpoint\<close>

definition GPIO_ENDPOINT_ID :: int where "GPIO_ENDPOINT_ID = 1"
definition GPIO_SET_INPUT :: int where "GPIO_SET_INPUT = 1"
definition GPIO_SET_HIGH :: int where "GPIO_SET_HIGH = 2"
definition GPIO_SET_LOW :: int where "GPIO_SET_LOW = 3"
definition GPIO_GET_STATE :: int where "GPIO_GET_STATE = 4"
definition GPIO_RESET :: int where "GPIO_RESET = 5"

lemmas gpio_consts = GPIO_ENDPOINT_ID_def GPIO_SET_INPUT_def GPIO_SET_HIGH_def GPIO_SET_LOW_def
  GPIO_GET_STATE_def GPIO_RESET_def

definition writeLevel :: "int \<Rightarrow> int \<Rightarrow> ('a, unit) ws_act" where
  "writeLevel pin level =
     andthen (ext_do (gpio_reset_pin pin))
    (andthen (ext_do (gpio_pad_select_gpio pin))
    (andthen (ext_do (gpio_set_direction_output pin))
      (ext_do (gpio_set_level pin level))))"

text \<open>The byte at an index of the message's data; \<open>GPIO_NUMBER\<close> is the first.\<close>

definition data_byte :: "'w env \<Rightarrow> ptr \<Rightarrow> nat \<Rightarrow> ('a, int) ws_act" where
  "data_byte E p i = bnd (load_buf p) (\<lambda>bs.
     if i < length bs then ret (char_to_int (char_signed E) (bs ! i)) else throw Out_Of_Bounds)"

text \<open>The first log message prints the first two bytes of the data.\<close>

definition vMessageHandler :: "('q, 'g) app_world env \<Rightarrow> ptr \<Rightarrow> ('q, 'g, unit) app_act" where
  "vMessageHandler E pMessage = bnd (load_msg pMessage) (\<lambda>m.
     bnd (data_byte E (pData m) 0) (\<lambda>_. bnd (data_byte E (pData m) 1) (\<lambda>_.
       if messageType m = GPIO_SET_INPUT then
         bnd (data_byte E (pData m) 0) (\<lambda>_. call_onRecieve E pMessage MSG_OK)
       else if messageType m = GPIO_SET_HIGH then
         bnd (data_byte E (pData m) 0) (\<lambda>pin.
           andthen (writeLevel pin 1) (call_onRecieve E pMessage MSG_OK))
       else if messageType m = GPIO_SET_LOW then
         bnd (data_byte E (pData m) 0) (\<lambda>pin.
           andthen (writeLevel pin 0) (call_onRecieve E pMessage MSG_OK))
       else if messageType m = GPIO_RESET then
         bnd (data_byte E (pData m) 0) (\<lambda>_. call_onRecieve E pMessage MSG_OK)
       else call_onRecieve E pMessage ERR_UNSUPORTED_MESSAGE_TYPE)))"

text \<open>One pass of the endpoint's loop.\<close>

definition gpio_pass :: "('q, 'g) app_world env \<Rightarrow> ('q, 'g) rtos \<Rightarrow> ('q, 'g, unit) app_act" where
  "gpio_pass E R = andthen (vMailboxRecieve R GPIO_ENDPOINT_ID (vMessageHandler E))
     (ext_do (vTaskDelay 1))"

subsection \<open>The contract of an endpoint\<close>

text \<open>
  The handler \<open>h\<close> of the endpoint \<open>ep\<close> consumes the message it is given, if the message is
  acceptable (\<open>acc\<close>): it frees it and its data and nothing else, and keeps the client.
\<close>

locale endpoint = app_rtos R items capacity unit_q
  for R :: "('q, 'g) rtos" and items :: "'q \<Rightarrow> ptr list" and capacity unit_q +
  fixes c :: nat and ep :: int and acc :: "xMailboxMessage \<Rightarrow> bool"
    and h :: "ptr \<Rightarrow> ('q, 'g, unit) app_act"
  assumes consumes: "linked c cl k w \<Longrightarrow> owns c {a} w \<Longrightarrow> blocks (msgs w) a = Some (Some m) \<Longrightarrow>
      endpointId m = ep \<Longrightarrow> acc m \<Longrightarrow>
      wp (h (Some a)) (\<lambda>_ w'. linked c cl k w' \<and> owns c {} w' \<and> app_frame w w') w"
begin

text \<open>Every message in the queue that is addressed to the endpoint is acceptable.\<close>

definition acceptable :: "('q, 'g) app_world \<Rightarrow> bool" where
  "acceptable w \<longleftrightarrow> (\<forall>q a m. xMailboxIncomingQueue w = Some q \<longrightarrow> Some a \<in> set (items q) \<longrightarrow>
     blocks (msgs w) a = Some (Some m) \<longrightarrow> endpointId m = ep \<longrightarrow> acc m)"

lemma wp_endpoint_receive:
  assumes live: "client_live c cl k w" and inv: "app_inv items unit_q c w" and acc: "acceptable w"
  shows "wp (vMailboxRecieve R ep h) (\<lambda>_ w'. client_live c cl k w' \<and> app_inv items unit_q c w' \<and>
    acceptable w' \<and> strs w' = strs w \<and> cfgs w' = cfgs w \<and> clis w' = clis w \<and>
    xAppStateEventGroup w' = xAppStateEventGroup w) w"
    (is "wp _ ?Q w")
proof -
  from inv obtain q where q: "xMailboxIncomingQueue w = Some q" "unit_q q" "NULL \<notin> set (items q)"
    "owns c {a. Some a \<in> set (items q)} w" and room: "heap_room w" "xConnectionHandle w = Some c"
    "xAppStateEventGroup w \<noteq> None"
    by (auto simp: app_inv_def)
  have same: "?Q () w" using live inv acc by simp
  show ?thesis
  proof (cases "items q = []")
    case True
    then show ?thesis by (intro wp_receive_other [OF q(1,2)]) (use same in auto)
  next
    case False
    then obtain p where p: "items q = [p]" by (metis q(2) unit_q_cases)
    then obtain a where a: "p = Some a" using q(3) by (cases p) auto
    have own: "owns c {a} w" using q(4) p a by simp
    then have "msg_ok w a" by (simp add: owns_def)
    then obtain m where m: "blocks (msgs w) a = Some (Some m)" by (rule msg_okE)
    show ?thesis
    proof (cases "endpointId m = ep")
      case False
      then show ?thesis by (intro wp_receive_other [OF q(1,2)]) (use same p a m in auto)
    next
      case True
      have am: "acc m" using acc q(1) p a m True by (auto simp: acceptable_def)
      show ?thesis
      proof (rule wp_receive_match [OF q(1,2) _ m True])
        show "items q = [Some a]" using p a by simp
        fix q'
        assume q': "unit_q q'" "items q' = []"
        let ?v = "w\<lparr>xMailboxIncomingQueue := Some q'\<rparr>"
        have "linked c cl k ?v" using live room(2) by (simp add: linked_def client_live_def)
        from consumes [OF this _ _ True am, of a] own m
        have "wp (h (Some a)) (\<lambda>_ w'. linked c cl k w' \<and> owns c {} w' \<and> app_frame ?v w') ?v"
          by simp
        then show "wp (h (Some a)) ?Q ?v"
        proof (rule wp_mono, elim conjE)
          fix w' assume w': "linked c cl k w'" "owns c {} w'" "app_frame ?v w'"
          have qw: "xMailboxIncomingQueue w' = Some q'" using w'(3) by (simp add: app_frame_def)
          have "app_inv items unit_q c w'"
            using w' q' room qw app_frame_room [OF w'(3)]
            by (intro app_invI [of _ _ q']) (auto simp: app_frame_def heap_room_def)
          moreover have "acceptable w'" using qw q'(2) by (simp add: acceptable_def)
          ultimately show "?Q () w'" using w' by (simp add: linked_def app_frame_def)
        qed
      qed
    qed
  qed
qed

end

subsection \<open>The GPIO endpoint meets it\<close>

text \<open>A body of at least two bytes.\<close>

abbreviation gpio_acc :: "xMailboxMessage \<Rightarrow> bool" where "gpio_acc m \<equiv> 2 \<le> msg_length m"

text \<open>The calls to the GPIO driver for a message of type \<open>ty\<close> on \<open>pin\<close>, and the answer.\<close>

definition pin_calls :: "int \<Rightarrow> int \<Rightarrow> call list" where
  "pin_calls pin level = [gpio_reset_pin pin, gpio_pad_select_gpio pin,
     gpio_set_direction_output pin, gpio_set_level pin level]"

definition gpio_calls :: "int \<Rightarrow> int \<Rightarrow> call list" where
  "gpio_calls ty pin = (if ty = 2 then pin_calls pin 1 else if ty = 3 then pin_calls pin 0 else [])"

definition gpio_status :: "int \<Rightarrow> int" where
  "gpio_status ty = (if ty \<in> {1, 2, 3, 5} then 0 else 3)"

lemma vMessageHandler_calls:
  assumes m: "blocks (msgs w) a = Some (Some m)" "pData m = Some b" "blocks (bufs w) b = Some bs"
    and len: "2 \<le> length bs"
  shows "vMessageHandler E (Some a) w =
    call_onRecieve E (Some a) (gpio_status (messageType m))
      (w\<lparr>calls := calls w @ gpio_calls (messageType m) (char_to_int (char_signed E) (bs ! 0))\<rparr>)"
proof -
  have ne: "0 < length bs" "1 < length bs" using len by auto
  have byte: "data_byte E (Some b) i w = Inr (char_to_int (char_signed E) (bs ! i), w)"
    if "i < length bs" for i
    using m(3) that by (simp add: data_byte_def run_simps mem_load_def)
  have load: "load_msg (Some a) w = Inr (m, w)"
    using m(1) by (simp add: load_msg_def run_simps mem_load_def)
  have wl: "writeLevel pin l w = Inr ((), w\<lparr>calls := calls w @ pin_calls pin l\<rparr>)" for pin l
    by (simp add: writeLevel_def run_simps pin_calls_def)
  show ?thesis
    unfolding vMessageHandler_def
    by (simp add: run_bnd run_andthen run_if load byte [OF ne(1)] byte [OF ne(2), simplified] wl m(2)
        gpio_consts gpio_calls_def gpio_status_def mailbox_consts)
qed

text \<open>A one-byte body, as the documented format has it, is read past its end by the log message.\<close>

lemma vMessageHandler_short:
  assumes "blocks (msgs w) a = Some (Some m)" "pData m = Some b" "blocks (bufs w) b = Some bs"
    and "length bs < 2"
  shows "vMessageHandler E (Some a) w = Inl Out_Of_Bounds"
  using assms by (cases bs) (auto simp: vMessageHandler_def load_msg_def data_byte_def run_simps mem_load_def)

lemma gpio_consumes:
  assumes E: "write_contract E" and l: "linked c cl k w" and o: "owns c {a} w"
    and m: "blocks (msgs w) a = Some (Some m)" and acc: "gpio_acc m"
  shows "wp (vMessageHandler E (Some a)) (\<lambda>_ w'. linked c cl k w' \<and> owns c {} w' \<and> app_frame w w') w"
proof -
  have "msg_ok w a" using o by (simp add: owns_def)
  then obtain bs where b: "pData m = Some (msg_data w a)" "blocks (bufs w) (msg_data w a) = Some bs"
    "int (length bs) = msg_length m"
    by (rule msg_okE) (use m in auto)
  let ?cs = "calls w @ gpio_calls (messageType m) (char_to_int (char_signed E) (bs ! 0))"
  have "wp (call_onRecieve E (Some a) (gpio_status (messageType m)))
      (\<lambda>_ w'. linked c cl k w' \<and> owns c {} w' \<and> app_frame w w') (w\<lparr>calls := ?cs\<rparr>)"
    by (rule wp_call_onRecieve [OF E, of c cl k _ "{a}"])
      (use l o in \<open>auto simp: linked_def app_frame_def\<close>)
  moreover have "2 \<le> length bs" using b(3) acc by simp
  ultimately show ?thesis
    by (simp add: wp_def vMessageHandler_calls [OF m b(1,2)])
qed

interpretation gpio: endpoint list_rtos lq_items lq_cap list_queue_unit c GPIO_ENDPOINT_ID gpio_acc
    "vMessageHandler (disciplined m E)"
  for E :: "(ptr list_queue, event_bits) app_world env" and c m
  by unfold_locales (rule gpio_consumes [OF disciplined_contract(1)])

text \<open>In every environment whose transport keeps its contract.\<close>

lemma gpio_endpoint:
  assumes "app_rtos R items capacity unit_q" and "write_contract E"
  shows "endpoint R items capacity unit_q c GPIO_ENDPOINT_ID gpio_acc (vMessageHandler E)"
proof -
  show ?thesis
    by (rule endpoint.intro [OF assms(1)], unfold_locales) (rule gpio_consumes [OF assms(2)])
qed

subsection \<open>Properties\<close>



text \<open>Property C33. The documented format of a GPIO message has a body of one byte, the pin. On such a
  message the handler reads past the end of the body, whatever its type: the log message prints
  a second byte.\<close>

theorem gpio_over_read:
  assumes "blocks (msgs w) a = Some (Some m)" and "pData m = Some b" and "blocks (bufs w) b = Some bs"
    and "length bs < 2"
  shows "vMessageHandler E (Some a) w = Inl Out_Of_Bounds"
  using assms by (rule vMessageHandler_short)

theorem gpio_over_read_witness:
  "vMessageHandler app_env (Some 0) (demo_app 1 2 [5]) = Inl Out_Of_Bounds"
  by (rule gpio_over_read [of _ _ "demo_message 1 2 [5]" 2 "[5]"]) (simp_all add: demo_app_parts demo_message_def)

text \<open>One pass of the GPIO endpoint, on a mailbox whose GPIO message (if there is one) has a
  body of two bytes, never faults: it leaves the client live and the application's invariant
  intact, so the message it consumed was freed with its data, once, and nothing else was.\<close>

theorem gpio_pass_safe:
  assumes "app_rtos R items capacity unit_q" and "write_contract E"
    and "client_live c cl k w" and "app_inv items unit_q c w"
    and "\<And>q a m. xMailboxIncomingQueue w = Some q \<Longrightarrow> Some a \<in> set (items q) \<Longrightarrow>
      blocks (msgs w) a = Some (Some m) \<Longrightarrow> endpointId m = GPIO_ENDPOINT_ID \<Longrightarrow> 2 \<le> msg_length m"
  shows "wp (gpio_pass E R) (\<lambda>_ w'. client_live c cl k w' \<and> app_inv items unit_q c w') w"
proof -
  note ep = gpio_endpoint [OF assms(1,2), of c]
  have "endpoint.acceptable items GPIO_ENDPOINT_ID gpio_acc w"
    unfolding endpoint.acceptable_def [OF ep] using assms(5) by blast
  from endpoint.wp_endpoint_receive [OF ep assms(3,4) this] show ?thesis
    unfolding gpio_pass_def wp_andthen by (rule wp_mono) (simp add: wp_ext app_inv_calls)
qed

theorem gpio_pass_safe_witness:
  "wp (gpio_pass app_env list_rtos) (\<lambda>_ w'. client_live 0 demo_client zero_config_storage w' \<and>
     app_inv lq_items list_queue_unit 0 w') (demo_app 1 2 [5, 6])"
  by (rule gpio_pass_safe [OF lr.app_rtos_axioms app_env_write
        demo_app_linked [unfolded linked_def, THEN conjunct1] demo_app_inv])
    (auto simp: demo_app_parts demo_message_def split: if_splits)

end
