(* ===== verification/Wifi.thy ===== *)
theory Wifi
  imports Mailbox
begin

text \<open>
  \<^verbatim>\<open>components/wifi_sta/wifi_sta.c\<close>: the handler of the system events, the initialisation of
  the non-volatile storage with its retry, and the connection, which returns only once the
  handler has seen an address. The lemmas say what the flag of the network means and how
  often the storage is erased.
\<close>

subsection \<open>System events\<close>

datatype system_event_id =
    SYSTEM_EVENT_STA_START
  | SYSTEM_EVENT_STA_GOT_IP
  | SYSTEM_EVENT_STA_DISCONNECTED
  | SYSTEM_EVENT_other

definition xEventHandler :: "('q, 'g) app_world env \<Rightarrow> ('q, 'g) rtos \<Rightarrow> system_event_id \<Rightarrow>
  ('q, 'g, int) app_act" where
  "xEventHandler E R event =
     andthen (case event of
         SYSTEM_EVENT_STA_START \<Rightarrow> bnd (ext_int E esp_wifi_connect) (\<lambda>_. ret ())
       | SYSTEM_EVENT_STA_GOT_IP \<Rightarrow>
           bnd app_group (\<lambda>g. set_group (xEventGroupSetBits (groups R) statusCONNECTED_TO_NETWORK g))
       | SYSTEM_EVENT_STA_DISCONNECTED \<Rightarrow>
           bnd (ext_int E esp_wifi_connect) (\<lambda>_.
           bnd app_group (\<lambda>g. set_group (xEventGroupClearBits (groups R) statusCONNECTED_TO_NETWORK g)))
       | SYSTEM_EVENT_other \<Rightarrow> ret ())
     (ret ESP_OK)"

subsection \<open>Initialisation\<close>

text \<open>The two codes of ESP-IDF that ask for the storage to be erased.\<close>

definition ESP_ERR_NVS_NO_FREE_PAGES :: int where "ESP_ERR_NVS_NO_FREE_PAGES = 4365"
definition ESP_ERR_NVS_NEW_VERSION_FOUND :: int where "ESP_ERR_NVS_NEW_VERSION_FOUND = 4368"

text \<open>\<open>ESP_ERROR_CHECK\<close> aborts on every code but \<open>ESP_OK\<close>.\<close>

definition error_check :: "int \<Rightarrow> ('a, unit) ws_act" where
  "error_check e = (if e = ESP_OK then ret () else throw Aborted)"

definition vInitNVM :: "'w env \<Rightarrow> ('a, unit) ws_act" where
  "vInitNVM E = bnd (ext_int E nvs_flash_init) (\<lambda>r.
     if r = ESP_ERR_NVS_NO_FREE_PAGES \<or> r = ESP_ERR_NVS_NEW_VERSION_FOUND
     then bnd (ext_int E nvs_flash_erase) (\<lambda>e.
          andthen (error_check e)
            (bnd (ext_int E nvs_flash_init) error_check))
     else error_check r)"

text \<open>
  \<open>strcpy\<close> into an array of \<open>n\<close> bytes: the terminating zero has to fit too. The arrays are
  \<open>ssid[32]\<close> and \<open>password[64]\<close> of \<open>wifi_sta_config_t\<close>.
\<close>

definition strcpy_into :: "nat \<Rightarrow> string \<Rightarrow> ('a, string) ws_act" where
  "strcpy_into n s = (if length s < n then ret s else throw Out_Of_Bounds)"

text \<open>
  \<open>xEventGroupWaitBits\<close> on the flag of the network, while the system delivers the events
  \<open>evs\<close>: it returns at the first moment the flag is set; \<open>False\<close> means that it still waits
  after all of them.
\<close>

fun wait_network :: "('q, 'g) app_world env \<Rightarrow> ('q, 'g) rtos \<Rightarrow> system_event_id list \<Rightarrow>
  ('q, 'g, bool) app_act" where
  "wait_network E R [] = bnd app_group (\<lambda>g.
     ret (xEventGroupGetBits (groups R) g AND statusCONNECTED_TO_NETWORK \<noteq> 0))"
| "wait_network E R (ev # evs) = bnd app_group (\<lambda>g.
     if xEventGroupGetBits (groups R) g AND statusCONNECTED_TO_NETWORK \<noteq> 0 then ret True
     else andthen (xEventHandler E R ev) (wait_network E R evs))"

definition vConnectWifi :: "('q, 'g) app_world env \<Rightarrow> ('q, 'g) rtos \<Rightarrow> system_event_id list \<Rightarrow>
  string \<Rightarrow> string \<Rightarrow> ('q, 'g, bool) app_act" where
  "vConnectWifi E R evs ssid password =
     andthen (vInitNVM E)
    (andthen (ext_do tcpip_adapter_init)
    (andthen (bnd (ext_int E esp_event_loop_init) error_check)
    (andthen (bnd (ext_int E esp_wifi_init) error_check)
    (andthen (bnd (ext_int E esp_wifi_set_storage_RAM) error_check)
    (bnd (strcpy_into 32 ssid) (\<lambda>s. bnd (strcpy_into 64 password) (\<lambda>p.
     andthen (bnd (ext_int E esp_wifi_set_mode_STA) error_check)
    (andthen (bnd (ext_int E (esp_wifi_set_config s p)) error_check)
    (andthen (bnd (ext_int E esp_wifi_start) error_check)
      (wait_network E R evs))))))))))"

subsection \<open>Properties of the connection\<close>

lemma wp_error_check [wp_simps]: "wp (error_check e) Q w = (e = ESP_OK \<and> Q () w)"
  by (simp add: error_check_def wp_simps)

lemma wlp_error_check [wp_simps]: "wlp (error_check e) Q w = (e = ESP_OK \<longrightarrow> Q () w)"
  by (simp add: error_check_def wp_simps)

lemma error_check_run [run_simps]: "error_check e w = (if e = ESP_OK then Inr ((), w) else Inl Aborted)"
  by (simp add: error_check_def run_simps)

text \<open>The flag after a sequence of events, as far as the events decide it.\<close>

fun network_flag :: "bool \<Rightarrow> system_event_id list \<Rightarrow> bool" where
  "network_flag b [] = b"
| "network_flag b (ev # evs) = network_flag
     (case ev of SYSTEM_EVENT_STA_GOT_IP \<Rightarrow> True | SYSTEM_EVENT_STA_DISCONNECTED \<Rightarrow> False | _ \<Rightarrow> b) evs"

text \<open>What the events leave alone.\<close>

definition wifi_frame :: "('q, 'g) app_world \<Rightarrow> ('q, 'g) app_world \<Rightarrow> bool" where
  "wifi_frame w w' \<longleftrightarrow> strs w' = strs w \<and> cfgs w' = cfgs w \<and> clis w' = clis w \<and> bufs w' = bufs w \<and>
     msgs w' = msgs w \<and> (\<exists>xs. calls w' = calls w @ xs) \<and>
     xMailboxIncomingQueue w' = xMailboxIncomingQueue w \<and>
     xMailboxOutcomingQueue w' = xMailboxOutcomingQueue w \<and> xConnectionHandle w' = xConnectionHandle w \<and>
     (xAppStateEventGroup w \<noteq> None \<longrightarrow> xAppStateEventGroup w' \<noteq> None)"

lemma wifi_frame_refl [simp]: "wifi_frame w w"
  by (simp add: wifi_frame_def)

lemma wifi_frame_trans: "wifi_frame u v \<Longrightarrow> wifi_frame v w \<Longrightarrow> wifi_frame u w"
  by (auto simp: wifi_frame_def)

context app_rtos
begin

lemma wp_xEventHandler:
  assumes g: "xAppStateEventGroup w = Some g"
  shows "wp (xEventHandler E R ev) (\<lambda>r w'. r = ESP_OK \<and> wifi_frame w w' \<and>
    app_flag R 0 w' = network_flag (app_flag R 0 w) [ev] \<and> app_flag R 1 w' = app_flag R 1 w) w"
proof (cases ev)
  case SYSTEM_EVENT_STA_DISCONNECTED
  with g show ?thesis
    by (simp add: xEventHandler_def wp_simps app_flag_def wifi_frame_def ev.get_clear
        bit_and_iff bit_not_iff status_bits)
qed (use g in \<open>simp_all add: xEventHandler_def wp_simps app_flag_def wifi_frame_def ev.get_set
        bit_or_iff status_bits\<close>)

text \<open>The wait returns exactly when some prefix of the events has set the flag.\<close>

lemma wp_wait_network:
  assumes "xAppStateEventGroup w \<noteq> None"
  shows "wp (wait_network E R evs) (\<lambda>r w'. wifi_frame w w' \<and>
    r = (\<exists>k \<le> length evs. network_flag (app_flag R 0 w) (take k evs)) \<and>
    r = app_flag R 0 w' \<and> app_flag R 1 w' = app_flag R 1 w) w"
  using assms
proof (induction evs arbitrary: w)
  case Nil
  then obtain g where "xAppStateEventGroup w = Some g" by auto
  then show ?case by (simp add: wp_simps and_network app_flag_def)
next
  case (Cons ev evs)
  then obtain g where g: "xAppStateEventGroup w = Some g" by auto
  show ?case
  proof (cases "app_flag R 0 w")
    case True
    then have "\<exists>k \<le> length (ev # evs). network_flag (app_flag R 0 w) (take k (ev # evs))"
      by (intro exI [of _ 0]) simp
    with g True show ?thesis by (simp add: wp_simps and_network app_flag_def)
  next
    case False
    have "wp (xEventHandler E R ev) (\<lambda>_. wp (wait_network E R evs) (\<lambda>r w'. wifi_frame w w' \<and>
      r = (\<exists>k \<le> length (ev # evs). network_flag (app_flag R 0 w) (take k (ev # evs))) \<and>
      r = app_flag R 0 w' \<and> app_flag R 1 w' = app_flag R 1 w)) w"
    proof (rule wp_mono [OF wp_xEventHandler [OF g]], elim conjE)
      fix r v
      assume v: "wifi_frame w v" "app_flag R 0 v = network_flag (app_flag R 0 w) [ev]"
        "app_flag R 1 v = app_flag R 1 w"
      have split: "(\<exists>k \<le> length (ev # evs). network_flag (app_flag R 0 w) (take k (ev # evs))) \<longleftrightarrow>
        (\<exists>k \<le> length evs. network_flag (app_flag R 0 v) (take k evs))" (is "?L \<longleftrightarrow> ?R")
      proof
        assume ?L
        then obtain k where k: "k \<le> length (ev # evs)" "network_flag (app_flag R 0 w) (take k (ev # evs))"
          by blast
        with False obtain j where "k = Suc j" by (cases k) auto
        with k v(2) show ?R by (intro exI [of _ j]) simp
      next
        assume ?R
        then obtain k where "k \<le> length evs" "network_flag (app_flag R 0 v) (take k evs)" by blast
        with v(2) show ?L by (intro exI [of _ "Suc k"]) simp
      qed
      have "xAppStateEventGroup v \<noteq> None" using v(1) g by (simp add: wifi_frame_def)
      from Cons.IH [OF this]
      show "wp (wait_network E R evs) (\<lambda>r w'. wifi_frame w w' \<and>
        r = (\<exists>k \<le> length (ev # evs). network_flag (app_flag R 0 w) (take k (ev # evs))) \<and>
        r = app_flag R 0 w' \<and> app_flag R 1 w' = app_flag R 1 w) v"
        by (rule wp_mono) (use v wifi_frame_trans [OF v(1)] in \<open>auto simp only: split\<close>)
    qed
    with g False show ?thesis by (simp add: wp_simps and_network app_flag_def)
  qed
qed

end

text \<open>\<open>vInitNVM\<close> erases at most once, and never goes on with storage that could not be opened.\<close>

lemma wlp_vInitNVM:
  "wlp (vInitNVM E) (\<lambda>_ w'. \<exists>r. r_int E (calls w) nvs_flash_init = r \<and>
     (if r = ESP_OK then w' = w\<lparr>calls := calls w @ [nvs_flash_init]\<rparr>
      else (r = ESP_ERR_NVS_NO_FREE_PAGES \<or> r = ESP_ERR_NVS_NEW_VERSION_FOUND) \<and>
        w' = w\<lparr>calls := calls w @ [nvs_flash_init, nvs_flash_erase, nvs_flash_init]\<rparr> \<and>
        r_int E (calls w @ [nvs_flash_init, nvs_flash_erase]) nvs_flash_init = ESP_OK)) w"
  by (auto simp: vInitNVM_def wp_simps ESP_ERR_NVS_NO_FREE_PAGES_def ESP_ERR_NVS_NEW_VERSION_FOUND_def)

subsection \<open>Routines that may abort\<close>

text \<open>
  \<open>wpx F m Q s\<close>: \<open>m\<close> ends in a result that satisfies \<open>Q\<close>, or in one of the faults \<open>F\<close>.
\<close>

definition wpx :: "fault set \<Rightarrow> ('s, 'a) act \<Rightarrow> ('a \<Rightarrow> 's \<Rightarrow> bool) \<Rightarrow> 's \<Rightarrow> bool" where
  "wpx F m Q s = (case m s of Inl f \<Rightarrow> f \<in> F | Inr (x, t) \<Rightarrow> Q x t)"

named_theorems wpx_simps "equations that push a fault-tolerant precondition through a routine"

lemma wpx_ret [wpx_simps]: "wpx F (ret x) Q s = Q x s"
  by (simp add: wpx_def ret_def)

lemma wpx_throw [wpx_simps]: "wpx F (throw f) Q s = (f \<in> F)"
  by (simp add: wpx_def throw_def)

lemma wpx_gets [wpx_simps]: "wpx F (gets h) Q s = Q (h s) s"
  by (simp add: wpx_def gets_def)

lemma wpx_modify [wpx_simps]: "wpx F (modify h) Q s = Q () (h s)"
  by (simp add: wpx_def modify_def)

lemma wpx_bnd [wpx_simps]: "wpx F (bnd m f) Q = wpx F m (\<lambda>x. wpx F (f x) Q)"
  by (simp add: wpx_def bnd_def fun_eq_iff split: sum.split prod.split)

lemma wpx_andthen [wpx_simps]: "wpx F (andthen m k) Q = wpx F m (\<lambda>_. wpx F k Q)"
  by (simp add: andthen_def wpx_bnd)

lemma wpx_error_check [wpx_simps]:
  "wpx F (error_check e) Q s = (if e = ESP_OK then Q () s else Aborted \<in> F)"
  by (simp add: error_check_def wpx_simps)

lemma wpx_ext [wpx_simps]:
  "wpx F (ext_int E c) Q w = Q (r_int E (calls w) c) (w\<lparr>calls := calls w @ [c]\<rparr>)"
  "wpx F (ext_do c) Q' w = Q' () (w\<lparr>calls := calls w @ [c]\<rparr>)"
  by (simp_all add: wpx_def ext_int_def ext_do_def)

lemma wpx_mono: "wpx F m Q s \<Longrightarrow> F \<subseteq> G \<Longrightarrow> (\<And>x t. Q x t \<Longrightarrow> P x t) \<Longrightarrow> wpx G m P s"
  by (auto simp: wpx_def split: sum.splits)

lemma wp_imp_wpx: "wp m Q s \<Longrightarrow> wpx F m Q s"
  by (auto simp: wp_def wpx_def split: sum.splits)

abbreviation wpa :: "('s, 'a) act \<Rightarrow> ('a \<Rightarrow> 's \<Rightarrow> bool) \<Rightarrow> 's \<Rightarrow> bool" where
  "wpa \<equiv> wpx {Aborted}"

lemma wpa_vInitNVM:
  assumes "\<And>cs. \<exists>xs. cs = calls w @ xs \<Longrightarrow> Q () (w\<lparr>calls := cs\<rparr>)"
  shows "wpa (vInitNVM E) Q w"
  using assms by (auto simp: vInitNVM_def wpx_simps)

context app_rtos
begin

text \<open>
  \<open>vConnectWifi\<close> with a name and a password that fit never faults; it hands them to the driver
  unchanged, and it returns only with the network's flag set.
\<close>

lemma wpa_vConnectWifi:
  assumes g: "xAppStateEventGroup w \<noteq> None" and len: "length ssid < 32" "length password < 64"
  shows "wpa (vConnectWifi E R evs ssid password) (\<lambda>r w'. wifi_frame w w' \<and> r = app_flag R 0 w' \<and>
    app_flag R 1 w' = app_flag R 1 w \<and> esp_wifi_set_config ssid password \<in> set (calls w')) w"
    (is "wpa _ ?Q w")
proof -
  have wait: "wpa (wait_network E R evs) ?Q (w\<lparr>calls := cs\<rparr>)"
    if "\<exists>xs. cs = calls w @ xs" "esp_wifi_set_config ssid password \<in> set cs" for cs
  proof (rule wp_imp_wpx, rule wp_mono)
    show "wp (wait_network E R evs) (\<lambda>r w'. wifi_frame (w\<lparr>calls := cs\<rparr>) w' \<and>
      r = (\<exists>k \<le> length evs. network_flag (app_flag R 0 (w\<lparr>calls := cs\<rparr>)) (take k evs)) \<and>
      r = app_flag R 0 w' \<and> app_flag R 1 w' = app_flag R 1 (w\<lparr>calls := cs\<rparr>)) (w\<lparr>calls := cs\<rparr>)"
      using g by (intro wp_wait_network) simp
    show "?Q r w'" if "wifi_frame (w\<lparr>calls := cs\<rparr>) w' \<and>
      r = (\<exists>k \<le> length evs. network_flag (app_flag R 0 (w\<lparr>calls := cs\<rparr>)) (take k evs)) \<and>
      r = app_flag R 0 w' \<and> app_flag R 1 w' = app_flag R 1 (w\<lparr>calls := cs\<rparr>)" for r w'
      using that \<open>\<exists>xs. cs = calls w @ xs\<close> \<open>esp_wifi_set_config ssid password \<in> set cs\<close>
      by (auto simp: wifi_frame_def app_flag_def)
  qed
  show ?thesis
    unfolding vConnectWifi_def wpx_andthen [of _ "vInitNVM E"]
  proof (rule wpa_vInitNVM)
    fix cs assume cs: "\<exists>xs. cs = calls w @ xs"
    let ?cs = "cs @ [tcpip_adapter_init, esp_event_loop_init, esp_wifi_init, esp_wifi_set_storage_RAM,
      esp_wifi_set_mode_STA, esp_wifi_set_config ssid password, esp_wifi_start]"
    have "wpa (wait_network E R evs) ?Q (w\<lparr>calls := ?cs\<rparr>)"
      using cs by (intro wait) auto
    with len show "wpa (andthen (ext_do tcpip_adapter_init)
      (andthen (bnd (ext_int E esp_event_loop_init) error_check)
      (andthen (bnd (ext_int E esp_wifi_init) error_check)
      (andthen (bnd (ext_int E esp_wifi_set_storage_RAM) error_check)
      (bnd (strcpy_into 32 ssid) (\<lambda>s. bnd (strcpy_into 64 password) (\<lambda>p.
       andthen (bnd (ext_int E esp_wifi_set_mode_STA) error_check)
      (andthen (bnd (ext_int E (esp_wifi_set_config s p)) error_check)
      (andthen (bnd (ext_int E esp_wifi_start) error_check) (wait_network E R evs))))))))))
      ?Q (w\<lparr>calls := cs\<rparr>)"
      by (simp add: wpx_simps strcpy_into_def)
  qed
qed

end

text \<open>A longer network name runs over the end of its array.\<close>

lemma vConnectWifi_overflow:
  assumes "\<And>cs x. r_int E cs x = ESP_OK" and "32 \<le> length ssid"
  shows "vConnectWifi E R evs ssid password w = Inl Out_Of_Bounds"
  using assms by (simp add: vConnectWifi_def vInitNVM_def run_simps strcpy_into_def
      ESP_ERR_NVS_NO_FREE_PAGES_def ESP_ERR_NVS_NEW_VERSION_FOUND_def)

subsection \<open>Properties\<close>


text \<open>An environment whose calls all return \<open>ESP_OK\<close>.\<close>

definition calm_env :: "(ptr list_queue, event_bits) app_world env" where
  "calm_env = \<lparr>r_int = (\<lambda>_ _. 0), r_ptr = (\<lambda>_ _. NULL), r_bytes = (\<lambda>_ _. []),
     http_parser_parse_url = http_parser_parse_url demo_env,
     asprintf_null = True, junk = (\<lambda>_. 0), deliver = (\<lambda>_ _ _. ret ()), char_signed = False\<rparr>"


text \<open>The non-volatile storage is opened once, or, when it asks for it, erased once and opened
  again; the program goes on only with storage that could be opened.\<close>

theorem nvs_opened:
  "wlp (vInitNVM E) (\<lambda>_ w'. \<exists>r. r_int E (calls w) nvs_flash_init = r \<and>
     (if r = ESP_OK then w' = w\<lparr>calls := calls w @ [nvs_flash_init]\<rparr>
      else (r = ESP_ERR_NVS_NO_FREE_PAGES \<or> r = ESP_ERR_NVS_NEW_VERSION_FOUND) \<and>
        w' = w\<lparr>calls := calls w @ [nvs_flash_init, nvs_flash_erase, nvs_flash_init]\<rparr> \<and>
        r_int E (calls w @ [nvs_flash_init, nvs_flash_erase]) nvs_flash_init = ESP_OK)) w"
  by (rule wlp_vInitNVM)

text \<open>Property C37. Connecting to a network whose name and password fit the driver's arrays ends in an
  abort or returns only once connected; the driver gets the name and the password unchanged.\<close>

theorem wifi_connects:
  assumes "app_rtos R items capacity unit_q" and "xAppStateEventGroup w \<noteq> None"
    and "length ssid < 32" and "length password < 64"
  shows "wpa (vConnectWifi E R evs ssid password) (\<lambda>r w'. wifi_frame w w' \<and> r = app_flag R 0 w' \<and>
    app_flag R 1 w' = app_flag R 1 w \<and> esp_wifi_set_config ssid password \<in> set (calls w')) w"
  using assms by (rule app_rtos.wpa_vConnectWifi)

theorem wifi_connects_witness:
  "wpa (vConnectWifi calm_env list_rtos [SYSTEM_EVENT_STA_GOT_IP] ''JSF'' ''JM6R6DPK'') (\<lambda>r w'.
    wifi_frame mail_world w' \<and> r = app_flag list_rtos 0 w' \<and>
    app_flag list_rtos 1 w' = app_flag list_rtos 1 mail_world \<and>
    esp_wifi_set_config ''JSF'' ''JM6R6DPK'' \<in> set (calls w')) mail_world"
  by (rule wifi_connects [OF lr.app_rtos_axioms]) (simp_all add: mail_world_def)

text \<open>Property C38. A network name of 32 characters or more is copied past the end of its array.\<close>

theorem ssid_overflow:
  assumes "\<And>cs x. r_int E cs x = ESP_OK" and "32 \<le> length ssid"
  shows "vConnectWifi E R evs ssid password w = Inl Out_Of_Bounds"
  using assms by (rule vConnectWifi_overflow)

theorem ssid_overflow_witness:
  "vConnectWifi calm_env list_rtos [] (replicate 32 CHR ''a'') ''b'' mail_world = Inl Out_Of_Bounds"
  by (rule ssid_overflow) (simp_all add: calm_env_def)

end
