(* ===== verification/Heartbeat.thy ===== *)
theory Heartbeat
  imports Wifi
begin

text \<open>
  \<^verbatim>\<open>tasks/heartbeat/heartbeat.task.c\<close>: the status LED blinks while the server is connected and
  is steady otherwise. The lemmas compute the calls of a pass, with their delays in ticks.
\<close>

definition LED_GPIO :: int where "LED_GPIO = 18"

text \<open>A loop whose body does not look at its counter.\<close>

primrec repeat_act :: "nat \<Rightarrow> ('s, unit) act \<Rightarrow> ('s, unit) act" where
  "repeat_act 0 m = ret ()"
| "repeat_act (Suc n) m = andthen m (repeat_act n m)"

definition blinkTimes :: "int \<Rightarrow> ('a, unit) ws_act" where
  "blinkTimes count =
    (let time = c_div (if count > 1 then 200 else 50) portTICK_PERIOD_MS in
     repeat_act (nat count)
       (andthen (ext_do (gpio_set_level LED_GPIO 1))
       (andthen (ext_do (vTaskDelay time))
       (andthen (ext_do (gpio_set_level LED_GPIO 0))
         (ext_do (vTaskDelay time))))))"

definition heartbeat_setup :: "('a, unit) ws_act" where
  "heartbeat_setup = andthen (ext_do (gpio_pad_select_gpio LED_GPIO))
     (ext_do (gpio_set_direction_output LED_GPIO))"

definition heartbeat_pass :: "('q, 'g) rtos \<Rightarrow> ('q, 'g, unit) app_act" where
  "heartbeat_pass R = bnd app_group (\<lambda>g.
     andthen (if xEventGroupGetBits (groups R) g AND statusCONNECTED_TO_SERVER \<noteq> 0
              then blinkTimes 1 else ext_do (gpio_set_level LED_GPIO 1))
       (ext_do (vTaskDelay (c_div 1000 portTICK_PERIOD_MS))))"

text \<open>The first \<open>n\<close> passes of the task, whose loop never ends.\<close>

definition vTaskHeartbeat :: "nat \<Rightarrow> ('q, 'g) rtos \<Rightarrow> ('q, 'g, unit) app_act" where
  "vTaskHeartbeat n R = andthen heartbeat_setup (repeat_act n (heartbeat_pass R))"

subsection \<open>The calls\<close>

definition pulse :: "int \<Rightarrow> call list" where
  "pulse t = [gpio_set_level 18 1, vTaskDelay t, gpio_set_level 18 0, vTaskDelay t]"

lemma tick_ms: "portTICK_PERIOD_MS = 10"
  by (simp add: ws_consts)

lemma run_repeat_calls:
  assumes "\<And>w. m w = Inr ((), w\<lparr>calls := calls w @ xs\<rparr>)"
  shows "repeat_act n m w = Inr ((), w\<lparr>calls := calls w @ concat (replicate n xs)\<rparr>)"
  using assms by (induction n arbitrary: w) (simp_all add: run_simps)

text \<open>\<open>blinkTimes\<close>: one pulse of 50 ms per blink, or of 200 ms if there are several.\<close>

lemma run_blinkTimes:
  "blinkTimes n w = Inr ((), w\<lparr>calls := calls w @
     concat (replicate (nat n) (pulse (if n > 1 then 20 else 5)))\<rparr>)"
  unfolding blinkTimes_def Let_def
  by (rule run_repeat_calls) (simp add: run_simps pulse_def tick_ms LED_GPIO_def c_div_def)

definition heartbeat_calls :: "bool \<Rightarrow> call list" where
  "heartbeat_calls up = (if up then pulse 5 else [gpio_set_level 18 1]) @ [vTaskDelay 100]"

lemma run_heartbeat_pass:
  assumes "xAppStateEventGroup w \<noteq> None"
  shows "heartbeat_pass R w = Inr ((), w\<lparr>calls := calls w @ heartbeat_calls (app_flag R 1 w)\<rparr>)"
  using assms by (auto simp: heartbeat_pass_def run_simps run_blinkTimes and_server app_flag_def
      heartbeat_calls_def LED_GPIO_def tick_ms c_div_def)

lemma run_vTaskHeartbeat:
  assumes "xAppStateEventGroup w \<noteq> None"
  shows "vTaskHeartbeat n R w = Inr ((), w\<lparr>calls := calls w @
    [gpio_pad_select_gpio 18, gpio_set_direction_output 18] @
    concat (replicate n (heartbeat_calls (app_flag R 1 w)))\<rparr>)"
proof -
  have "repeat_act n (heartbeat_pass R) v = Inr ((), v\<lparr>calls := calls v @
      concat (replicate n (heartbeat_calls (app_flag R 1 w)))\<rparr>)"
    if "xAppStateEventGroup v = xAppStateEventGroup w" for v
    using that
  proof (induction n arbitrary: v)
    case (Suc n)
    have "app_flag R 1 v = app_flag R 1 w" using Suc.prems by (simp add: app_flag_def)
    with Suc assms show ?case by (simp add: run_simps run_heartbeat_pass)
  qed (simp add: run_simps)
  then show ?thesis
    by (simp add: vTaskHeartbeat_def heartbeat_setup_def run_simps LED_GPIO_def)
qed

subsection \<open>Properties\<close>

text \<open>Property C39. In each pass the heartbeat blinks the LED once, 50 ms on and 50 ms off, if the server is
  connected, and otherwise holds it on; then it waits a second. It changes nothing else, so any
  number of passes is the setup followed by that many equal patterns.\<close>

theorem heartbeat_pattern:
  assumes "xAppStateEventGroup w \<noteq> None"
  shows "vTaskHeartbeat n R w = Inr ((), w\<lparr>calls := calls w @
    [gpio_pad_select_gpio 18, gpio_set_direction_output 18] @
    concat (replicate n (heartbeat_calls (app_flag R 1 w)))\<rparr>)"
  using assms by (rule run_vTaskHeartbeat)

theorem heartbeat_pattern_witness:
  "vTaskHeartbeat 2 list_rtos mail_world = Inr ((), mail_world\<lparr>calls :=
    [gpio_pad_select_gpio 18, gpio_set_direction_output 18,
     gpio_set_level 18 1, vTaskDelay 100, gpio_set_level 18 1, vTaskDelay 100]\<rparr>)"
  using heartbeat_pattern [of mail_world 2 list_rtos]
  by (simp add: mail_world_def heartbeat_calls_def app_flag_def list_rtos_def word_events_ops_def
      numeral_2_eq_2)

end
