(* ===== verification/Connect.thy ===== *)
theory Connect
  imports Gpio Heartbeat
begin

text \<open>
  The connection of \<^verbatim>\<open>communication.task.c\<close> and \<^verbatim>\<open>main.c\<close>: the network, then the client of the
  websocket with its two event handlers, then its task; and the start of the firmware. The
  lemmas put the components together: a connection that is reported is a live client, linked
  to an application that satisfies its invariant.
\<close>

subsection \<open>Connecting\<close>

record xC11nTaskParameters =
  port :: int
  ssid :: string
  password :: string
  uri :: string

definition connection_config :: "xC11nTaskParameters \<Rightarrow> esp_websocket_client_config" where
  "connection_config params = zero_client_config\<lparr>conf_uri := Some (uri params), conf_port := port params\<rparr>"

text \<open>
  \<open>xConnect\<close>; \<open>evs\<close> are the system events while it waits for the network, and \<open>None\<close> means
  that it still waits after them.
\<close>

definition xConnect :: "('q, 'g) app_world env \<Rightarrow> ('q, 'g) rtos \<Rightarrow> system_event_id list \<Rightarrow>
  xC11nTaskParameters \<Rightarrow> ('q, 'g, int option) app_act" where
  "xConnect E R evs params = bnd (vConnectWifi E R evs (ssid params) (password params)) (\<lambda>up.
     if \<not> up then ret None
     else bnd (xWebsocketInitConnection E (connection_config params)) (\<lambda>h.
       andthen (modify (\<lambda>w. w\<lparr>xConnectionHandle := h\<rparr>))
      (bnd (gets xConnectionHandle) (\<lambda>h.
       bnd (esp_websocket_register_events E h WEBSOCKET_EVENT_ANY Fn_vWebsocketEventHandler h) (\<lambda>_.
       bnd (xWebsocketStart E h) (\<lambda>r. ret (Some r)))))))"

text \<open>The task: \<open>n\<close> passes of the loop that follows the connection.\<close>

definition vTaskCommunication :: "nat \<Rightarrow> ('q, 'g) app_world env \<Rightarrow> ('q, 'g) rtos \<Rightarrow>
  system_event_id list \<Rightarrow> xC11nTaskParameters \<Rightarrow> ('q, 'g, unit) app_act" where
  "vTaskCommunication n E R evs params = bnd (xConnect E R evs params) (\<lambda>r. case r of
       None \<Rightarrow> ret ()
     | Some e \<Rightarrow> andthen (error_check e) (repeat_act n (ext_do (vTaskDelay 1))))"

subsection \<open>The start of the firmware\<close>

definition xC11nTaskParams :: xC11nTaskParameters where
  "xC11nTaskParams = \<lparr>port = 8080, ssid = ''JSF'', password = ''JM6R6DPK'',
     uri = ''ws://192.168.1.8''\<rparr>"

definition app_main :: "'w env \<Rightarrow> ('q, 'g) rtos \<Rightarrow> ('q, 'g, unit) app_act" where
  "app_main E R =
     andthen (vMailboxInit R)
    (andthen (modify (\<lambda>w. w\<lparr>xAppStateEventGroup := new_event_group (groups R)\<rparr>))
    (bnd (ext_int E (xTaskCreate_app ''vTaskCommunication'' 4096 1)) (\<lambda>_.
     bnd (ext_int E (xTaskCreate_app ''vTaskHeartbeat'' 4096 1)) (\<lambda>_.
     bnd (ext_int E (xTaskCreate_app ''vTaskGPIO'' 4096 2)) (\<lambda>_. ret ())))))"

subsection \<open>What a connection is\<close>

text \<open>The state before: no client, no message, no buffer; the queue and the event group exist.\<close>

definition booted :: "('q \<Rightarrow> ptr list) \<Rightarrow> ('q \<Rightarrow> bool) \<Rightarrow> ('q, 'g) app_world \<Rightarrow> bool" where
  "booted items unit_q w \<longleftrightarrow> mem_ok (strs w) \<and> mem_ok (cfgs w) \<and> mem_ok (clis w) \<and>
     mem_ok (bufs w) \<and> mem_ok (msgs w) \<and> dom (blocks (bufs w)) = {} \<and> dom (blocks (msgs w)) = {} \<and>
     heap_room w \<and> xAppStateEventGroup w \<noteq> None \<and>
     (\<exists>q. xMailboxIncomingQueue w = Some q \<and> unit_q q \<and> items q = [])"

text \<open>The client built by \<open>xConnect\<close> in \<open>w'\<close>: live, registered, and owned by the application.\<close>

definition connected_app :: "('q \<Rightarrow> ptr list) \<Rightarrow> ('q \<Rightarrow> bool) \<Rightarrow> ('q, 'g) app_world env \<Rightarrow>
  esp_websocket_client_config \<Rightarrow> ('q, 'g) app_world \<Rightarrow> bool" where
  "connected_app items unit_q E conf w' \<longleftrightarrow> (\<exists>c cl k. client_live c cl k w' \<and> client_complete conf cl \<and>
     abs_cfg k (blocks (strs w')) = init_config_spec E conf \<and> app_inv items unit_q c w' \<and>
     dom (blocks (msgs w')) = {} \<and>
     (\<exists>pre post. calls w' = pre @
       [esp_event_handler_register_with (cl_event_handle cl) WEBSOCKET_EVENT_ANY
          Fn_xWebsocketEventHandler (Some c),
        esp_event_handler_register_with (cl_event_handle cl) WEBSOCKET_EVENT_ANY
          Fn_vWebsocketEventHandler (Some c)] @ post))"

lemma complete_owns:
  assumes p: "client_parts a n c w0 cl w" and comp: "client_complete conf cl"
    and none: "dom (blocks (bufs w0)) = {}" "dom (blocks (msgs w)) = {}" and ok: "mem_ok (msgs w)"
  shows "owns c {} w"
proof -
  from comp obtain tx rx where t: "cl_tx_buffer cl = Some tx" "cl_rx_buffer cl = Some rx"
    by (auto simp: client_complete_def)
  have bp: "buf_part w0 n (Some tx) (Some rx) w" using p t by (simp add: client_parts_def)
  have cb: "client_bufs c w = {tx, rx}"
    using client_parts_cli [OF p] t by (auto simp: client_bufs_def)
  have "x \<in> dom (blocks (bufs w)) \<longleftrightarrow> x = tx \<or> x = rx" for x
  proof (cases "x = tx \<or> x = rx")
    case True
    then have "\<exists>bs. blocks (bufs w) x = Some bs" using bp unfolding buf_part_def by blast
    with True show ?thesis by auto
  next
    case False
    then have "blocks (bufs w) x = blocks (bufs w0) x" using bp unfolding buf_part_def by blast
    with False none(1) show ?thesis by auto
  qed
  then have "dom (blocks (bufs w)) = {tx, rx}" by blast
  moreover have "mem_ok (bufs w)" using bp by (simp add: buf_part_def)
  ultimately show ?thesis using ok none(2) cb by (simp add: owns_def)
qed

lemma owns_handle [simp]: "owns c A (w\<lparr>xConnectionHandle := h\<rparr>) = owns c A w"
proof -
  have "msg_data (w\<lparr>xConnectionHandle := h\<rparr>) = msg_data w" "msg_ok (w\<lparr>xConnectionHandle := h\<rparr>) = msg_ok w"
    "client_bufs c (w\<lparr>xConnectionHandle := h\<rparr>) = client_bufs c w"
    by (simp_all add: fun_eq_iff msg_data_def msg_ok_def client_bufs_def)
  then show ?thesis by (simp add: owns_def)
qed

lemma booted_frame: "booted items unit_q w \<Longrightarrow> wifi_frame w v \<Longrightarrow> booted items unit_q v"
  by (auto simp: booted_def wifi_frame_def heap_room_def)

context app_rtos
begin

text \<open>The client of \<open>xConnect\<close> and its two handlers, up to the start of its task.\<close>

lemma wp_register_both:
  assumes "client_live c cl k w" and "\<And>w'. w' = w\<lparr>calls := calls w @
       [esp_event_handler_register_with (cl_event_handle cl) WEBSOCKET_EVENT_ANY
          Fn_xWebsocketEventHandler (Some c)]\<rparr> \<Longrightarrow> wp (m (Some c)) Q w'"
  shows "wp (bnd (bnd (esp_websocket_register_events E (Some c) WEBSOCKET_EVENT_ANY
       Fn_xWebsocketEventHandler (Some c)) (\<lambda>_. ret (Some c))) m) Q w"
  using assms by (auto simp: esp_websocket_register_events_def wp_simps client_live_def)

lemma wp_start_idle:
  assumes live: "client_live c cl k w" and idle: "cl_state cl = WEBSOCKET_STATE_UNKNOW"
    and Q: "\<And>r xs. Q r (w\<lparr>calls := calls w @ xs\<rparr>)"
  shows "wp (xWebsocketStart E (Some c)) Q w"
proof -
  from live obtain q where "blocks (clis w) c = Some cl" "cl_config cl = Some q"
    "blocks (cfgs w) q = Some k"
    by (auto simp: client_live_def)
  moreover have "\<not> WEBSOCKET_STATE_INIT \<le> cl_state cl"
    by (simp add: idle less_eq_websocket_client_state_def)
  ultimately show ?thesis
    using Q wp_log_uri [OF live]
    by (simp add: xWebsocketStart_def esp_websocket_client_start_def wp_simps)
qed

text \<open>From a booted state to a live, registered client owned by the application.\<close>

lemma connected_appI:
  assumes boot: "booted items unit_q w" and comp: "client_complete conf cl"
    and p: "client_parts (init_config_spec E conf) (size_t_of_int (init_buffer_size conf)) c w cl v"
    and size: "conf_buffer_size conf < 2 ^ 31"
    and w': "w' = v\<lparr>calls := calls v @ [esp_event_handler_register_with (cl_event_handle cl)
        WEBSOCKET_EVENT_ANY Fn_xWebsocketEventHandler (Some c),
      esp_event_handler_register_with (cl_event_handle cl) WEBSOCKET_EVENT_ANY
        Fn_vWebsocketEventHandler (Some c)] @ xs, xConnectionHandle := Some c\<rparr>"
  shows "connected_app items unit_q E conf w'"
proof -
  have more: "ws_world.more v = ws_world.more w" using p by (simp add: client_parts_def)
  note same = app_more [OF more]
  obtain k where live: "client_live c cl k v" using complete_live [OF p comp size] by blast
  have cfg: "abs_cfg k (blocks (strs v)) = init_config_spec E conf"
    using p live by (auto simp: client_parts_def cfg_part_def cfg_holds_def client_live_def)
  have bp: "buf_part w (size_t_of_int (init_buffer_size conf)) (cl_tx_buffer cl) (cl_rx_buffer cl) v"
    using p by (simp add: client_parts_def)
  have none: "dom (blocks (bufs w)) = {}" "dom (blocks (msgs v)) = {}" "mem_ok (msgs v)"
    using boot same by (auto simp: booted_def)
  have own: "owns c {} v" by (rule complete_owns [OF p comp none])
  from boot obtain q where q: "xMailboxIncomingQueue w = Some q" "unit_q q" "items q = []"
    and rest: "heap_room w" "xAppStateEventGroup w \<noteq> None"
    by (auto simp: booted_def)
  have "heap_room v" using rest(1) bp by (simp add: heap_room_def buf_part_def)
  then have "app_inv items unit_q c w'"
    using q rest(2) own by (intro app_invI [of _ _ q]) (auto simp: w' same heap_room_def owns_handle)
  moreover have "client_live c cl k w'" using live by (simp add: w' client_live_def)
  moreover have "abs_cfg k (blocks (strs w')) = init_config_spec E conf" using cfg by (simp add: w')
  moreover have "\<exists>pre post. calls w' = pre @
       [esp_event_handler_register_with (cl_event_handle cl) WEBSOCKET_EVENT_ANY
          Fn_xWebsocketEventHandler (Some c),
        esp_event_handler_register_with (cl_event_handle cl) WEBSOCKET_EVENT_ANY
          Fn_vWebsocketEventHandler (Some c)] @ post"
    by (intro exI [of _ "calls v"] exI [of _ xs]) (simp add: w')
  moreover have "dom (blocks (msgs w')) = {}" using none(2) by (simp add: w')
  ultimately show ?thesis
    using comp unfolding connected_app_def by blast
qed

lemma wpx_xConnect:
  assumes boot: "booted items unit_q w" and E: "asprintf_null E"
    and url: "url_within (uri params) (snd (http_parser_parse_url E (uri params)))"
    and len: "length (ssid params) < 32" "length (password params) < 64"
  shows "wpx {Aborted, Null_Deref} (xConnect E R evs params) (\<lambda>r w'. case r of
      None \<Rightarrow> booted items unit_q w' \<and> \<not> app_flag R 0 w'
    | Some e \<Rightarrow> connected_app items unit_q E (connection_config params) w' \<and> app_flag R 0 w' \<and>
        app_flag R 1 w' = app_flag R 1 w) w"
    (is "wpx _ _ ?Q w")
proof -
  let ?conf = "connection_config params"
  let ?second = "\<lambda>h. andthen (modify (\<lambda>w. w\<lparr>xConnectionHandle := h\<rparr>))
      (bnd (gets xConnectionHandle) (\<lambda>h.
       bnd (esp_websocket_register_events E h WEBSOCKET_EVENT_ANY Fn_vWebsocketEventHandler h) (\<lambda>_.
       bnd (xWebsocketStart E h) (\<lambda>r. ret (Some r)))))"
  have conf: "conf_transport ?conf \<noteq> WEBSOCKET_TRANSPORT_OVER_TCP" "conf_buffer_size ?conf < 2 ^ 31"
    "\<And>u. conf_uri ?conf = Some u \<Longrightarrow> url_within u (snd (http_parser_parse_url E u))"
    using url by (auto simp: connection_config_def zero_client_config_def)
  have connect: "wpx {Aborted, Null_Deref} (bnd (xWebsocketInitConnection E ?conf) ?second) ?Q v"
    if v: "booted items unit_q v" "app_flag R 0 v" "app_flag R 1 v = app_flag R 1 w" for v
  proof -
    have ok: "mem_ok (clis v)" "mem_ok (cfgs v)" "mem_ok (strs v)" "mem_ok (bufs v)"
      using v(1) by (simp_all add: booted_def)
    have none: "wpx {Aborted, Null_Deref} (bnd (bnd (esp_websocket_register_events E NULL
        WEBSOCKET_EVENT_ANY Fn_xWebsocketEventHandler NULL) (\<lambda>_. ret NULL)) ?second) ?Q u" for u
      by (simp add: wpx_simps esp_websocket_register_events_def wpx_def [of _ "xWebsocketStart _ _"]
          xWebsocketStart_null)
    have some: "wp (bnd (bnd (esp_websocket_register_events E (Some c) WEBSOCKET_EVENT_ANY
        Fn_xWebsocketEventHandler (Some c)) (\<lambda>_. ret (Some c))) ?second) ?Q u"
      if u: "client_complete ?conf cl" "client_parts (init_config_spec E ?conf)
        (size_t_of_int (init_buffer_size ?conf)) c v cl u" for c cl u
    proof -
      obtain k where live: "client_live c cl k u" using complete_live [OF u(2,1) conf(2)] by blast
      let ?reg = "\<lambda>f. esp_event_handler_register_with (cl_event_handle cl) WEBSOCKET_EVENT_ANY f (Some c)"
      let ?u2 = "u\<lparr>xConnectionHandle := Some c,
        calls := calls u @ [?reg Fn_xWebsocketEventHandler, ?reg Fn_vWebsocketEventHandler]\<rparr>"
      have more: "ws_world.more u = ws_world.more v" using u(2) by (simp add: client_parts_def)
      note same = app_more [OF more]
      have live2: "client_live c cl k ?u2" using live by (simp add: client_live_def)
      have idle: "cl_state cl = WEBSOCKET_STATE_UNKNOW" using u(1) by (simp add: client_complete_def)
      have fin: "?Q (Some r) (?u2\<lparr>calls := calls ?u2 @ xs\<rparr>)" for r xs
        using connected_appI [OF v(1) u conf(2), of "?u2\<lparr>calls := calls ?u2 @ xs\<rparr>" xs] v(2,3) same
        by (simp add: app_flag_def)
      have "wp (xWebsocketStart E (Some c)) (\<lambda>r. ?Q (Some r)) ?u2"
        by (rule wp_start_idle [OF live2 idle], rule fin)
      then have "wp (?second (Some c)) ?Q (u\<lparr>calls := calls u @ [?reg Fn_xWebsocketEventHandler]\<rparr>)"
        using live
        by (simp add: wp_simps esp_websocket_register_events_def client_live_def)
      then show ?thesis by (intro wp_register_both [OF live]) simp
    qed
    have "wpx {Aborted, Null_Deref} (esp_websocket_client_init E ?conf) (\<lambda>h. wpx {Aborted, Null_Deref}
        (bnd (bnd (esp_websocket_register_events E h WEBSOCKET_EVENT_ANY Fn_xWebsocketEventHandler h)
          (\<lambda>_. ret h)) ?second) ?Q) v"
    proof (rule wp_imp_wpx, rule wp_mono [OF wp_client_init [OF ok conf(1) E conf(3)]])
      fix h u
      assume h: "case h of None \<Rightarrow> same_structs v u | Some c \<Rightarrow> \<exists>cl. client_complete ?conf cl \<and>
        client_parts (init_config_spec E ?conf) (size_t_of_int (init_buffer_size ?conf)) c v cl u"
      show "wpx {Aborted, Null_Deref} (bnd (bnd (esp_websocket_register_events E h WEBSOCKET_EVENT_ANY
          Fn_xWebsocketEventHandler h) (\<lambda>_. ret h)) ?second) ?Q u"
        using h none some by (cases h) (auto intro: wp_imp_wpx)
    qed
    then show ?thesis by (simp only: xWebsocketInitConnection_def wpx_bnd)
  qed
  have grp: "xAppStateEventGroup w \<noteq> None" using boot by (simp add: booted_def)
  show ?thesis
    unfolding xConnect_def wpx_bnd [of _ "vConnectWifi _ _ _ _ _"]
    by (rule wpx_mono [OF wpa_vConnectWifi [OF grp len]])
      (use boot booted_frame [OF boot] connect in \<open>auto simp: wpx_ret\<close>)
qed

text \<open>
  The start: from zeroed globals and an empty heap, the state before a connection, with both
  flags clear, and the three tasks created in this order.
\<close>

lemma wp_app_main:
  assumes q: "xQueueCreate (queues R) 1 \<noteq> None" and g: "new_event_group (groups R) \<noteq> None"
    and mem: "mem_ok (strs w)" "mem_ok (cfgs w)" "mem_ok (clis w)" "mem_ok (bufs w)" "mem_ok (msgs w)"
      "dom (blocks (bufs w)) = {}" "dom (blocks (msgs w)) = {}" "heap_room w"
  shows "wp (app_main E R) (\<lambda>_ w'. booted items unit_q w' \<and> \<not> app_flag R 0 w' \<and> \<not> app_flag R 1 w' \<and>
    calls w' = calls w @ [xTaskCreate_app ''vTaskCommunication'' 4096 1,
      xTaskCreate_app ''vTaskHeartbeat'' 4096 1, xTaskCreate_app ''vTaskGPIO'' 4096 2]) w"
    (is "wp _ ?Q w")
proof -
  obtain g0 where g0: "new_event_group (groups R) = Some g0" using g by auto
  note zero = ev.get_new [OF g0]
  let ?tasks = "[xTaskCreate_app ''vTaskCommunication'' 4096 1,
      xTaskCreate_app ''vTaskHeartbeat'' 4096 1, xTaskCreate_app ''vTaskGPIO'' 4096 2]"
  have "wp (vMailboxInit R) (\<lambda>_ v. ?Q () (v\<lparr>xAppStateEventGroup := Some g0, calls := calls v @ ?tasks\<rparr>)) w"
  proof (rule wp_mono [OF wp_mailbox_init [OF q]], elim exE conjE)
    fix v qi qo
    assume "unit_q qi" "items qi = []"
      and v: "v = w\<lparr>xMailboxIncomingQueue := Some qi, xMailboxOutcomingQueue := Some qo\<rparr>"
    then show "?Q () (v\<lparr>xAppStateEventGroup := Some g0, calls := calls v @ ?tasks\<rparr>)"
      using mem zero unfolding v by (simp add: booted_def app_flag_def heap_room_def)
  qed
  then show ?thesis
    unfolding app_main_def wp_andthen [of "vMailboxInit R"]
    by (rule wp_mono) (auto simp: wp_simps g0)
qed

end

text \<open>With every call successful the network's connection is the wait alone.\<close>

lemma vConnectWifi_ok:
  assumes "\<And>cs x. r_int E cs x = ESP_OK" and "length name < 32" and "length pw < 64"
  shows "vConnectWifi E R evs name pw w = wait_network E R evs (w\<lparr>calls := calls w @ [nvs_flash_init,
    tcpip_adapter_init, esp_event_loop_init, esp_wifi_init, esp_wifi_set_storage_RAM,
    esp_wifi_set_mode_STA, esp_wifi_set_config name pw, esp_wifi_start]\<rparr>)"
  using assms by (simp add: vConnectWifi_def vInitNVM_def run_simps strcpy_into_def
      ESP_ERR_NVS_NO_FREE_PAGES_def ESP_ERR_NVS_NEW_VERSION_FOUND_def)

subsection \<open>Properties\<close>


text \<open>The state before the start: zeroed globals and empty heaps.\<close>

definition power_on :: "(ptr list_queue, event_bits) app_world" where
  "power_on = \<lparr>strs = empty_mem (\<lambda>_ _. True), cfgs = empty_mem (\<lambda>_ _. True),
     clis = empty_mem (\<lambda>_ _. True), bufs = empty_mem (\<lambda>_ n. n < 2 ^ 31), calls = [],
     msgs = empty_mem (\<lambda>_ _. True), xMailboxIncomingQueue = None, xMailboxOutcomingQueue = None,
     xAppStateEventGroup = None, xConnectionHandle = NULL\<rparr>"

lemma power_on_booted:
  "booted lq_items list_queue_unit (power_on\<lparr>xMailboxIncomingQueue := Some \<lparr>lq_items = [], lq_cap = 1\<rparr>,
     xAppStateEventGroup := Some 0\<rparr>)"
  by (simp add: booted_def power_on_def heap_room_def list_queue_unit_def empty_mem_def mem_ok_def)

lemma calm_url: "asprintf_null calm_env"
  "url_within (uri xC11nTaskParams) (snd (http_parser_parse_url calm_env (uri xC11nTaskParams)))"
  by (simp_all add: calm_env_def demo_env_def url_within_def xC11nTaskParams_def)


text \<open>Property C35. If there is no memory for the client, the connection dereferences NULL: the handle
  that \<open>xWebsocketInitConnection\<close> returns is used without a check.\<close>

theorem connect_without_client:
  assumes "app_rtos R items capacity unit_q" and "xAppStateEventGroup w \<noteq> None"
    and "\<And>cs x. r_int E cs x = ESP_OK"
    and "length (ssid params) < 32" and "length (password params) < 64"
    and "\<exists>k \<le> length evs. network_flag (app_flag R 0 w) (take k evs)"
    and "\<not> plan (clis w) (next_addr (clis w)) sizeof_client"
  shows "xConnect E R evs params w = Inl Null_Deref"
proof -
  obtain cs where up: "vConnectWifi E R evs (ssid params) (password params) w =
      wait_network E R evs (w\<lparr>calls := cs\<rparr>)"
    using vConnectWifi_ok [OF assms(3-5)] by blast
  have "wp (wait_network E R evs) (\<lambda>r w'. wifi_frame (w\<lparr>calls := cs\<rparr>) w' \<and>
    r = (\<exists>k \<le> length evs. network_flag (app_flag R 0 (w\<lparr>calls := cs\<rparr>)) (take k evs)) \<and>
    r = app_flag R 0 w' \<and> app_flag R 1 w' = app_flag R 1 (w\<lparr>calls := cs\<rparr>)) (w\<lparr>calls := cs\<rparr>)"
    by (rule app_rtos.wp_wait_network [OF assms(1)]) (simp add: assms(2))
  moreover have "app_flag R 0 (w\<lparr>calls := cs\<rparr>) = app_flag R 0 w" by (simp add: app_flag_def)
  ultimately obtain v where v: "wait_network E R evs (w\<lparr>calls := cs\<rparr>) = Inr (True, v)" "clis v = clis w"
    using assms(6) by (auto dest!: wp_runD simp: wifi_frame_def)
  have init: "xWebsocketInitConnection E conf v =
      Inr (NULL, v\<lparr>clis := (clis v)\<lparr>next_addr := Suc (next_addr (clis v))\<rparr>\<rparr>)" for conf
    using assms(7) v(2) by (simp add: xWebsocketInitConnection_def esp_websocket_client_init_def
        esp_websocket_register_events_def run_simps mem_alloc_def)
  show ?thesis
    by (simp add: xConnect_def run_bnd up v(1) run_if init run_andthen run_modify run_gets run_ret
        esp_websocket_register_events_def xWebsocketStart_null)
qed

theorem connect_without_client_witness:
  "xConnect calm_env list_rtos [SYSTEM_EVENT_STA_GOT_IP] xC11nTaskParams
    (power_on\<lparr>clis := empty_mem (\<lambda>_ _. False), xAppStateEventGroup := Some 0\<rparr>) = Inl Null_Deref"
  by (rule connect_without_client [OF lr.app_rtos_axioms])
    (auto simp: xC11nTaskParams_def calm_env_def empty_mem_def power_on_def intro!: exI [of _ 1])

text \<open>The firmware starts: \<open>app_main\<close> from zeroed globals, followed by the connection of the
  communication task with the program's own parameters, never faults other than by an abort or
  for lack of memory for the client; when it connects, the client and the application satisfy
  the invariant under which the tasks run.\<close>

theorem boot_connects:
  assumes "app_rtos R items capacity unit_q" and "xQueueCreate (queues R) 1 \<noteq> None"
    and "new_event_group (groups R) \<noteq> None" and "mem_ok (strs w)" and "mem_ok (cfgs w)"
    and "mem_ok (clis w)" and "mem_ok (bufs w)" and "mem_ok (msgs w)"
    and "dom (blocks (bufs w)) = {}" and "dom (blocks (msgs w)) = {}" and "heap_room w"
    and "asprintf_null E"
    and "url_within (uri xC11nTaskParams) (snd (http_parser_parse_url E (uri xC11nTaskParams)))"
  shows "wpx {Aborted, Null_Deref} (andthen (app_main E R) (xConnect E R evs xC11nTaskParams)) (\<lambda>r w'.
    case r of
      None \<Rightarrow> booted items unit_q w' \<and> \<not> app_flag R 0 w'
    | Some e \<Rightarrow> connected_app items unit_q E (connection_config xC11nTaskParams) w' \<and> app_flag R 0 w' \<and>
        \<not> app_flag R 1 w') w"
proof -
  have len: "length (ssid xC11nTaskParams) < 32" "length (password xC11nTaskParams) < 64"
    by (simp_all add: xC11nTaskParams_def)
  show ?thesis
    unfolding wpx_andthen
  proof (rule wp_imp_wpx, rule wp_mono [OF app_rtos.wp_app_main [OF assms(1-11)]], elim conjE)
    fix v
    assume "booted items unit_q v" "\<not> app_flag R 1 v"
    then show "wpx {Aborted, Null_Deref} (xConnect E R evs xC11nTaskParams) (\<lambda>r w'. case r of
        None \<Rightarrow> booted items unit_q w' \<and> \<not> app_flag R 0 w'
      | Some e \<Rightarrow> connected_app items unit_q E (connection_config xC11nTaskParams) w' \<and> app_flag R 0 w' \<and>
          \<not> app_flag R 1 w') v"
      by (intro wpx_mono [OF app_rtos.wpx_xConnect [OF assms(1) _ assms(12,13) len]])
        (auto split: option.splits)
  qed
qed

theorem boot_connects_witness:
  "wpx {Aborted, Null_Deref} (andthen (app_main calm_env list_rtos)
      (xConnect calm_env list_rtos [SYSTEM_EVENT_STA_GOT_IP] xC11nTaskParams)) (\<lambda>r w'.
    case r of
      None \<Rightarrow> booted lq_items list_queue_unit w' \<and> \<not> app_flag list_rtos 0 w'
    | Some e \<Rightarrow> connected_app lq_items list_queue_unit calm_env (connection_config xC11nTaskParams) w' \<and>
        app_flag list_rtos 0 w' \<and> \<not> app_flag list_rtos 1 w') power_on"
  by (rule boot_connects [OF lr.app_rtos_axioms _ _ _ _ _ _ _ _ _ _ calm_url])
    (simp_all add: power_on_def list_rtos_def list_queue_ops_def word_events_ops_def heap_room_def
      empty_mem_def mem_ok_def)

end
