(* ===== verification/System.thy ===== *)
theory System
  imports Connect Transitions
begin

text \<open>
  The firmware as a whole: the passes of its tasks in any order, as a step relation. The
  tasks are the client's task with the program's event handlers, the GPIO endpoint, the
  heartbeat, the idle loop of the communication task, and the handler of the system events.
  The lemmas show that no order of passes faults, that the invariant of the application
  holds in every reachable state, that the connection follows its state machine, and
  that the flag of the server shows its state.
\<close>

subsection \<open>The step relation\<close>

datatype ws_phase = Ws_created | Ws_looping | Ws_deleted

type_synonym ('q, 'g) sys = "ws_phase \<times> (fault + ('q, 'g) app_world)"

definition outcome :: "fault + ('a \<times> 'w) \<Rightarrow> fault + 'w" where
  "outcome r = (case r of Inl f \<Rightarrow> Inl f | Inr (_, w) \<Rightarrow> Inr w)"

text \<open>One pass of the loop of the client's task, and the task's end once the loop is over.\<close>

definition ws_round :: "'a ws_env \<Rightarrow> ptr \<Rightarrow> ('a, bool) ws_act" where
  "ws_round E client = bnd (task_loop 1 E client) (\<lambda>ended.
     andthen (when_do ended (andthen (task_signal_stopped client) (task_exit client))) (ret ended))"

definition round_phase :: "fault + (bool \<times> 'w) \<Rightarrow> ws_phase" where
  "round_phase r = (case r of Inr (True, _) \<Rightarrow> Ws_deleted | _ \<Rightarrow> Ws_looping)"

inductive sys_step :: "('q, 'g) app_world env \<Rightarrow> ('q, 'g) rtos \<Rightarrow> nat \<Rightarrow> ('q, 'g) sys \<Rightarrow>
  ('q, 'g) sys \<Rightarrow> bool" for E R c where
  ws_begins: "sys_step E R c (Ws_created, Inr w)
    (Ws_looping, outcome (task_prologue (with_handlers E R (app_handlers c)) (Some c) w))"
| ws_passes: "ws_round (with_handlers E R (app_handlers c)) (Some c) w = r \<Longrightarrow>
    sys_step E R c (Ws_looping, Inr w) (round_phase r, outcome r)"
| gpio_passes: "sys_step E R c (ph, Inr w) (ph, outcome (gpio_pass E R w))"
| heartbeat_passes: "sys_step E R c (ph, Inr w) (ph, outcome (heartbeat_pass R w))"
| idle_passes: "sys_step E R c (ph, Inr w) (ph, outcome (ext_do (vTaskDelay 1) w))"
| system_event: "sys_step E R c (ph, Inr w) (ph, outcome (xEventHandler E R ev w))"

subsection \<open>The invariant and the connection's state machine\<close>

text \<open>A GPIO message in the mailbox has a body of two bytes.\<close>

definition bodies_ok :: "('q \<Rightarrow> ptr list) \<Rightarrow> ('q, 'g) app_world \<Rightarrow> bool" where
  "bodies_ok items w \<longleftrightarrow> (\<forall>q a m. xMailboxIncomingQueue w = Some q \<longrightarrow> Some a \<in> set (items q) \<longrightarrow>
     blocks (msgs w) a = Some (Some m) \<longrightarrow> endpointId m = GPIO_ENDPOINT_ID \<longrightarrow> gpio_acc m)"

definition sys_inv :: "('q \<Rightarrow> ptr list) \<Rightarrow> ('q \<Rightarrow> bool) \<Rightarrow> nat \<Rightarrow> ('q, 'g) sys \<Rightarrow> bool" where
  "sys_inv items unit_q c s \<longleftrightarrow> (\<exists>ph w cl k. s = (ph, Inr w) \<and> client_live c cl k w \<and>
     app_inv items unit_q c w \<and> bodies_ok items w \<and> (ph = Ws_looping \<longrightarrow> loop_state (cl_state cl)))"

definition sys_init :: "('q \<Rightarrow> ptr list) \<Rightarrow> ('q \<Rightarrow> bool) \<Rightarrow> nat \<Rightarrow> ('q, 'g) sys \<Rightarrow> bool" where
  "sys_init items unit_q c s \<longleftrightarrow> sys_inv items unit_q c s \<and> fst s = Ws_created"

text \<open>
  The flag of the server is set exactly while the task is in its loop with the connection up,
  and only for a client that runs.
\<close>

definition flag_ok :: "ws_phase \<Rightarrow> esp_websocket_client \<Rightarrow> bool \<Rightarrow> bool" where
  "flag_ok ph cl b \<longleftrightarrow> (b \<longleftrightarrow> ph = Ws_looping \<and> cl_state cl = WEBSOCKET_STATE_CONNECTED) \<and> (b \<longrightarrow> cl_run cl)"

definition server_ok :: "('q, 'g) rtos \<Rightarrow> nat \<Rightarrow> ('q, 'g) sys \<Rightarrow> bool" where
  "server_ok R c s \<longleftrightarrow> (\<exists>ph w cl. s = (ph, Inr w) \<and> blocks (clis w) c = Some cl \<and>
     flag_ok ph cl (app_flag R 1 w))"

text \<open>The phase of the task and the state of the connection.\<close>

inductive conn_step :: "ws_phase \<times> websocket_client_state \<Rightarrow> ws_phase \<times> websocket_client_state \<Rightarrow> bool"
where
  conn_begin: "conn_step (Ws_created, st) (Ws_looping, WEBSOCKET_STATE_INIT)"
| conn_move: "state_edge st st' \<Longrightarrow> conn_step (Ws_looping, st) (Ws_looping, st')"
| conn_end: "conn_step (Ws_looping, st) (Ws_deleted, WEBSOCKET_STATE_UNKNOW)"

definition conn_abs :: "nat \<Rightarrow> ('q, 'g) sys \<Rightarrow> ws_phase \<times> websocket_client_state" where
  "conn_abs c s = (fst s, case snd s of
       Inr w \<Rightarrow> (case blocks (clis w) c of Some cl \<Rightarrow> cl_state cl | None \<Rightarrow> WEBSOCKET_STATE_UNKNOW)
     | Inl _ \<Rightarrow> WEBSOCKET_STATE_UNKNOW)"

lemma sys_invI:
  "client_live c cl k w \<Longrightarrow> app_inv items unit_q c w \<Longrightarrow> bodies_ok items w \<Longrightarrow>
   (ph = Ws_looping \<Longrightarrow> loop_state (cl_state cl)) \<Longrightarrow> sys_inv items unit_q c (ph, Inr w)"
  by (auto simp: sys_inv_def)

lemma outcome_wp: "wp m (\<lambda>x v. P (Inr v)) w \<Longrightarrow> P (outcome (m w))"
  by (auto simp: outcome_def wp_def split: sum.splits)

lemma bodies_ok_same:
  "xMailboxIncomingQueue w' = xMailboxIncomingQueue w \<Longrightarrow> blocks (msgs w') = blocks (msgs w) \<Longrightarrow>
   bodies_ok items w' = bodies_ok items w"
  by (simp add: bodies_ok_def)

lemma read_contract_mono: "read_contract m E \<Longrightarrow> n \<le> m \<Longrightarrow> read_contract n E"
  unfolding read_contract_def by (meson order_trans)

lemma loop_state_edge: "loop_state st \<Longrightarrow> state_edge st st' \<Longrightarrow> loop_state st'"
  by (cases st; cases st') (auto simp: loop_state_def less_eq_websocket_client_state_def)

lemma loop_state_init: "loop_state WEBSOCKET_STATE_INIT"
  by (simp add: loop_state_def)

subsection \<open>The firmware\<close>

text \<open>
  The hypotheses on what is not the program's own: the queues and event groups of FreeRTOS,
  and a transport that writes no more than it is given and delivers no message of fewer than
  five bytes, a header and two bytes of body.
\<close>

locale firmware = app_rtos R items capacity unit_q
  for R :: "('q, 'g) rtos" and items :: "'q \<Rightarrow> ptr list" and capacity unit_q +
  fixes E :: "('q, 'g) app_world env" and c :: nat
  assumes writes: "write_contract E" and reads: "read_contract 5 E"

sublocale firmware \<subseteq> ep: endpoint R items capacity unit_q c GPIO_ENDPOINT_ID gpio_acc "vMessageHandler E"
  by (rule gpio_endpoint [OF app_rtos_axioms writes])

context firmware
begin

lemma acceptable_bodies: "ep.acceptable w = bodies_ok items w"
  by (simp add: ep.acceptable_def bodies_ok_def)

text \<open>The invariant the events keep, with the flag of the server as its index.\<close>

definition fw_state :: "bool \<Rightarrow> ('q, 'g) app_world \<Rightarrow> bool" where
  "fw_state b w \<longleftrightarrow> app_state R items unit_q c b w \<and> bodies_ok items w"

text \<open>Data of at least five bytes keeps the bodies long enough.\<close>

lemma wp_event_bodies:
  assumes live: "client_live c cl k w" and inv: "fw_state b w"
    and d: "ev = WEBSOCKET_EVENT_DATA \<longrightarrow> data_ptr d = cl_rx_buffer cl \<and> 5 \<le> data_len d \<and>
      data_len d \<le> cl_buffer_size cl"
  shows "wp (vWebsocketEventHandler E R ev d) (\<lambda>_ w'. client_live c cl k w' \<and>
    fw_state (server_flag ev b) w' \<and> strs w' = strs w \<and> (\<exists>xs. calls w' = calls w @ xs)) w"
proof -
  have app: "app_inv items unit_q c w" and flag: "app_flag R 1 w = b" and bod: "bodies_ok items w"
    using inv by (simp_all add: fw_state_def app_state_def)
  have "wp (vWebsocketEventHandler E R ev d) (\<lambda>_ w'. client_live c cl k w' \<and> app_inv items unit_q c w' \<and>
      app_flag R 1 w' = server_flag ev (app_flag R 1 w) \<and> strs w' = strs w \<and>
      (\<exists>xs. calls w' = calls w @ xs)) w"
    by (rule wp_vWebsocketEventHandler [OF writes live app]) (use d in auto)
  moreover have "wp (vWebsocketEventHandler E R ev d) (\<lambda>_. bodies_ok items) w"
  proof (cases "ev = WEBSOCKET_EVENT_DATA")
    case False
    with app have "vWebsocketEventHandler E R ev d w = Inr ((), w) \<or>
        (\<exists>g. vWebsocketEventHandler E R ev d w = Inr ((), w\<lparr>xAppStateEventGroup := Some g\<rparr>))"
      by (cases ev) (auto simp: vWebsocketEventHandler_def run_simps app_inv_def)
    with bod show ?thesis by (auto simp: wp_def bodies_ok_def)
  next
    case True
    have l: "linked c cl k w" using live app by (simp add: linked_def app_inv_def)
    from live obtain r rs where rs: "cl_rx_buffer cl = Some r" "blocks (bufs w) r = Some rs"
      by (rule live_bufs)
    have "wp (sendDataToMailboxIncoming E R d) (\<lambda>_. bodies_ok items) w"
    proof (rule wp_sendData [OF writes l app _ _ _ rs])
      fix w' :: "('q, 'g) app_world"
      assume "\<not> plan (msgs w) (next_addr (msgs w)) sizeof_message \<and>
          xMailboxIncomingQueue w' = xMailboxIncomingQueue w \<and> blocks (msgs w') = blocks (msgs w) \<or>
        plan (msgs w) (next_addr (msgs w)) sizeof_message \<and>
        (\<exists>q a b. xMailboxIncomingQueue w' = Some q \<and> items q = [Some a] \<and> blocks (msgs w) a = None \<and>
           blocks (msgs w') a = Some (Some (decoded E rs (data_len d) b)) \<and>
           blocks (bufs w') b = Some (take (nat (data_len d - 3)) (drop 3 rs)))"
      then show "bodies_ok items w'"
      proof (elim disjE conjE exE)
        show "bodies_ok items w'" if "xMailboxIncomingQueue w' = xMailboxIncomingQueue w"
          "blocks (msgs w') = blocks (msgs w)"
          using bod bodies_ok_same [OF that] by simp
        show "bodies_ok items w'" if "xMailboxIncomingQueue w' = Some q" "items q = [Some a]"
          "blocks (msgs w') a = Some (Some (decoded E rs (data_len d) x))" for q a x
          using that d True by (simp add: bodies_ok_def decoded_def)
      qed
    qed (use True d in auto)
    with True show ?thesis by (simp add: vWebsocketEventHandler_def)
  qed
  ultimately show ?thesis
    using flag by (auto simp: wp_def fw_state_def app_state_def split: sum.splits)
qed

lemma firmware_events: "ws_events (with_handlers E R (app_handlers c)) c fw_state server_flag 5"
proof -
  let ?E = "with_handlers E R (app_handlers c)"
  have base: "ws_events ?E c (app_state R items unit_q c) server_flag 4"
    by (rule app_ws_events [OF writes]) (rule read_contract_mono [OF reads], simp)
  show "ws_events ?E c fw_state server_flag 5"
  proof
    show "read_contract 5 ?E" using reads by (simp add: read_contract_def with_handlers_def)
    show "fw_state b (w\<lparr>calls := cs\<rparr>) = fw_state b w" and "fw_state b (w\<lparr>cfgs := h\<rparr>) = fw_state b w"
      for b and w :: "('q, 'g) app_world" and cs h
      using ws_events.calls_frame [OF base] ws_events.cfgs_frame [OF base]
      by (simp_all add: fw_state_def bodies_ok_def)
    show "server_flag WEBSOCKET_EVENT_DATA b = b" for b by simp
    show "fw_state b (w\<lparr>clis := (clis w)\<lparr>blocks := (blocks (clis w))(c \<mapsto> cl')\<rparr>\<rparr>)"
      if "client_live c cl k w" "same_client cl cl'" "fw_state b w"
      for b cl k cl' and w :: "('q, 'g) app_world"
      using ws_events.client_frame [OF base that(1,2)] that(3) by (simp add: fw_state_def bodies_ok_def)
    show "fw_state f (w\<lparr>bufs := (bufs w)\<lparr>blocks := (blocks (bufs w))(b \<mapsto> bs)\<rparr>\<rparr>)"
      if "client_live c cl k w" "cl_rx_buffer cl = Some b" "fw_state f w"
        "length bs = nat (cl_buffer_size cl)" for f cl k b bs and w :: "('q, 'g) app_world"
      using ws_events.rx_frame [OF base that(1,2) _ that(4)] that(3)
      by (simp add: fw_state_def bodies_ok_def)
    show "wp (deliver ?E (cl_event_handle cl) ev d) (\<lambda>_ w'. client_live c cl k w' \<and>
        fw_state (server_flag ev b) w' \<and> strs w' = strs w \<and> (\<exists>xs. calls w' = calls w @ xs)) w"
      if "client_live c cl k w" "fw_state b w"
        "ev = WEBSOCKET_EVENT_DATA \<longrightarrow> data_ptr d = cl_rx_buffer cl \<and> 0 < data_len d \<and>
          5 \<le> data_len d \<and> data_len d \<le> cl_buffer_size cl" for b cl k ev d and w :: "('q, 'g) app_world"
    proof -
      have "wp (vWebsocketEventHandler E R ev d) (\<lambda>_ w'. client_live c cl k w' \<and>
          fw_state (server_flag ev b) w' \<and> strs w' = strs w \<and> (\<exists>xs. calls w' = calls w @ xs)) w"
        by (rule wp_event_bodies) (use that in auto)
      then show ?thesis
        by (simp add: with_handlers_def run_handler_def wp_andthen wp_ws_handler [OF that(1)] wp_ret)
    qed
  qed
qed

end

sublocale firmware \<subseteq> ws: ws_events "with_handlers E R (app_handlers c)" c fw_state server_flag 5
  by (rule firmware_events)

context firmware
begin

lemma ready_iff: "ws.ready b cl k w \<longleftrightarrow> client_live c cl k w \<and> app_inv items unit_q c w \<and>
    bodies_ok items w \<and> app_flag R 1 w = b"
  by (auto simp: ws.ready_def fw_state_def app_state_def)

lemma ready_group: "ws.ready b cl k w \<Longrightarrow> \<exists>g. xAppStateEventGroup w = Some g"
  by (drule ready_iff [THEN iffD1], elim conjE) (auto simp: app_inv_def)

lemma posts_ok_handlers [simp]: "posts_ok (with_handlers E R hs) = posts_ok E"
  by (simp add: posts_ok_def with_handlers_def)

text \<open>
  A step, on a state that satisfies the invariant, in the ways the phase and the connection
  can move; the flag of the server moves with them if the event queue takes every event.
\<close>

definition moves :: "ws_phase \<Rightarrow> bool \<Rightarrow> esp_websocket_client \<Rightarrow>
  ws_phase \<times> (fault + ('q, 'g) app_world) \<Rightarrow> bool" where
  "moves ph b cl t \<longleftrightarrow> (\<exists>ph' w' b' cl' k'. t = (ph', Inr w') \<and> ws.ready b' cl' k' w' \<and>
     (ph' = ph \<and> cl_state cl' = cl_state cl \<or>
      conn_step (ph, cl_state cl) (ph', cl_state cl')) \<and>
     (posts_ok E \<longrightarrow> flag_ok ph cl b \<longrightarrow> flag_ok ph' cl' b'))"

lemma movesI:
  "ws.ready b' cl' k' w' \<Longrightarrow>
   ph' = ph \<and> cl_state cl' = cl_state cl \<or> conn_step (ph, cl_state cl) (ph', cl_state cl') \<Longrightarrow>
   (posts_ok E \<Longrightarrow> flag_ok ph cl b \<Longrightarrow> flag_ok ph' cl' b') \<Longrightarrow> moves ph b cl (ph', Inr w')"
  by (auto simp: moves_def)

lemma begin_moves:
  assumes "ws.ready b cl k w"
  shows "moves Ws_created b cl
    (Ws_looping, outcome (task_prologue (with_handlers E R (app_handlers c)) (Some c) w))"
proof (rule outcome_wp, rule ws.wp_prologue [OF assms])
  let ?spec = "prologue_spec (with_handlers E R (app_handlers c)) (cfg_strings k (blocks (strs w)) F_scheme) k
    (calls w) cl"
  fix v
  assume v: "case ?spec of (d, k', cs) \<Rightarrow> ws.ready b d k' v \<and> calls v = cs"
  obtain d k' cs where spec: "?spec = (d, k', cs)" by (metis prod_cases3)
  then have d: "cl_state d = WEBSOCKET_STATE_INIT" by (auto simp: prologue_spec_def Let_def split: if_splits)
  have "ws.ready b d k' v" using v spec by simp
  then show "moves Ws_created b cl (Ws_looping, Inr v)"
    by (rule movesI) (auto simp: d flag_ok_def intro: conn_begin)
qed

text \<open>What a pass of the loop does to the flag.\<close>

lemma pass_flag:
  assumes b: "flag_ok Ws_looping cl b" and run: "cl_run cl"
    and seen: "ws.seen (cl_state cl) (cl_state (fst (pass_spec F host k cs cl))) b b'" and ok: "posts_ok E"
  shows "flag_ok Ws_looping (fst (pass_spec F host k cs cl)) b'"
proof -
  let ?d = "fst (pass_spec F host k cs cl)"
  have up: "cl_run ?d" if "cl_state ?d = WEBSOCKET_STATE_CONNECTED"
    using that run by (cases "cl_state cl") (auto simp: pass_defs Let_def split: if_splits prod.splits)
  have "b' = conn_obs server_flag (cl_state cl) (cl_state ?d) b"
    using seen ok by (simp add: ws.seen_def)
  moreover have "state_edge (cl_state cl) (cl_state ?d)" by (rule pass_spec_edge)
  ultimately show ?thesis
    using b up by (cases "cl_state cl"; cases "cl_state ?d") (auto simp: flag_ok_def conn_obs_def)
qed

lemma round_moves:
  assumes r: "ws.ready b cl k w"
  shows "wp (ws_round (with_handlers E R (app_handlers c)) (Some c)) (\<lambda>ended v.
    moves Ws_looping b cl (if ended then Ws_deleted else Ws_looping, Inr v)) w"
proof -
  let ?E = "with_handlers E R (app_handlers c)"
  let ?Q = "\<lambda>ended v. moves Ws_looping b cl (if ended then Ws_deleted else Ws_looping, Inr v)"
  let ?tail = "\<lambda>ended. andthen (when_do ended (andthen (task_signal_stopped (Some c)) (task_exit (Some c)))) (ret ended)"
  have tail: "wp (?tail ended) ?Q v"
    if v: "ws.ready b' d k v" "state_edge (cl_state cl) (cl_state d)" "ended \<longleftrightarrow> \<not> cl_run d"
      "posts_ok E \<Longrightarrow> flag_ok Ws_looping cl b \<Longrightarrow> flag_ok Ws_looping d b'" for b' d ended v
  proof (cases ended)
    case False
    have "?Q False v"
      unfolding if_False by (rule movesI [OF v(1)]) (use v(2,4) in \<open>auto intro: conn_move\<close>)
    with False show ?thesis by (simp add: wp_andthen when_do_def wp_ret)
  next
    case True
    have "wp (andthen (task_signal_stopped (Some c)) (task_exit (Some c))) (\<lambda>_. ?Q True) v"
    proof (rule ws.wp_task_end [OF v(1)])
      show "?Q True u" if "ws.ready b' (d\<lparr>cl_state := WEBSOCKET_STATE_UNKNOW\<rparr>) k u" for u
        unfolding if_True
        by (rule movesI [OF that]) (use v(3,4) True in \<open>auto simp: flag_ok_def intro: conn_end\<close>)
    qed
    with True show ?thesis by (simp add: wp_andthen when_do_def wp_ret)
  qed
  have stay: "state_edge (cl_state cl) (cl_state cl)" by (cases "cl_state cl") simp_all
  have last: "wp (task_loop 0 ?E (Some c)) (\<lambda>ended. wp (?tail ended) ?Q) v"
    if v: "ws.ready b' d k v" "state_edge (cl_state cl) (cl_state d)"
      "posts_ok E \<Longrightarrow> flag_ok Ws_looping cl b \<Longrightarrow> flag_ok Ws_looping d b'" for b' d v
    by (subst ws.run_loop, rule ws.wp_ready_load [OF v(1)])
      (use tail [OF v(1,2) refl v(3)] in \<open>auto simp: wp_ret\<close>)
  show ?thesis
    unfolding ws_round_def wp_bnd One_nat_def
  proof (subst ws.run_loop, rule ws.wp_ready_load [OF r], cases "cl_run cl")
    case False
    then show "wp (if \<not> cl_run cl then ret True else (case Suc 0 of 0 \<Rightarrow> ret False
        | Suc m \<Rightarrow> andthen (task_iteration ?E (Some c)) (task_loop m ?E (Some c)))) (\<lambda>ended. wp (?tail ended) ?Q) w"
      using tail [OF r stay] by (simp add: wp_ret)
  next
    case True
    have "wp (task_iteration ?E (Some c)) (\<lambda>_. wp (task_loop 0 ?E (Some c)) (\<lambda>ended. wp (?tail ended) ?Q)) w"
      by (rule ws.wp_iteration [OF r], rule last, assumption, rule pass_spec_edge,
          rule pass_flag [OF _ True], assumption+)
    with True show "wp (if \<not> cl_run cl then ret True else (case Suc 0 of 0 \<Rightarrow> ret False
        | Suc m \<Rightarrow> andthen (task_iteration ?E (Some c)) (task_loop m ?E (Some c)))) (\<lambda>ended. wp (?tail ended) ?Q) w"
      by (simp add: wp_andthen [of "task_iteration _ _"])
  qed
qed

text \<open>The other tasks touch neither the client nor the flag of the server.\<close>

lemma same_moves: "ws.ready b cl k v \<Longrightarrow> moves ph b cl (ph, Inr v)"
  by (erule movesI) auto

lemma gpio_moves:
  assumes "ws.ready b cl k w"
  shows "moves ph b cl (ph, outcome (gpio_pass E R w))"
proof (rule outcome_wp)
  have r: "client_live c cl k w" "app_inv items unit_q c w" "ep.acceptable w" "app_flag R 1 w = b"
    using assms by (simp_all add: ready_iff acceptable_bodies)
  have step: "bodies_ok items (v\<lparr>calls := cs\<rparr>) = bodies_ok items v" for v :: "('q, 'g) app_world" and cs
    by (simp add: bodies_ok_def)
  show "wp (gpio_pass E R) (\<lambda>_ v. moves ph b cl (ph, Inr v)) w"
    unfolding gpio_pass_def wp_andthen
    by (rule wp_mono [OF ep.wp_endpoint_receive [OF r(1-3)]])
      (use r(4) in \<open>auto simp: wp_ext step acceptable_bodies ready_iff app_flag_def intro!: same_moves [of _ _ k]\<close>)
qed

lemma wifi_ready:
  assumes r: "ws.ready b cl k w" and f: "wifi_frame w v" and flag: "app_flag R 1 v = app_flag R 1 w"
  shows "ws.ready b cl k v"
proof -
  have live: "client_live c cl k w" and inv: "app_inv items unit_q c w" and bod: "bodies_ok items w"
    and old: "app_flag R 1 w = b"
    using r by (simp_all add: ready_iff)
  have "client_live c cl k v" using live f by (simp add: wifi_frame_def client_live_def)
  moreover have "app_inv items unit_q c v"
  proof -
    from inv obtain q where q: "xMailboxIncomingQueue w = Some q" "unit_q q" "NULL \<notin> set (items q)"
      "owns c {a. Some a \<in> set (items q)} w"
      by (auto simp: app_inv_def)
    have "client_bufs c v = client_bufs c w" using f by (simp add: client_bufs_def wifi_frame_def)
    then have "owns c {a. Some a \<in> set (items q)} v"
      using f q(4) by (intro owns_client_cong [OF q(4)]) (auto simp: wifi_frame_def owns_def)
    with inv q f show ?thesis
      by (intro app_invI [of _ _ q]) (auto simp: wifi_frame_def app_inv_def heap_room_def)
  qed
  moreover have "bodies_ok items v" using bod f by (simp add: wifi_frame_def bodies_ok_def)
  ultimately show ?thesis using flag old by (simp add: ready_iff)
qed

lemma event_moves:
  assumes r: "ws.ready b cl k w"
  shows "moves ph b cl (ph, outcome (xEventHandler E R ev w))"
proof (rule outcome_wp)
  from ready_group [OF r] obtain g where g: "xAppStateEventGroup w = Some g" ..
  show "wp (xEventHandler E R ev) (\<lambda>_ v. moves ph b cl (ph, Inr v)) w"
    by (rule wp_mono [OF wp_xEventHandler [OF g]]) (blast intro: same_moves wifi_ready [OF r])
qed

lemma heartbeat_moves:
  assumes r: "ws.ready b cl k w"
  shows "moves ph b cl (ph, outcome (heartbeat_pass R w))"
    and "moves ph b cl (ph, outcome (ext_do (vTaskDelay 1) w))"
proof -
  have "xAppStateEventGroup w \<noteq> None" using ready_group [OF r] by auto
  from run_heartbeat_pass [OF this, of R] r show "moves ph b cl (ph, outcome (heartbeat_pass R w))"
    by (auto simp: outcome_def intro!: same_moves [of _ _ k])
  show "moves ph b cl (ph, outcome (ext_do (vTaskDelay 1) w))"
    using r by (auto simp: outcome_def ext_do_def intro!: same_moves [of _ _ k])
qed

text \<open>Every step is a move.\<close>

lemma sys_step_moves:
  assumes "sys_step E R c (ph, Inr w) t" and r: "ws.ready b cl k w"
  shows "moves ph b cl t"
  using assms(1)
proof (cases rule: sys_step.cases)
  case (ws_passes r')
  with round_moves [OF r] show "moves ph b cl t"
    by (auto simp: wp_def outcome_def round_phase_def split: sum.splits if_splits)
qed (use begin_moves [OF r] gpio_moves [OF r] heartbeat_moves [OF r] event_moves [OF r] in auto)

lemma moves_inv:
  assumes m: "moves ph b cl t" and l: "ph = Ws_looping \<Longrightarrow> loop_state (cl_state cl)"
  shows "sys_inv items unit_q c t"
proof -
  from m obtain ph' w' b' cl' k' where t: "t = (ph', Inr w')" "ws.ready b' cl' k' w'"
    and go: "ph' = ph \<and> cl_state cl' = cl_state cl \<or> conn_step (ph, cl_state cl) (ph', cl_state cl')"
    by (auto simp: moves_def)
  have "loop_state (cl_state cl')" if "ph' = Ws_looping"
    using go
  proof (elim disjE conjE)
    show "loop_state (cl_state cl')" if "ph' = ph" "cl_state cl' = cl_state cl"
      using that l \<open>ph' = Ws_looping\<close> by simp
    show "loop_state (cl_state cl')" if "conn_step (ph, cl_state cl) (ph', cl_state cl')"
      using that l \<open>ph' = Ws_looping\<close>
      by (cases rule: conn_step.cases) (auto intro: loop_state_edge loop_state_init)
  qed
  with t show ?thesis by (auto simp: ready_iff intro!: sys_invI)
qed

lemma sys_inv_ready:
  assumes "sys_inv items unit_q c s"
  obtains ph w b cl k where "s = (ph, Inr w)" "ws.ready b cl k w" "ph = Ws_looping \<Longrightarrow> loop_state (cl_state cl)"
  using assms by (auto simp: sys_inv_def ready_iff)

lemma ready_abs: "ws.ready b cl k w \<Longrightarrow> conn_abs c (ph, Inr w) = (ph, cl_state cl)"
  by (simp add: conn_abs_def ready_iff client_live_def)

lemma firmware_simulation:
  "simulation (sys_init items unit_q c) (sys_step E R c) (sys_inv items unit_q c)
     (\<lambda>s. fst s = Ws_created) conn_step (conn_abs c)"
proof
  show "sys_inv items unit_q c s" if "sys_init items unit_q c s" for s :: "('q, 'g) sys"
    using that by (simp add: sys_init_def)
  show "sys_inv items unit_q c t" if "sys_inv items unit_q c s" "sys_step E R c s t" for s t
    using that(1) by (rule sys_inv_ready) (use that(2) sys_step_moves moves_inv in blast)
  show "fst (conn_abs c s) = Ws_created" if "sys_init items unit_q c s" for s :: "('q, 'g) sys"
    using that by (simp add: sys_init_def conn_abs_def)
  show "conn_step (conn_abs c s) (conn_abs c t) \<or> conn_abs c t = conn_abs c s"
    if inv: "sys_inv items unit_q c s" and step: "sys_step E R c s t" for s t
  proof (rule sys_inv_ready [OF inv])
    fix ph w b cl k
    assume s: "s = (ph, Inr w)" "ws.ready b cl k w"
    then have "moves ph b cl t" using step sys_step_moves by blast
    then obtain ph' w' b' cl' k' where "t = (ph', Inr w')" "ws.ready b' cl' k' w'"
      "ph' = ph \<and> cl_state cl' = cl_state cl \<or> conn_step (ph, cl_state cl) (ph', cl_state cl')"
      by (auto simp: moves_def)
    with s show ?thesis by (auto simp: ready_abs)
  qed
qed

end

sublocale firmware \<subseteq> sys: simulation "sys_init items unit_q c" "sys_step E R c" "sys_inv items unit_q c"
    "\<lambda>s. fst s = Ws_created" conn_step "conn_abs c"
  by (rule firmware_simulation)

text \<open>
  With an event queue that takes every event the flag of the server is part of the invariant.
\<close>

locale firmware_posts = firmware R items capacity unit_q E c
  for R :: "('q, 'g) rtos" and items :: "'q \<Rightarrow> ptr list" and capacity unit_q
    and E :: "('q, 'g) app_world env" and c +
  assumes posts: "posts_ok E"
begin

lemma server_moves:
  assumes "ws.ready b cl k w" and "server_ok R c (ph, Inr w)" and "moves ph b cl t"
  shows "server_ok R c t"
proof -
  have "flag_ok ph cl b" using assms(1,2) by (auto simp: server_ok_def ready_iff client_live_def)
  with assms(3) posts obtain ph' w' b' cl' k' where "t = (ph', Inr w')" "ws.ready b' cl' k' w'"
    "flag_ok ph' cl' b'" by (auto simp: moves_def)
  then show ?thesis by (auto simp: server_ok_def ready_iff client_live_def)
qed

lemma flag_step:
  assumes inv: "sys_inv items unit_q c s" and flag: "server_ok R c s" and step: "sys_step E R c s t"
  shows "server_ok R c t"
proof (rule sys_inv_ready [OF inv])
  fix ph w b cl k
  assume s: "s = (ph, Inr w)" "ws.ready b cl k w"
  with flag step show ?thesis by (blast intro: server_moves sys_step_moves)
qed

lemma flag_system:
  "invariant_system (\<lambda>s. sys_init items unit_q c s \<and> server_ok R c s) (sys_step E R c)
     (\<lambda>s. sys_inv items unit_q c s \<and> server_ok R c s)"
  by unfold_locales (auto simp: sys_init_def intro: sys.step_inv flag_step)

end

sublocale firmware_posts \<subseteq> flag: invariant_system "\<lambda>s. sys_init items unit_q c s \<and> server_ok R c s"
    "sys_step E R c" "\<lambda>s. sys_inv items unit_q c s \<and> server_ok R c s"
  by (rule flag_system)

interpretation fw: firmware list_rtos lq_items lq_cap list_queue_unit "disciplined 5 E" c
  for E :: "(ptr list_queue, event_bits) app_world env" and c
  by unfold_locales (rule disciplined_contract)+

text \<open>\<open>accepting E\<close> is \<open>E\<close> with an event queue that takes every event.\<close>

definition accepting :: "'w env \<Rightarrow> 'w env" where
  "accepting E = E\<lparr>r_int := (\<lambda>cs x. case x of
     esp_event_post_to h ev p n t \<Rightarrow> ESP_OK | _ \<Rightarrow> r_int E cs x)\<rparr>"

lemma accepting_posts: "posts_ok (disciplined m (accepting E))"
  by (simp add: posts_ok_def disciplined_def accepting_def)

interpretation fwp: firmware_posts list_rtos lq_items lq_cap list_queue_unit "disciplined 5 (accepting E)" c
  for E :: "(ptr list_queue, event_bits) app_world env" and c
  by unfold_locales (rule accepting_posts)

text \<open>The state after a connection is one from which the tasks may start.\<close>

lemma connected_init:
  assumes "connected_app items unit_q E conf w" and "\<not> app_flag R 1 w"
  shows "\<exists>c. sys_init items unit_q c (Ws_created, Inr w) \<and> server_ok R c (Ws_created, Inr w)"
proof -
  from assms(1) obtain c cl k where c: "client_live c cl k w" "app_inv items unit_q c w"
    "dom (blocks (msgs w)) = {}"
    unfolding connected_app_def by blast
  have "bodies_ok items w" using c(3) by (simp add: bodies_ok_def)
  with c(1,2) have "sys_inv items unit_q c (Ws_created, Inr w)" by (rule sys_invI) simp
  moreover have "server_ok R c (Ws_created, Inr w)"
    using c(1) assms(2) by (auto simp: server_ok_def flag_ok_def client_live_def)
  ultimately show ?thesis by (auto simp: sys_init_def)
qed

subsection \<open>Properties\<close>


lemma demo_sys_init: "sys_init lq_items list_queue_unit 0 (Ws_created, Inr (demo_app 1 2 [5, 6]))"
  unfolding sys_init_def
proof
  show "sys_inv lq_items list_queue_unit 0 (Ws_created, Inr (demo_app 1 2 [5, 6]))"
    by (rule sys_invI [OF demo_app_linked [unfolded linked_def, THEN conjunct1] demo_app_inv])
      (auto simp: bodies_ok_def demo_app_parts demo_message_def split: if_splits)
qed simp

lemma demo_sys_reach:
  "reach (sys_init lq_items list_queue_unit 0) (sys_step (disciplined 5 app_env) list_rtos 0)
     (Ws_created, outcome (gpio_pass (disciplined 5 app_env) list_rtos (demo_app 1 2 [5, 6])))"
proof (rule reach_step)
  show "reach (sys_init lq_items list_queue_unit 0) (sys_step (disciplined 5 app_env) list_rtos 0)
      (Ws_created, Inr (demo_app 1 2 [5, 6]))"
    by (rule reach_init) (rule demo_sys_init)
qed (rule gpio_passes)





text \<open>A state before the task begins, with the flag clear.\<close>

definition demo_idle :: "(ptr list_queue, event_bits) app_world" where
  "demo_idle = (demo_app 1 2 [5, 6])\<lparr>xAppStateEventGroup := Some 1\<rparr>"

lemma demo_idle_init:
  "sys_init lq_items list_queue_unit 0 (Ws_created, Inr demo_idle) \<and>
   server_ok list_rtos 0 (Ws_created, Inr demo_idle)"
proof
  have "client_live 0 demo_client zero_config_storage demo_idle"
    using demo_app_linked [of 1 2 "[5, 6]"] by (simp add: demo_idle_def linked_def client_live_def)
  moreover have "app_inv lq_items list_queue_unit 0 demo_idle"
    using demo_app_inv [of 1 2 "[5, 6]"] by (simp add: demo_idle_def app_inv_def heap_room_def)
  moreover have "bodies_ok lq_items demo_idle"
    by (auto simp: bodies_ok_def demo_idle_def demo_app_parts demo_message_def split: if_splits)
  ultimately show "sys_init lq_items list_queue_unit 0 (Ws_created, Inr demo_idle)"
    unfolding sys_init_def by (auto intro!: sys_invI)
  show "server_ok list_rtos 0 (Ws_created, Inr demo_idle)"
    by (simp add: server_ok_def flag_ok_def demo_idle_def demo_app_parts demo_world_def app_flag_def
        list_rtos_def word_events_ops_def bit_1_iff)
qed

lemma demo_idle_reach:
  "reach (\<lambda>s. sys_init lq_items list_queue_unit 0 s \<and> server_ok list_rtos 0 s)
     (sys_step (disciplined 5 (accepting app_env)) list_rtos 0)
     (Ws_looping, outcome (task_prologue (with_handlers (disciplined 5 (accepting app_env)) list_rtos
        (app_handlers 0)) (Some 0) demo_idle))"
proof (rule reach_step)
  show "reach (\<lambda>s. sys_init lq_items list_queue_unit 0 s \<and> server_ok list_rtos 0 s)
      (sys_step (disciplined 5 (accepting app_env)) list_rtos 0) (Ws_created, Inr demo_idle)"
    by (rule reach_init) (rule demo_idle_init)
qed (rule ws_begins)


end
