(* ===== verification/Interleaving.thy ===== *)
theory Interleaving
  imports System
begin

text \<open>
  The firmware with finer steps: the GPIO endpoint and the heartbeat are cut wherever they
  give up the processor, and the endpoint also between looking at the mailbox and taking what
  it saw. Its pass-by-pass counterpart \<open>sys_step\<close> is a special case. The lemmas show that the
  assertion of each task at the place where it is preempted is kept by every step of the
  others, so that the results on passes hold for these steps too, with one proviso: while an
  endpoint holds a message it has seen, no new one arrives. What happens otherwise is
  \<open>mailbox_race\<close>.
\<close>

subsection \<open>The step relation\<close>

text \<open>Where the loop of the GPIO endpoint is: before the receive, between its halves, before the delay.\<close>

datatype gpio_pc = G_look | G_take "ptr option" | G_delay

text \<open>The calls of a pass of the heartbeat that are still to come, none if it reads the flag next.\<close>

record ('q, 'g) fine =
  f_gpio :: gpio_pc
  f_beat :: "call list"
  f_sys :: "('q, 'g) sys"

definition beat_read :: "('q, 'g) rtos \<Rightarrow> ('q, 'g, bool) app_act" where
  "beat_read R = bnd app_group (\<lambda>g.
     ret (xEventGroupGetBits (groups R) g AND statusCONNECTED_TO_SERVER \<noteq> 0))"

definition look_pc :: "fault + (ptr option \<times> 'w) \<Rightarrow> gpio_pc" where
  "look_pc r = (case r of Inr (p, _) \<Rightarrow> G_take p | Inl _ \<Rightarrow> G_look)"

definition beat_rest :: "fault + (bool \<times> 'w) \<Rightarrow> call list" where
  "beat_rest r = (case r of Inr (up, _) \<Rightarrow> heartbeat_calls up | Inl _ \<Rightarrow> [])"

text \<open>The steps that are a whole pass of their task here too.\<close>

inductive task_step :: "('q, 'g) app_world env \<Rightarrow> ('q, 'g) rtos \<Rightarrow> nat \<Rightarrow> ('q, 'g) sys \<Rightarrow>
  ('q, 'g) sys \<Rightarrow> bool" for E R c where
  task_begins: "task_step E R c (Ws_created, Inr w)
    (Ws_looping, outcome (task_prologue (with_handlers E R (app_handlers c)) (Some c) w))"
| task_passes: "ws_round (with_handlers E R (app_handlers c)) (Some c) w = r \<Longrightarrow>
    task_step E R c (Ws_looping, Inr w) (round_phase r, outcome r)"
| task_idles: "task_step E R c (ph, Inr w) (ph, outcome (ext_do (vTaskDelay 1) w))"
| task_event: "task_step E R c (ph, Inr w) (ph, outcome (xEventHandler E R ev w))"

definition same_mailbox :: "('q, 'g) sys \<Rightarrow> ('q, 'g) sys \<Rightarrow> bool" where
  "same_mailbox s t \<longleftrightarrow> (\<forall>w v. snd s = Inr w \<longrightarrow> snd t = Inr v \<longrightarrow>
     xMailboxIncomingQueue v = xMailboxIncomingQueue w)"

inductive fine_step :: "('q, 'g) app_world env \<Rightarrow> ('q, 'g) rtos \<Rightarrow> nat \<Rightarrow> ('q, 'g) fine \<Rightarrow>
  ('q, 'g) fine \<Rightarrow> bool" for E R c where
  gpio_looks: "f_gpio s = G_look \<Longrightarrow> f_sys s = (ph, Inr w) \<Longrightarrow> mailbox_look R w = r \<Longrightarrow>
    fine_step E R c s (s\<lparr>f_gpio := look_pc r, f_sys := (ph, outcome r)\<rparr>)"
| gpio_takes: "f_gpio s = G_take p \<Longrightarrow> f_sys s = (ph, Inr w) \<Longrightarrow> fine_step E R c s (s\<lparr>f_gpio := G_delay,
    f_sys := (ph, outcome (mailbox_take R GPIO_ENDPOINT_ID (vMessageHandler E) p w))\<rparr>)"
| gpio_delays: "f_gpio s = G_delay \<Longrightarrow> f_sys s = (ph, Inr w) \<Longrightarrow>
    fine_step E R c s (s\<lparr>f_gpio := G_look, f_sys := (ph, outcome (ext_do (vTaskDelay 1) w))\<rparr>)"
| beat_reads: "f_beat s = [] \<Longrightarrow> f_sys s = (ph, Inr w) \<Longrightarrow> beat_read R w = r \<Longrightarrow>
    fine_step E R c s (s\<lparr>f_beat := beat_rest r, f_sys := (ph, outcome r)\<rparr>)"
| beat_calls: "f_beat s = x # xs \<Longrightarrow> f_sys s = (ph, Inr w) \<Longrightarrow>
    fine_step E R c s (s\<lparr>f_beat := xs, f_sys := (ph, outcome (ext_do x w))\<rparr>)"
| other_steps: "task_step E R c (f_sys s) t \<Longrightarrow>
    (\<And>p. f_gpio s = G_take (Some p) \<Longrightarrow> same_mailbox (f_sys s) t) \<Longrightarrow>
    fine_step E R c s (s\<lparr>f_sys := t\<rparr>)"

text \<open>Before a run no task has begun its pass.\<close>

definition fine_start :: "('q, 'g) sys \<Rightarrow> ('q, 'g) fine" where
  "fine_start s = \<lparr>f_gpio = G_look, f_beat = [], f_sys = s\<rparr>"

lemma task_sys_step: "task_step E R c s t \<Longrightarrow> sys_step E R c s t"
  by (cases rule: task_step.cases) (auto intro: sys_step.intros)

subsection \<open>A pass is a run of its pieces\<close>

lemma outcome_simps [simp]: "outcome (Inl f) = Inl f" "outcome (Inr (x, w)) = Inr w"
  by (simp_all add: outcome_def)

lemma ext_do_run: "ext_do x w = Inr ((), w\<lparr>calls := calls w @ [x]\<rparr>)"
  by (simp add: ext_do_def)

lemma beat_read_run:
  "xAppStateEventGroup w \<noteq> None \<Longrightarrow> beat_read R w = Inr (app_flag R 1 w, w)"
  by (auto simp: beat_read_def run_simps and_server app_flag_def)

lemma beat_calls_run:
  "(fine_step E R c)\<^sup>*\<^sup>* \<lparr>f_gpio = pc, f_beat = xs, f_sys = (ph, Inr w)\<rparr>
     \<lparr>f_gpio = pc, f_beat = [], f_sys = (ph, Inr (w\<lparr>calls := calls w @ xs\<rparr>))\<rparr>"
proof (induction xs arbitrary: w)
  case (Cons x xs)
  let ?s = "\<lparr>f_gpio = pc, f_beat = x # xs, f_sys = (ph, Inr w)\<rparr>"
  have "fine_step E R c ?s (?s\<lparr>f_beat := xs, f_sys := (ph, outcome (ext_do x w))\<rparr>)"
    by (rule beat_calls) simp_all
  with Cons.IH [of "w\<lparr>calls := calls w @ [x]\<rparr>"] show ?case
    by (auto simp: ext_do_run intro: converse_rtranclp_into_rtranclp)
qed simp

lemma heartbeat_run:
  assumes "xAppStateEventGroup w \<noteq> None"
  shows "(fine_step E R c)\<^sup>*\<^sup>* \<lparr>f_gpio = pc, f_beat = [], f_sys = (ph, Inr w)\<rparr>
    \<lparr>f_gpio = pc, f_beat = [], f_sys = (ph, outcome (heartbeat_pass R w))\<rparr>"
proof -
  let ?s = "\<lparr>f_gpio = pc, f_beat = [], f_sys = (ph, Inr w)\<rparr>"
  let ?t = "\<lparr>f_gpio = pc, f_beat = heartbeat_calls (app_flag R 1 w), f_sys = (ph, Inr w)\<rparr>"
  have "fine_step E R c ?s ?t"
    using beat_reads [of ?s ph w R, OF _ _ refl, of E c] beat_read_run [OF assms, of R]
    by (simp add: beat_rest_def)
  then show ?thesis
    using beat_calls_run [of E R c pc "heartbeat_calls (app_flag R 1 w)" ph w]
    by (simp add: run_heartbeat_pass [OF assms] converse_rtranclp_into_rtranclp)
qed

lemma gpio_run:
  assumes "gpio_pass E R w = Inr ((), v)"
  shows "(fine_step E R c)\<^sup>*\<^sup>* \<lparr>f_gpio = G_look, f_beat = xs, f_sys = (ph, Inr w)\<rparr>
    \<lparr>f_gpio = G_look, f_beat = xs, f_sys = (ph, Inr v)\<rparr>"
proof -
  obtain p w1 u where look: "mailbox_look R w = Inr (p, w1)"
    and took: "mailbox_take R GPIO_ENDPOINT_ID (vMessageHandler E) p w1 = Inr ((), u)"
    and v: "v = u\<lparr>calls := calls u @ [vTaskDelay 1]\<rparr>"
    using assms by (auto simp: gpio_pass_def vMailboxRecieve_def run_simps ext_do_run split: sum.splits)
  let ?s = "\<lambda>pc w. \<lparr>f_gpio = pc, f_beat = xs, f_sys = (ph, Inr w)\<rparr>"
  have "fine_step E R c (?s G_look w) (?s (G_take p) w1)"
    using gpio_looks [of "?s G_look w" ph w R, OF _ _ refl, of E c] look by (simp add: look_pc_def)
  moreover have "fine_step E R c (?s (G_take p) w1) (?s G_delay u)"
    using gpio_takes [of "?s (G_take p) w1" p ph w1 E R c] took by simp
  moreover have "fine_step E R c (?s G_delay u) (?s G_look v)"
    using gpio_delays [of "?s G_delay u" ph u E R c] v by (simp add: ext_do_run)
  ultimately show ?thesis by (blast intro: converse_rtranclp_into_rtranclp)
qed

subsection \<open>No interference\<close>

text \<open>The message an endpoint has looked at is still the one in the mailbox.\<close>

definition still_there :: "('q \<Rightarrow> ptr list) \<Rightarrow> gpio_pc \<Rightarrow> ('q, 'g) app_world \<Rightarrow> bool" where
  "still_there items pc w \<longleftrightarrow> (\<forall>p. pc = G_take (Some p) \<longrightarrow>
     (\<exists>q xs. xMailboxIncomingQueue w = Some q \<and> items q = p # xs))"

lemma still_there_simps [simp]:
  "still_there items G_look w" "still_there items G_delay w" "still_there items (G_take None) w"
  "still_there items pc (w\<lparr>calls := cs\<rparr>) = still_there items pc w"
  by (simp_all add: still_there_def)

definition fine_inv :: "('q \<Rightarrow> ptr list) \<Rightarrow> ('q \<Rightarrow> bool) \<Rightarrow> nat \<Rightarrow> ('q, 'g) fine \<Rightarrow> bool" where
  "fine_inv items unit_q c s \<longleftrightarrow> sys_inv items unit_q c (f_sys s) \<and>
     (\<forall>ph w. f_sys s = (ph, Inr w) \<longrightarrow> still_there items (f_gpio s) w)"

definition fine_init :: "('q \<Rightarrow> ptr list) \<Rightarrow> ('q \<Rightarrow> bool) \<Rightarrow> nat \<Rightarrow> ('q, 'g) fine \<Rightarrow> bool" where
  "fine_init items unit_q c s \<longleftrightarrow> (\<exists>s0. sys_init items unit_q c s0 \<and> s = fine_start s0)"

context firmware
begin

text \<open>Looking changes nothing, and looking again sees the same.\<close>

lemma wp_look:
  assumes "ws.ready b cl k w"
  shows "wp (mailbox_look R) (\<lambda>p v. v = w \<and> still_there items (G_take p) w) w"
proof -
  from assms obtain q where "xMailboxIncomingQueue w = Some q"
    unfolding ready_iff app_inv_def by blast
  then show ?thesis
    by (auto simp: mailbox_look_def wp_simps waiting peek still_there_def split: list.split)
qed

lemma look_again:
  assumes "still_there items (G_take (Some p)) w"
  shows "mailbox_look R w = Inr (Some p, w)"
  using assms by (auto simp: still_there_def mailbox_look_def run_simps waiting peek)

text \<open>So a take is a whole receive at the moment it happens.\<close>

lemma take_receives:
  assumes "still_there items (G_take (Some p)) w"
  shows "mailbox_take R GPIO_ENDPOINT_ID h (Some p) w = vMailboxRecieve R GPIO_ENDPOINT_ID h w"
  using look_again [OF assms] by (simp add: vMailboxRecieve_def run_simps)

lemma take_moves:
  assumes r: "ws.ready b cl k w" and there: "still_there items (G_take p) w"
  shows "moves ph b cl (ph, outcome (mailbox_take R GPIO_ENDPOINT_ID (vMessageHandler E) p w))"
proof (cases p)
  case None
  then show ?thesis using same_moves [OF r] by (simp add: mailbox_take_def ret_def)
next
  case (Some a)
  have "client_live c cl k w" "app_inv items unit_q c w" "ep.acceptable w" "app_flag R 1 w = b"
    using r by (simp_all add: ready_iff acceptable_bodies)
  then have "wp (vMailboxRecieve R GPIO_ENDPOINT_ID (vMessageHandler E)) (\<lambda>_ v. moves ph b cl (ph, Inr v)) w"
    by (intro wp_mono [OF ep.wp_endpoint_receive] same_moves [of _ _ k])
      (use \<open>app_flag R 1 w = b\<close> in \<open>auto simp: ready_iff acceptable_bodies app_flag_def\<close>)
  then show ?thesis
    unfolding Some take_receives [OF there [unfolded Some]] by (rule outcome_wp)
qed

lemma beat_moves:
  assumes "ws.ready b cl k w"
  shows "moves ph b cl (ph, outcome (beat_read R w))" and "moves ph b cl (ph, outcome (ext_do x w))"
proof -
  have "xAppStateEventGroup w \<noteq> None" using ready_group [OF assms] by auto
  from beat_read_run [OF this, of R] same_moves [OF assms]
  show "moves ph b cl (ph, outcome (beat_read R w))" by simp
  have "ws.ready b cl k (w\<lparr>calls := calls w @ [x]\<rparr>)" using assms by simp
  then show "moves ph b cl (ph, outcome (ext_do x w))" by (simp add: ext_do_run same_moves)
qed

text \<open>Every fine step is a move of the system.\<close>

lemma fine_step_moves:
  assumes step: "fine_step E R c s t" and s: "f_sys s = (ph, Inr w)" and r: "ws.ready b cl k w"
    and there: "still_there items (f_gpio s) w"
  shows "moves ph b cl (f_sys t) \<and> (\<forall>ph' v. f_sys t = (ph', Inr v) \<longrightarrow> still_there items (f_gpio t) v)"
  using step
proof (cases rule: fine_step.cases)
  case (gpio_looks ph' w' r')
  with s have eq: "ph' = ph" "w' = w" by simp_all
  from wp_look [OF r] gpio_looks(4) eq obtain p where p: "r' = Inr (p, w)" "still_there items (G_take p) w"
    by (auto simp: wp_def split: sum.splits)
  with gpio_looks(1) eq same_moves [OF r] show ?thesis by (simp add: look_pc_def)
next
  case (gpio_takes p ph' w')
  with s there take_moves [OF r, of p ph] show ?thesis by simp
next
  case (gpio_delays ph' w')
  with s beat_moves(2) [OF r] show ?thesis by simp
next
  case (beat_reads ph' w' r')
  have "beat_read R w = Inr (app_flag R 1 w, w)"
    using ready_group [OF r] by (intro beat_read_run) auto
  with beat_reads s there same_moves [OF r] show ?thesis by simp
next
  case (beat_calls x xs ph' w')
  with s beat_moves(2) [OF r, of ph x] there show ?thesis by (simp add: ext_do_run)
next
  case (other_steps t')
  have "moves ph b cl t'"
    using task_sys_step [OF other_steps(2)] s sys_step_moves [OF _ r] by simp
  moreover have "still_there items (f_gpio s) v" if "t' = (ph', Inr v)" for ph' v
    using there other_steps(3) s that by (auto simp: still_there_def same_mailbox_def)
  ultimately show ?thesis using other_steps(1) by simp
qed

lemma fine_simulation:
  "simulation (fine_init items unit_q c) (fine_step E R c) (fine_inv items unit_q c)
     (\<lambda>s. fst s = Ws_created) conn_step (conn_abs c \<circ> f_sys)"
proof
  show "fine_inv items unit_q c s" if "fine_init items unit_q c s" for s :: "('q, 'g) fine"
    using that by (auto simp: fine_init_def fine_inv_def fine_start_def sys_init_def)
  show "fst ((conn_abs c \<circ> f_sys) s) = Ws_created" if "fine_init items unit_q c s" for s :: "('q, 'g) fine"
    using that by (auto simp: fine_init_def fine_start_def sys_init_def conn_abs_def)
  fix s t
  assume inv: "fine_inv items unit_q c s" and step: "fine_step E R c s t"
  then have "sys_inv items unit_q c (f_sys s)" by (simp add: fine_inv_def)
  then obtain ph w b cl k where s: "f_sys s = (ph, Inr w)" "ws.ready b cl k w"
    "ph = Ws_looping \<longrightarrow> loop_state (cl_state cl)" by (rule sys_inv_ready) blast
  have there: "still_there items (f_gpio s) w" using inv s(1) by (simp add: fine_inv_def)
  note m = fine_step_moves [OF step s(1,2) there]
  with s(3) show "fine_inv items unit_q c t" by (auto simp: fine_inv_def intro: moves_inv)
  from m obtain ph' w' b' cl' k' where "f_sys t = (ph', Inr w')" "ws.ready b' cl' k' w'"
    "ph' = ph \<and> cl_state cl' = cl_state cl \<or> conn_step (ph, cl_state cl) (ph', cl_state cl')"
    by (auto simp: moves_def)
  with s show "conn_step ((conn_abs c \<circ> f_sys) s) ((conn_abs c \<circ> f_sys) t) \<or>
      (conn_abs c \<circ> f_sys) t = (conn_abs c \<circ> f_sys) s"
    by (auto simp: ready_abs)
qed

end

sublocale firmware \<subseteq> fine: simulation "fine_init items unit_q c" "fine_step E R c" "fine_inv items unit_q c"
    "\<lambda>s. fst s = Ws_created" conn_step "conn_abs c \<circ> f_sys"
  by (rule fine_simulation)

text \<open>With an event queue that takes every event, the flag of the server is kept too.\<close>

context firmware_posts
begin

lemma fine_flag_step:
  assumes inv: "fine_inv items unit_q c s" and flag: "server_ok R c (f_sys s)"
    and step: "fine_step E R c s t"
  shows "server_ok R c (f_sys t)"
proof -
  have "sys_inv items unit_q c (f_sys s)" using inv by (simp add: fine_inv_def)
  then obtain ph w b cl k where s: "f_sys s = (ph, Inr w)" "ws.ready b cl k w"
    by (rule sys_inv_ready)
  have "still_there items (f_gpio s) w" using inv s(1) by (simp add: fine_inv_def)
  with fine_step_moves [OF step s] flag s show ?thesis by (auto intro: server_moves)
qed

lemma fine_flag_system:
  "invariant_system (\<lambda>s. fine_init items unit_q c s \<and> server_ok R c (f_sys s)) (fine_step E R c)
     (\<lambda>s. fine_inv items unit_q c s \<and> server_ok R c (f_sys s))"
  by unfold_locales (auto intro: fine.init_inv fine.step_inv fine_flag_step)

end

sublocale firmware_posts \<subseteq> fine_flag: invariant_system
    "\<lambda>s. fine_init items unit_q c s \<and> server_ok R c (f_sys s)" "fine_step E R c"
    "\<lambda>s. fine_inv items unit_q c s \<and> server_ok R c (f_sys s)"
  by (rule fine_flag_system)

text \<open>The passes of the system are runs of the fine steps.\<close>

lemma reach_rtranclp: "step\<^sup>*\<^sup>* s t \<Longrightarrow> reach init step s \<Longrightarrow> reach init step t"
  by (induction rule: rtranclp_induct) (auto intro: reach_step)

lemma sys_step_run:
  assumes "sys_step E R c s t" and t: "snd t = Inr v"
  shows "(fine_step E R c)\<^sup>*\<^sup>* (fine_start s) (fine_start t)"
proof -
  have other: ?thesis if "task_step E R c s t"
    using other_steps [of E R c "fine_start s" t] that by (auto simp: fine_start_def)
  show ?thesis
    using assms(1)
  proof (cases rule: sys_step.cases)
    case (gpio_passes ph w)
    then have "gpio_pass E R w = Inr ((), v)"
      using t by (auto simp: outcome_def split: sum.splits)
    then show ?thesis using gpio_passes t gpio_run [of E R w v c "[]" ph] by (simp add: fine_start_def)
  next
    case (heartbeat_passes ph w)
    then have "xAppStateEventGroup w \<noteq> None"
      using t by (cases "xAppStateEventGroup w") (auto simp: heartbeat_pass_def app_group_def run_simps)
    then show ?thesis using heartbeat_passes heartbeat_run [of w E R c G_look ph] by (simp add: fine_start_def)
  qed (rule other, simp add: task_step.intros)+
qed

subsection \<open>Properties\<close>


text \<open>A run in which the heartbeat reads the flag while the endpoint holds the message it has seen.\<close>

lemma demo_fine_reach:
  "reach (fine_init lq_items list_queue_unit 0) (fine_step (disciplined 5 app_env) list_rtos 0)
     \<lparr>f_gpio = G_take (Some (Some 0)), f_beat = heartbeat_calls True,
      f_sys = (Ws_created, Inr (demo_app 1 2 [5, 6]))\<rparr>"
proof -
  let ?w = "demo_app 1 2 [5, 6]" and ?E = "disciplined 5 app_env"
  let ?s = "\<lambda>pc xs. \<lparr>f_gpio = pc, f_beat = xs, f_sys = (Ws_created, Inr ?w)\<rparr>"
  have "reach (fine_init lq_items list_queue_unit 0) (fine_step ?E list_rtos 0) (?s G_look [])"
    by (rule reach_init) (use demo_sys_init in \<open>auto simp: fine_init_def fine_start_def\<close>)
  moreover have "mailbox_look list_rtos ?w = Inr (Some (Some 0), ?w)"
    by (simp add: mailbox_look_def run_simps demo_app_parts list_rtos_def list_queue_ops_def)
  then have "fine_step ?E list_rtos 0 (?s G_look []) (?s (G_take (Some (Some 0))) [])"
    using gpio_looks [of "?s G_look []" Ws_created ?w list_rtos, OF _ _ refl] by (simp add: look_pc_def)
  moreover have "beat_read list_rtos ?w = Inr (True, ?w)"
    by (simp add: beat_read_def run_simps demo_app_parts list_rtos_def word_events_ops_def
        statusCONNECTED_TO_SERVER_def)
  then have "fine_step ?E list_rtos 0 (?s (G_take (Some (Some 0))) [])
      (?s (G_take (Some (Some 0))) (heartbeat_calls True))"
    using beat_reads [of "?s (G_take (Some (Some 0))) []" Ws_created ?w list_rtos, OF _ _ refl]
    by (simp add: beat_rest_def)
  ultimately show ?thesis by (blast intro: reach_step)
qed






end
