(* ===== verification/Hazards.thy ===== *)
theory Hazards
  imports Gpio
begin

text \<open>
  What happens outside the contracts of the other theories: interleavings of the client's
  functions with its own task, the mailbox's two tasks between the look at a message and its
  use, and messages shorter than the header. Each theorem composes the program's own
  functions in an order the scheduler or the peer can bring about.
\<close>

subsection \<open>Starting, stopping and destroying a client beside its task\<close>

lemma start_run:
  assumes live: "client_live c cl k w" and idle: "cl_state cl < WEBSOCKET_STATE_INIT"
    and E: "\<And>cs. r_int E cs (xTaskCreate_ws ''websocket_task'' (cfg_task_stack k) (Some c) (cfg_task_prio k)) = pdPASS"
  shows "esp_websocket_client_start E (Some c) w = Inr (ESP_OK, w\<lparr>calls := calls w @
    [xTaskCreate_ws ''websocket_task'' (cfg_task_stack k) (Some c) (cfg_task_prio k),
     xEventGroupClearBits_STOPPED (cl_status_bits cl)]\<rparr>)"
proof -
  from live obtain q where "blocks (clis w) c = Some cl" "cl_config cl = Some q" "blocks (cfgs w) q = Some k"
    by (auto simp: client_live_def)
  with idle E show ?thesis
    by (simp add: esp_websocket_client_start_def run_simps mem_load_def not_le)
qed

lemma stop_idle_run:
  assumes "client_live c cl k w" and "\<not> cl_run cl"
  shows "esp_websocket_client_stop (Some c) w = Inr (ESP_FAIL, w)"
  using assms by (simp add: esp_websocket_client_stop_def client_live_def run_simps mem_load_def)

text \<open>Nothing keeps a client from being started twice: until its task has run, a second
  start succeeds as the first did, and two tasks then share the client.\<close>

theorem start_twice:
  assumes "client_live c cl k w" and "cl_state cl < WEBSOCKET_STATE_INIT"
    and "\<And>cs. r_int E cs (xTaskCreate_ws ''websocket_task'' (cfg_task_stack k) (Some c) (cfg_task_prio k)) = pdPASS"
  shows "bnd (esp_websocket_client_start E (Some c)) (\<lambda>a. bnd (esp_websocket_client_start E (Some c))
      (\<lambda>b. ret (a, b))) w =
    Inr ((ESP_OK, ESP_OK), w\<lparr>calls := calls w @ concat (replicate 2
      [xTaskCreate_ws ''websocket_task'' (cfg_task_stack k) (Some c) (cfg_task_prio k),
       xEventGroupClearBits_STOPPED (cl_status_bits cl)])\<rparr>)"
  using start_run [OF assms] start_run [OF _ assms(2,3), of "w\<lparr>calls := cs\<rparr>" for cs] assms(1)
  by (simp add: run_bnd run_ret numeral_2_eq_2)

lemma idle_live:
  "client_live 0 (demo_client\<lparr>cl_state := WEBSOCKET_STATE_UNKNOW, cl_run := False\<rparr>) zero_config_storage
     (demo_world\<lparr>clis := (clis demo_world)\<lparr>blocks := [0 \<mapsto>
        demo_client\<lparr>cl_state := WEBSOCKET_STATE_UNKNOW, cl_run := False\<rparr>]\<rparr>\<rparr>)"
  using demo_live by (simp add: client_live_def demo_world_def demo_client_def)

lemma quiet_create: "r_int quiet_env cs (xTaskCreate_ws nm st p pr) = pdPASS"
  by (simp add: quiet_env_def)

theorem start_twice_witness:
  "bnd (esp_websocket_client_start quiet_env (Some 0)) (\<lambda>a. bnd (esp_websocket_client_start quiet_env (Some 0))
      (\<lambda>b. ret (a, b)))
    (demo_world\<lparr>clis := (clis demo_world)\<lparr>blocks := [0 \<mapsto>
        demo_client\<lparr>cl_state := WEBSOCKET_STATE_UNKNOW, cl_run := False\<rparr>]\<rparr>\<rparr>) =
    Inr ((ESP_OK, ESP_OK), (demo_world\<lparr>clis := (clis demo_world)\<lparr>blocks := [0 \<mapsto>
        demo_client\<lparr>cl_state := WEBSOCKET_STATE_UNKNOW, cl_run := False\<rparr>]\<rparr>\<rparr>)\<lparr>calls := [] @ concat (replicate 2
      [xTaskCreate_ws ''websocket_task'' 0 (Some 0) 0, xEventGroupClearBits_STOPPED (Some 4)])\<rparr>)"
  using start_twice [OF idle_live _ quiet_create]
  by (simp add: demo_client_def demo_world_def zero_config_storage_def less_websocket_client_state_def)

context ws_events
begin

text \<open>A task whose scheme has a transport, and that reconnects, never ends.\<close>

lemma wp_task_persists:
  assumes r: "ready ob cl k w" and rec: "cfg_auto_reconnect k"
    and tr: "\<And>cs scheme. r_ptr E cs (esp_transport_list_get_transport (cl_transport_list cl) scheme) \<noteq> NULL"
  shows "wp (esp_websocket_client_task n E (Some c)) (\<lambda>ended _. \<not> ended) w"
  unfolding esp_websocket_client_task_def wp_andthen [of "task_prologue E (Some c)"] wp_bnd
proof (rule wp_prologue [OF r])
  fix v
  assume "case prologue_spec E (cfg_strings k (blocks (strs w)) F_scheme) k (calls w) cl of
    (d, k', cs) \<Rightarrow> ready ob d k' v \<and> calls v = cs"
  moreover obtain d k' cs where spec:
    "prologue_spec E (cfg_strings k (blocks (strs w)) F_scheme) k (calls w) cl = (d, k', cs)"
    by (metis prod_cases3)
  ultimately have "ready ob d k' v" by simp
  moreover have "cl_run d" "cl_transport d \<noteq> NULL" "cfg_auto_reconnect k'"
    using spec tr rec by (auto simp: prologue_spec_def Let_def split: if_splits)
  ultimately show "wp (task_loop n E (Some c)) (\<lambda>ended. wp (andthen (when_do ended
      (andthen (task_signal_stopped (Some c)) (task_exit (Some c)))) (ret ended)) (\<lambda>ended _. \<not> ended)) v"
    by (rule wp_mono [OF wp_loop_persists]) (simp add: wp_andthen when_do_def wp_ret)
qed

end

text \<open>Property C31. A stop that comes between the start and the first statement of the task is lost: it
  returns \<open>ESP_FAIL\<close> and changes nothing, and the task then runs on for ever.\<close>

theorem lost_stop:
  assumes "ws_events E c I eff least" and "client_live c cl k w" and "I ob w"
    and "cl_state cl < WEBSOCKET_STATE_INIT" and "\<not> cl_run cl" and "cfg_auto_reconnect k"
    and "\<And>cs. r_int E cs (xTaskCreate_ws ''websocket_task'' (cfg_task_stack k) (Some c) (cfg_task_prio k)) = pdPASS"
    and "\<And>cs scheme. r_ptr E cs (esp_transport_list_get_transport (cl_transport_list cl) scheme) \<noteq> NULL"
  shows "wp (bnd (esp_websocket_client_start E (Some c)) (\<lambda>a. bnd (esp_websocket_client_stop (Some c)) (\<lambda>b.
      bnd (esp_websocket_client_task n E (Some c)) (\<lambda>ended. ret (a, b, ended)))))
    (\<lambda>r _. r = (ESP_OK, ESP_FAIL, False)) w"
proof -
  let ?v = "w\<lparr>calls := calls w @ [xTaskCreate_ws ''websocket_task'' (cfg_task_stack k) (Some c) (cfg_task_prio k),
     xEventGroupClearBits_STOPPED (cl_status_bits cl)]\<rparr>"
  have live: "client_live c cl k ?v" using assms(2) by simp
  have "I ob ?v" using ws_events.calls_frame [OF assms(1)] assms(3) by blast
  then have "wp (esp_websocket_client_task n E (Some c)) (\<lambda>ended _. \<not> ended) ?v"
    by (intro ws_events.wp_task_persists [OF assms(1) readyI [OF assms(1) live] assms(6,8)])
  then show ?thesis
    using start_run [OF assms(2,4,7)] stop_idle_run [OF live assms(5)]
    by (auto simp: wp_def run_simps split: sum.splits)
qed

lemma idle_reconnecting_live:
  "client_live 0 (demo_client\<lparr>cl_state := WEBSOCKET_STATE_UNKNOW, cl_run := False\<rparr>)
     (zero_config_storage\<lparr>cfg_auto_reconnect := True\<rparr>)
     (demo_world\<lparr>clis := (clis demo_world)\<lparr>blocks := [0 \<mapsto>
        demo_client\<lparr>cl_state := WEBSOCKET_STATE_UNKNOW, cl_run := False\<rparr>]\<rparr>,
      cfgs := (cfgs demo_world)\<lparr>blocks := [0 \<mapsto> zero_config_storage\<lparr>cfg_auto_reconnect := True\<rparr>]\<rparr>\<rparr>)"
  using reconnecting_live by (simp add: client_live_def demo_world_def demo_client_def)

theorem lost_stop_witness:
  "wp (bnd (esp_websocket_client_start quiet_env (Some 0)) (\<lambda>a. bnd (esp_websocket_client_stop (Some 0)) (\<lambda>b.
      bnd (esp_websocket_client_task 9 quiet_env (Some 0)) (\<lambda>ended. ret (a, b, ended)))))
    (\<lambda>r _. r = (ESP_OK, ESP_FAIL, False))
    (demo_world\<lparr>clis := (clis demo_world)\<lparr>blocks := [0 \<mapsto>
        demo_client\<lparr>cl_state := WEBSOCKET_STATE_UNKNOW, cl_run := False\<rparr>]\<rparr>,
      cfgs := (cfgs demo_world)\<lparr>blocks := [0 \<mapsto> zero_config_storage\<lparr>cfg_auto_reconnect := True\<rparr>]\<rparr>\<rparr>)"
  by (rule lost_stop [OF quiet_events idle_reconnecting_live TrueI _ _ _ quiet_create])
    (simp_all add: less_websocket_client_state_def quiet_env_def demo_env_def)

text \<open>Property C29. Destroying a running client can free it under its task: when the destroying task
  runs as soon as the client's task has signalled \<open>STOPPED_BIT\<close>, the last write of the task, of
  the state, goes to freed memory.\<close>

theorem destroy_use_after_free:
  assumes "client_parts a n c w0 cl w"
  shows "andthen (task_signal_stopped (Some c)) (bnd (esp_websocket_client_destroy (Some c))
      (\<lambda>_. task_exit (Some c))) w = Inl Use_After_Free"
proof -
  let ?v = "w\<lparr>calls := calls w @ [esp_transport_close (cl_transport cl),
    xEventGroupSetBits_STOPPED (cl_status_bits cl)]\<rparr>"
  have cl: "blocks (clis w) c = Some cl" and fresh: "blocks (clis w0) c = None"
    using assms by (simp_all add: client_parts_def)
  have "client_parts a n c w0 cl ?v" using assms by (simp only: client_parts_calls)
  from wp_destroy_parts [OF this] obtain e u where u:
    "esp_websocket_client_destroy (Some c) ?v = Inr (e, u)" "same_structs w0 u"
    by (auto dest: wp_runD)
  have "task_exit (Some c) u = Inl Use_After_Free"
    using u(2) fresh by (simp add: task_exit_def run_simps same_structs_def mem_modify_def mem_load_def)
  with cl u(1) show ?thesis by (simp add: task_signal_stopped_def run_simps mem_load_def)
qed

theorem destroy_use_after_free_witness:
  "andthen (task_signal_stopped (Some 0)) (bnd (esp_websocket_client_destroy (Some 0))
      (\<lambda>_. task_exit (Some 0))) demo_world = Inl Use_After_Free"
  by (rule destroy_use_after_free [OF demo_parts])

lemma loop_unknown_run:
  assumes "blocks (clis w) c = Some cl" and "cl_run cl" and "cl_state cl = WEBSOCKET_STATE_UNKNOW"
  shows "task_loop n E (Some c) w = Inr (False, w)"
  using assms
  by (induction n) (simp_all add: task_loop.simps task_iteration_def run_simps mem_load_def)

text \<open>Property C30. A client that is stopped and started again can be left without a working task: if
  the old task writes its final state after the new one has begun, the new task finds the
  state UNKNOWN and loops for ever without a single call, and so without ever yielding.\<close>

theorem restart_spins:
  assumes "ws_events E c I eff least" and "client_live c cl k w" and "I ob w"
    and "\<And>cs. r_int E cs (xTaskCreate_ws ''websocket_task'' (cfg_task_stack k) (Some c) (cfg_task_prio k)) = pdPASS"
    and "\<And>cs scheme. r_ptr E cs (esp_transport_list_get_transport (cl_transport_list cl) scheme) \<noteq> NULL"
  shows "wp (andthen (task_signal_stopped (Some c)) (bnd (stop_finish (Some c)) (\<lambda>a.
      bnd (esp_websocket_client_start E (Some c)) (\<lambda>b.
        andthen (task_prologue E (Some c)) (andthen (task_exit (Some c)) (ret (a, b)))))))
    (\<lambda>r v. r = (ESP_OK, ESP_OK) \<and> (\<forall>n. task_loop n E (Some c) v = Inr (False, v))) w"
proof -
  note E = assms(1)
  let ?idle = "cl\<lparr>cl_state := WEBSOCKET_STATE_UNKNOW\<rparr>"
  let ?Q = "\<lambda>r v. r = (ESP_OK, ESP_OK) \<and> (\<forall>n. task_loop n E (Some c) v = Inr (False, v))"
  have spin: "wp (task_exit (Some c)) (\<lambda>_. ?Q (ESP_OK, ESP_OK)) v"
    if "ws_events.ready c I ob d k' v" "cl_run d" for d k' v
    unfolding task_exit_def
  proof (rule ws_events.wp_ready_upd_then [OF E that(1)])
    fix u
    assume "ws_events.ready c I ob (d\<lparr>cl_state := WEBSOCKET_STATE_UNKNOW\<rparr>) k' u"
    then have "blocks (clis u) c = Some (d\<lparr>cl_state := WEBSOCKET_STATE_UNKNOW\<rparr>)"
      by (rule ws_events.ready_cli [OF E])
    with that(2) show "wp (ext_do vTaskDelete) (\<lambda>_. ?Q (ESP_OK, ESP_OK)) u"
      by (simp add: wp_ext loop_unknown_run [of _ c])
  qed simp
  have rest: "wp (bnd (esp_websocket_client_start E (Some c)) (\<lambda>b. andthen (task_prologue E (Some c))
      (andthen (task_exit (Some c)) (ret (ESP_OK, b))))) ?Q v"
    if v: "ws_events.ready c I ob ?idle k v" for v
  proof -
    have live: "client_live c ?idle k v" using v by (simp add: ws_events.ready_def [OF E])
    have idle: "cl_state ?idle < WEBSOCKET_STATE_INIT"
      by (simp add: less_websocket_client_state_def)
    have "wp (task_prologue E (Some c)) (\<lambda>_. wp (task_exit (Some c)) (\<lambda>_. ?Q (ESP_OK, ESP_OK)))
        (v\<lparr>calls := cs\<rparr>)" for cs
    proof (rule ws_events.wp_prologue [OF E])
      show "ws_events.ready c I ob ?idle k (v\<lparr>calls := cs\<rparr>)" by (simp add: ws_events.ready_calls [OF E] v)
      show "wp (task_exit (Some c)) (\<lambda>_. ?Q (ESP_OK, ESP_OK)) u"
        if "case prologue_spec E (cfg_strings k (blocks (strs (v\<lparr>calls := cs\<rparr>))) F_scheme) k
          (calls (v\<lparr>calls := cs\<rparr>)) ?idle of (d, k', cs) \<Rightarrow> ws_events.ready c I ob d k' u \<and> calls u = cs" for u
      proof -
        obtain d k' cs' where spec: "prologue_spec E (cfg_strings k (blocks (strs (v\<lparr>calls := cs\<rparr>))) F_scheme) k
          (calls (v\<lparr>calls := cs\<rparr>)) ?idle = (d, k', cs')"
          by (metis prod_cases3)
        then have "cl_run d" using assms(5) by (auto simp: prologue_spec_def Let_def split: if_splits)
        moreover have "ws_events.ready c I ob d k' u" using that spec by simp
        ultimately show ?thesis by (intro spin)
      qed
    qed
    then show ?thesis
      by (simp add: wp_bnd wp_andthen wp_ret wp_def [of "esp_websocket_client_start E _"]
          start_run [OF live idle assms(4)])
  qed
  have r: "ws_events.ready c I ob cl k w" by (rule readyI [OF assms(1-3)])
  have "wp (bnd (stop_finish (Some c)) (\<lambda>a. bnd (esp_websocket_client_start E (Some c)) (\<lambda>b.
      andthen (task_prologue E (Some c)) (andthen (task_exit (Some c)) (ret (a, b)))))) ?Q v"
    if v: "ws_events.ready c I ob cl k v" for v
    unfolding stop_finish_def wp_bnd [of "andthen _ _"] wp_andthen [of "upd_cli _ _"]
    by (rule ws_events.wp_ready_upd [OF E v]) (use rest in \<open>simp_all add: wp_ret\<close>)
  moreover have "ws_events.ready c I ob cl k (w\<lparr>calls := cs\<rparr>)" for cs
    by (simp add: ws_events.ready_calls [OF E] r)
  ultimately show ?thesis
    unfolding wp_andthen [of "task_signal_stopped (Some c)"]
    unfolding task_signal_stopped_def
    by (intro ws_events.wp_ready_load [OF E r]) (simp add: wp_andthen wp_ext)
qed

theorem restart_spins_witness:
  "wp (andthen (task_signal_stopped (Some 0)) (bnd (stop_finish (Some 0)) (\<lambda>a.
      bnd (esp_websocket_client_start quiet_env (Some 0)) (\<lambda>b.
        andthen (task_prologue quiet_env (Some 0)) (andthen (task_exit (Some 0)) (ret (a, b)))))))
    (\<lambda>r v. r = (ESP_OK, ESP_OK) \<and> (\<forall>n. task_loop n quiet_env (Some 0) v = Inr (False, v))) demo_world"
  by (rule restart_spins [OF quiet_events demo_live TrueI quiet_create])
    (simp add: quiet_env_def demo_env_def)

subsection \<open>The mailbox between two tasks\<close>

text \<open>Property C28. An endpoint that has looked at the message in the mailbox, and is preempted by the
  arrival of a new message before it reads what it saw, reads freed memory: the older message
  is answered and freed by the communication side although the endpoint already holds it.\<close>

theorem mailbox_race:
  assumes "app_rtos R items capacity unit_q" and "write_contract E"
    and "client_live c cl k w" and "app_inv items unit_q c w"
    and "xMailboxIncomingQueue w = Some q" and "items q = [Some a]"
    and "data_ptr d = cl_rx_buffer cl" and "4 \<le> data_len d" and "data_len d \<le> cl_buffer_size cl"
    and "plan (msgs w) (next_addr (msgs w)) sizeof_message"
  shows "bnd (mailbox_look R) (\<lambda>seen. andthen (sendDataToMailboxIncoming E R d)
      (mailbox_take R ep h seen)) w = Inl Use_After_Free"
proof -
  note R = assms(1)
  have queue: "mailbox_queue (queues R) items capacity unit_q" using R by (simp add: app_rtos_def)
  have fq: "freertos_queue (queues R) items capacity" using queue by (rule mailbox_queue.axioms)
  note laws = freertos_queue.waiting [OF fq] freertos_queue.peek [OF fq]
  have look: "mailbox_look R w = Inr (Some (Some a), w)"
    using assms(5,6) by (simp add: mailbox_look_def run_simps laws)
  have l: "linked c cl k w" using assms(3,4) by (simp add: linked_def app_inv_def)
  from assms(3) obtain r rs where rs: "cl_rx_buffer cl = Some r" "blocks (bufs w) r = Some rs"
    by (rule live_bufs)
  have old: "blocks (msgs w) a \<noteq> None" using assms(4,5,6) by (auto simp: app_inv_def owns_def)
  have "wp (sendDataToMailboxIncoming E R d) (\<lambda>_ v. blocks (msgs v) a = None) w"
  proof (rule app_rtos.wp_sendData [OF R assms(2) l assms(4,7-9) rs])
    fix v
    assume inv: "app_inv items unit_q c v" and "\<not> plan (msgs w) (next_addr (msgs w)) sizeof_message \<and>
        xMailboxIncomingQueue v = xMailboxIncomingQueue w \<and> blocks (msgs v) = blocks (msgs w) \<or>
      plan (msgs w) (next_addr (msgs w)) sizeof_message \<and>
      (\<exists>q a b. xMailboxIncomingQueue v = Some q \<and> items q = [Some a] \<and> blocks (msgs w) a = None \<and>
         blocks (msgs v) a = Some (Some (decoded E rs (data_len d) b)) \<and>
         blocks (bufs v) b = Some (take (nat (data_len d - 3)) (drop 3 rs)))"
    with assms(10) obtain q' a' where q': "xMailboxIncomingQueue v = Some q'" "items q' = [Some a']"
      "blocks (msgs w) a' = None"
      by blast
    with inv have "owns c {a'} v" by (auto simp: app_inv_def)
    then have "dom (blocks (msgs v)) = {a'}" by (simp add: owns_def)
    with q'(3) old show "blocks (msgs v) a = None" by (metis domIff singletonD)
  qed
  then obtain v where "sendDataToMailboxIncoming E R d w = Inr ((), v)" "blocks (msgs v) a = None"
    by (auto dest: wp_runD)
  with look show ?thesis by (simp add: run_simps mailbox_take_def mem_load_def)
qed

theorem mailbox_race_witness:
  "bnd (mailbox_look list_rtos) (\<lambda>seen. andthen (sendDataToMailboxIncoming app_env list_rtos
       \<lparr>data_ptr = Some 0, data_len = 4\<rparr>) (mailbox_take list_rtos 1 (\<lambda>_. ret ()) seen))
     (demo_app 1 2 [5, 6]) = Inl Use_After_Free"
  by (rule mailbox_race [OF lr.app_rtos_axioms app_env_write
        demo_app_linked [unfolded linked_def, THEN conjunct1] demo_app_inv demo_app_parts(4)])
    (simp_all add: demo_client_def demo_app_def)

subsection \<open>Messages whose body cannot be allocated\<close>

text \<open>The length of a message shorter than its header is negative, and converts to a huge size.\<close>

lemma short_body_unavailable:
  assumes "heap_room w" and "0 \<le> data_len d" and "data_len d < 3"
  shows "\<not> plan (bufs w) (next_addr (bufs w)) (size_t_of_int (data_len d - 3))"
proof -
  have "2 ^ 31 \<le> size_t_of_int (data_len d - 3)" using assms(2,3) by (intro size_t_of_int_neg) auto
  with assms(1) show ?thesis by (auto simp: heap_room_def)
qed

text \<open>Property C32. A message shorter than its three-byte header, or any other whose body cannot be
  allocated (memory is short, or the body is empty and \<open>malloc(0)\<close> is NULL), is queued all the
  same with no field written, and the next receive of any endpoint reads an indeterminate
  value.\<close>

theorem short_message_indeterminate:
  assumes "app_rtos R items capacity unit_q"
    and "xMailboxIncomingQueue w = Some q" and "unit_q q" and "items q = []"
    and "plan (msgs w) (next_addr (msgs w)) sizeof_message"
    and "heap_room w \<and> 0 \<le> data_len d \<and> data_len d < 3 \<or>
      \<not> plan (bufs w) (next_addr (bufs w)) (size_t_of_int (data_len d - 3))"
  shows "bnd (sendDataToMailboxIncoming E R d) (\<lambda>_. vMailboxRecieve R ep h) w = Inl Indeterminate"
proof -
  note R = assms(1)
  let ?a = "next_addr (msgs w)"
  let ?v = "w\<lparr>bufs := (bufs w)\<lparr>next_addr := Suc (next_addr (bufs w))\<rparr>,
    msgs := (msgs w)\<lparr>blocks := (blocks (msgs w))(?a \<mapsto> None), next_addr := Suc ?a\<rparr>\<rparr>"
  have queue: "mailbox_queue (queues R) items capacity unit_q" using R by (simp add: app_rtos_def)
  have fq: "freertos_queue (queues R) items capacity" using queue by (rule mailbox_queue.axioms)
  obtain q' where q': "xQueueSend (queues R) (Some ?a) q = (True, q')" "items q' = [Some ?a]"
    using mailbox_queue.unit_q_send [OF queue assms(3,4)] by blast
  have "\<not> plan (bufs w) (next_addr (bufs w)) (size_t_of_int (data_len d - 3))"
    using assms(6) short_body_unavailable by blast
  then have none: "clone E (data_ptr d) 3 (data_len d - 3) u =
      Inr (NULL, u\<lparr>bufs := (bufs u)\<lparr>next_addr := Suc (next_addr (bufs u))\<rparr>\<rparr>)"
    if "bufs u = bufs w" for u
    using that by (simp add: clone_def run_simps mem_alloc_def)
  have "parseMessage E d w = Inr (Some ?a, ?v)"
    using assms(5) by (simp add: parseMessage_def C11N_MESSAGE_HEADER_LENGTH_def run_simps
        mem_alloc_def Let_def none)
  then have send: "sendDataToMailboxIncoming E R d w = Inr ((), ?v\<lparr>xMailboxIncomingQueue := Some q'\<rparr>)"
    using assms(2,4) q'(1)
    by (simp add: sendDataToMailboxIncoming_def queue_message_def run_simps freertos_queue.waiting [OF fq])
  have "vMailboxRecieve R ep h (?v\<lparr>xMailboxIncomingQueue := Some q'\<rparr>) = Inl Indeterminate"
    by (rule app_rtos.receive_indeterminate [OF R _ q'(2)]) simp_all
  with send show ?thesis by (simp add: run_bnd)
qed

theorem short_message_indeterminate_witness:
  "bnd (sendDataToMailboxIncoming app_env list_rtos \<lparr>data_ptr = Some 0, data_len = 2\<rparr>)
     (\<lambda>_. vMailboxRecieve list_rtos 1 (\<lambda>_. ret ()))
     ((demo_app 1 2 [5, 6])\<lparr>xMailboxIncomingQueue := Some \<lparr>lq_items = [], lq_cap = 1\<rparr>\<rparr>) = Inl Indeterminate"
  by (rule short_message_indeterminate [OF lr.app_rtos_axioms])
    (auto simp: demo_app_def list_queue_unit_def heap_room_def)

end
