(* ===== verification/Lifecycle.thy ===== *)
theory Lifecycle
  imports WsTask Transitions
begin

text \<open>
  A client's task beside the functions that start and stop it, statement by statement: the
  handshake through the field \<open>run\<close> and the bit \<open>STOPPED_BIT\<close>. The machine covers one start,
  any number of failing stops, one successful stop, and the task from its first statement to
  its deletion; its client is the record of the other theories, and a pass of the loop is
  \<open>pass_spec\<close> for arbitrary answers of the environment. The lemmas show that a successful stop
  returns only after the task's last use of the transport, that it does return, and that the
  function of the task, run alone, is a run of the machine.
\<close>

subsection \<open>The machine\<close>

text \<open>What the task does next, by its statements in \<open>esp_websocket_client_task\<close>.\<close>

datatype task_pc =
    T_created | T_lookup | T_check | T_init | T_clear | T_loop | T_close | T_signal | T_exit | T_deleted

text \<open>
  What the controlling task does next: \<open>C_clear\<close> is the end of \<open>esp_websocket_client_start\<close>, the
  others are the statements of \<open>esp_websocket_client_stop\<close>; \<open>C_stopped\<close> means that it returned
  \<open>ESP_OK\<close>.
\<close>

datatype ctrl_pc = C_clear | C_idle | C_request | C_wait | C_finish | C_stopped

record life =
  lf_client :: esp_websocket_client
  lf_stopped :: bool
  lf_task :: task_pc
  lf_ctrl :: ctrl_pc

inductive life_step :: "life \<Rightarrow> life \<Rightarrow> bool" where
  t_run: "lf_task s = T_created \<Longrightarrow>
    life_step s (s\<lparr>lf_client := (lf_client s)\<lparr>cl_run := True\<rparr>, lf_task := T_lookup\<rparr>)"
| t_lookup: "lf_task s = T_lookup \<Longrightarrow>
    life_step s (s\<lparr>lf_client := (lf_client s)\<lparr>cl_transport := tr\<rparr>, lf_task := T_check\<rparr>)"
| t_check: "lf_task s = T_check \<Longrightarrow> life_step s (s\<lparr>lf_client :=
      (if cl_transport (lf_client s) = NULL then (lf_client s)\<lparr>cl_run := False\<rparr> else lf_client s),
      lf_task := T_init\<rparr>)"
| t_init: "lf_task s = T_init \<Longrightarrow>
    life_step s (s\<lparr>lf_client := (lf_client s)\<lparr>cl_state := WEBSOCKET_STATE_INIT\<rparr>, lf_task := T_clear\<rparr>)"
| t_clear: "lf_task s = T_clear \<Longrightarrow> life_step s (s\<lparr>lf_stopped := False, lf_task := T_loop\<rparr>)"
| t_pass: "lf_task s = T_loop \<Longrightarrow> cl_run (lf_client s) \<Longrightarrow>
    life_step s (s\<lparr>lf_client := fst (pass_spec (E :: unit env) host k cs (lf_client s))\<rparr>)"
| t_leave: "lf_task s = T_loop \<Longrightarrow> \<not> cl_run (lf_client s) \<Longrightarrow> life_step s (s\<lparr>lf_task := T_close\<rparr>)"
| t_close: "lf_task s = T_close \<Longrightarrow> life_step s (s\<lparr>lf_task := T_signal\<rparr>)"
| t_signal: "lf_task s = T_signal \<Longrightarrow> life_step s (s\<lparr>lf_stopped := True, lf_task := T_exit\<rparr>)"
| t_exit: "lf_task s = T_exit \<Longrightarrow>
    life_step s (s\<lparr>lf_client := (lf_client s)\<lparr>cl_state := WEBSOCKET_STATE_UNKNOW\<rparr>, lf_task := T_deleted\<rparr>)"
| c_clear: "lf_ctrl s = C_clear \<Longrightarrow> life_step s (s\<lparr>lf_stopped := False, lf_ctrl := C_idle\<rparr>)"
| c_fail: "lf_ctrl s = C_idle \<Longrightarrow> \<not> cl_run (lf_client s) \<Longrightarrow> life_step s s"
| c_stop: "lf_ctrl s = C_idle \<Longrightarrow> cl_run (lf_client s) \<Longrightarrow> life_step s (s\<lparr>lf_ctrl := C_request\<rparr>)"
| c_request: "lf_ctrl s = C_request \<Longrightarrow>
    life_step s (s\<lparr>lf_client := (lf_client s)\<lparr>cl_run := False\<rparr>, lf_ctrl := C_wait\<rparr>)"
| c_wake: "lf_ctrl s = C_wait \<Longrightarrow> lf_stopped s \<Longrightarrow> life_step s (s\<lparr>lf_ctrl := C_finish\<rparr>)"
| c_finish: "lf_ctrl s = C_finish \<Longrightarrow>
    life_step s (s\<lparr>lf_client := (lf_client s)\<lparr>cl_state := WEBSOCKET_STATE_UNKNOW\<rparr>, lf_ctrl := C_stopped\<rparr>)"

text \<open>
  After \<open>xTaskCreate\<close> of a start: the client does not run; \<open>STOPPED_BIT\<close> may still be set by an
  earlier task.
\<close>

definition life_init :: "life \<Rightarrow> bool" where
  "life_init s \<longleftrightarrow> \<not> cl_run (lf_client s) \<and> lf_task s = T_created \<and> lf_ctrl s = C_clear"

subsection \<open>The invariant\<close>

definition past_signal :: "task_pc \<Rightarrow> bool" where
  "past_signal t \<longleftrightarrow> t = T_exit \<or> t = T_deleted"

definition may_run :: "task_pc \<Rightarrow> bool" where
  "may_run t \<longleftrightarrow> t \<in> {T_lookup, T_check, T_init, T_clear, T_loop}"

definition life_inv :: "life \<Rightarrow> bool" where
  "life_inv s \<longleftrightarrow>
     (cl_run (lf_client s) \<longrightarrow> may_run (lf_task s)) \<and>
     (lf_stopped s \<longrightarrow> lf_ctrl s = C_clear \<or> past_signal (lf_task s)) \<and>
     (lf_ctrl s \<in> {C_request, C_wait} \<longrightarrow> lf_task s \<noteq> T_created \<and> (past_signal (lf_task s) \<longrightarrow> lf_stopped s)) \<and>
     (lf_ctrl s = C_wait \<longrightarrow> \<not> cl_run (lf_client s)) \<and>
     (lf_ctrl s \<in> {C_finish, C_stopped} \<longrightarrow> past_signal (lf_task s)) \<and>
     (lf_task s = T_deleted \<longrightarrow> cl_state (lf_client s) = WEBSOCKET_STATE_UNKNOW)"

lemma pass_spec_stops: "\<not> cl_run cl \<Longrightarrow> \<not> cl_run (fst (pass_spec E host k cs cl))"
  by (auto simp: pass_defs Let_def split: websocket_client_state.split)

lemma life_inv_init: "life_init s \<Longrightarrow> life_inv s"
  by (simp add: life_init_def life_inv_def past_signal_def may_run_def)

lemma life_inv_step:
  assumes "life_inv s" and "life_step s t"
  shows "life_inv t"
  using assms(2,1)
  by (cases rule: life_step.cases)
    (auto simp: life_inv_def past_signal_def may_run_def pass_spec_stops)

interpretation life: invariant_system life_init life_step life_inv
  by unfold_locales (auto intro: life_inv_init life_inv_step)

text \<open>How many statements the task has left once \<open>run\<close> is false.\<close>

fun statements_left :: "task_pc \<Rightarrow> nat" where
  "statements_left T_created = 9"
| "statements_left T_lookup = 8"
| "statements_left T_check = 7"
| "statements_left T_init = 6"
| "statements_left T_clear = 5"
| "statements_left T_loop = 4"
| "statements_left T_close = 3"
| "statements_left T_signal = 2"
| "statements_left T_exit = 1"
| "statements_left T_deleted = 0"

lemma waiting_step:
  assumes "life_inv s" and "lf_ctrl s = C_wait" and "life_step s t"
  shows "lf_ctrl t = C_finish \<or> lf_ctrl t = C_wait \<and> statements_left (lf_task t) < statements_left (lf_task s)"
  using assms(3,1,2) by (cases rule: life_step.cases) (auto simp: life_inv_def)

lemma waiting_enabled:
  assumes inv: "life_inv s" and wait: "lf_ctrl s = C_wait"
  shows "\<exists>t. life_step s t"
proof (cases "lf_stopped s")
  case True
  with wait show ?thesis by (blast intro: c_wake)
next
  case False
  with inv wait have "\<not> past_signal (lf_task s)" "\<not> cl_run (lf_client s)" by (auto simp: life_inv_def)
  then show ?thesis
    by (cases "lf_task s") (auto simp: past_signal_def intro: life_step.intros)
qed

text \<open>
  Run without interleaving, the statements before the loop compute \<open>prologue_spec\<close>.
\<close>

lemma prologue_client:
  "fst (prologue_spec E scheme k cs cl) =
     (let tr = r_ptr E cs (esp_transport_list_get_transport (cl_transport_list cl) scheme) in
      cl\<lparr>cl_run := (tr \<noteq> NULL), cl_transport := tr, cl_state := WEBSOCKET_STATE_INIT\<rparr>)"
  by (simp add: prologue_spec_def Let_def)

lemma life_prologue:
  assumes "lf_task s = T_created"
  shows "life_step\<^sup>*\<^sup>* s (s\<lparr>lf_client := fst (prologue_spec E scheme k cs (lf_client s)),
    lf_stopped := False, lf_task := T_loop\<rparr>)"
proof -
  define tr where "tr = r_ptr E cs (esp_transport_list_get_transport (cl_transport_list (lf_client s)) scheme)"
  let ?c1 = "(lf_client s)\<lparr>cl_run := True\<rparr>" and ?c2 = "(lf_client s)\<lparr>cl_run := True, cl_transport := tr\<rparr>"
  let ?c3 = "if tr = NULL then ?c2\<lparr>cl_run := False\<rparr> else ?c2"
  let ?c4 = "?c3\<lparr>cl_state := WEBSOCKET_STATE_INIT\<rparr>"
  have "life_step\<^sup>*\<^sup>* s (s\<lparr>lf_client := ?c1, lf_task := T_lookup\<rparr>)"
    by (rule r_into_rtranclp) (rule t_run [OF assms])
  also have "life_step\<^sup>*\<^sup>* \<dots> (s\<lparr>lf_client := ?c2, lf_task := T_check\<rparr>)"
    using r_into_rtranclp [of life_step, OF t_lookup [of "s\<lparr>lf_client := ?c1, lf_task := T_lookup\<rparr>" tr]] by simp
  also have "life_step\<^sup>*\<^sup>* \<dots> (s\<lparr>lf_client := ?c3, lf_task := T_init\<rparr>)"
    using r_into_rtranclp [of life_step, OF t_check [of "s\<lparr>lf_client := ?c2, lf_task := T_check\<rparr>"]]
    by (cases "tr = NULL") auto
  also have "life_step\<^sup>*\<^sup>* \<dots> (s\<lparr>lf_client := ?c4, lf_task := T_clear\<rparr>)"
    using r_into_rtranclp [of life_step, OF t_init [of "s\<lparr>lf_client := ?c3, lf_task := T_init\<rparr>"]] by simp
  also have "life_step\<^sup>*\<^sup>* \<dots> (s\<lparr>lf_client := ?c4, lf_stopped := False, lf_task := T_loop\<rparr>)"
    using r_into_rtranclp [of life_step, OF t_clear [of "s\<lparr>lf_client := ?c4, lf_task := T_clear\<rparr>"]] by simp
  finally have "life_step\<^sup>*\<^sup>* s (s\<lparr>lf_client := ?c4, lf_stopped := False, lf_task := T_loop\<rparr>)"
    by simp
  moreover have "fst (prologue_spec E scheme k cs (lf_client s)) = ?c4"
    by (simp add: prologue_client Let_def flip: tr_def)
  ultimately show ?thesis by simp
qed

subsection \<open>The machine and the functions\<close>

text \<open>The answers of an environment without the event handlers; a pass depends on no more.\<close>

definition answers :: "'w env \<Rightarrow> unit env" where
  "answers E = \<lparr>r_int = r_int E, r_ptr = r_ptr E, r_bytes = r_bytes E,
     http_parser_parse_url = http_parser_parse_url E, asprintf_null = asprintf_null E,
     junk = junk E, deliver = (\<lambda>_ _ _. ret ()), char_signed = char_signed E\<rparr>"

lemma pass_spec_answers: "pass_spec (answers E) host k cs cl = pass_spec E host k cs cl"
proof -
  have r: "r_int (answers E) = r_int E" by (simp add: answers_def)
  then have "clock_ms (answers E) = clock_ms E" by (simp add: clock_ms_def fun_eq_iff)
  with r have same: "clock_ms (answers E) = clock_ms E" "abort_spec (answers E) = abort_spec E"
    "ping_spec (answers E) = ping_spec E"
    by (simp_all add: abort_spec_def ping_spec_def fun_eq_iff)
  with r have "init_spec (answers E) = init_spec E" "read_spec (answers E) = read_spec E"
    by (simp_all add: init_spec_def read_spec_def fun_eq_iff Let_def)
  with r same show ?thesis
    by (simp add: pass_spec_def connected_spec_def wait_spec_def Let_def
      split: websocket_client_state.split prod.split)
qed

lemma t_pass_answers:
  assumes "lf_task s = T_loop" and "cl_run (lf_client s)"
  shows "life_step s (s\<lparr>lf_client := fst (pass_spec E host k cs (lf_client s))\<rparr>)"
  using t_pass [OF assms, of "answers E" host k cs] by (simp only: pass_spec_answers)

text \<open>The end of the task.\<close>

lemma life_end:
  assumes "lf_task s = T_loop" and "\<not> cl_run (lf_client s)"
  shows "life_step\<^sup>*\<^sup>* s (s\<lparr>lf_client := (lf_client s)\<lparr>cl_state := WEBSOCKET_STATE_UNKNOW\<rparr>,
    lf_stopped := True, lf_task := T_deleted\<rparr>)"
proof -
  have "life_step\<^sup>*\<^sup>* s (s\<lparr>lf_task := T_close\<rparr>)"
    by (rule r_into_rtranclp) (rule t_leave [OF assms])
  also have "life_step\<^sup>*\<^sup>* \<dots> (s\<lparr>lf_task := T_signal\<rparr>)"
    using r_into_rtranclp [of life_step, OF t_close [of "s\<lparr>lf_task := T_close\<rparr>"]] by simp
  also have "life_step\<^sup>*\<^sup>* \<dots> (s\<lparr>lf_stopped := True, lf_task := T_exit\<rparr>)"
    using r_into_rtranclp [of life_step, OF t_signal [of "s\<lparr>lf_task := T_signal\<rparr>"]] by simp
  also have "life_step\<^sup>*\<^sup>* \<dots> (s\<lparr>lf_client := (lf_client s)\<lparr>cl_state := WEBSOCKET_STATE_UNKNOW\<rparr>,
      lf_stopped := True, lf_task := T_deleted\<rparr>)"
    using r_into_rtranclp [of life_step, OF t_exit [of "s\<lparr>lf_stopped := True, lf_task := T_exit\<rparr>"]]
    by (cases s) simp
  finally show ?thesis .
qed

context ws_events
begin

text \<open>The passes of the loop.\<close>

lemma wp_loop_life:
  assumes "ready ob cl k w"
  shows "wp (task_loop n E (Some c)) (\<lambda>ended w'. \<exists>ob' cl'. ready ob' cl' k w' \<and> (ended \<longleftrightarrow> \<not> cl_run cl') \<and>
    life_step\<^sup>*\<^sup>* \<lparr>lf_client = cl, lf_stopped = b, lf_task = T_loop, lf_ctrl = p\<rparr>
      \<lparr>lf_client = cl', lf_stopped = b, lf_task = T_loop, lf_ctrl = p\<rparr>) w"
  using assms
proof (induction n arbitrary: w cl ob)
  case 0
  then show ?case
    by (subst run_loop, intro wp_ready_load [OF 0]) (auto simp: wp_ret)
next
  case (Suc n)
  let ?life = "\<lambda>d. \<lparr>lf_client = d, lf_stopped = b, lf_task = T_loop, lf_ctrl = p\<rparr>"
  let ?Q = "\<lambda>ended w'. \<exists>ob' cl'. ready ob' cl' k w' \<and> (ended \<longleftrightarrow> \<not> cl_run cl') \<and>
    life_step\<^sup>*\<^sup>* (?life cl) (?life cl')"
  show ?case
  proof (subst run_loop, rule wp_ready_load [OF Suc.prems], cases "cl_run cl")
    case False
    with Suc.prems show "wp (if \<not> cl_run cl then ret True else (case Suc n of 0 \<Rightarrow> ret False
        | Suc m \<Rightarrow> andthen (task_iteration E (Some c)) (task_loop m E (Some c)))) ?Q w"
      by (auto simp: wp_ret)
  next
    case True
    have "wp (task_iteration E (Some c)) (\<lambda>_. wp (task_loop n E (Some c)) ?Q) w"
    proof (rule wp_iteration [OF Suc.prems])
      fix w' xs ob'
      let ?d = "fst (pass_spec E (cfg_strings k (blocks (strs w)) F_host) k (calls w) cl)"
      assume w': "ready ob' ?d k w'"
      have "life_step (?life cl) (?life ?d)"
        using t_pass_answers [of "?life cl" E _ k] True by simp
      then show "wp (task_loop n E (Some c)) ?Q w'"
        by (intro wp_mono [OF Suc.IH [OF w']]) (blast intro: converse_rtranclp_into_rtranclp)
    qed
    with True show "wp (if \<not> cl_run cl then ret True else (case Suc n of 0 \<Rightarrow> ret False
        | Suc m \<Rightarrow> andthen (task_iteration E (Some c)) (task_loop m E (Some c)))) ?Q w"
      by (simp add: wp_andthen)
  qed
qed

text \<open>The whole task.\<close>

lemma wp_task_life:
  assumes r: "ready ob cl k w"
  shows "wp (esp_websocket_client_task n E (Some c)) (\<lambda>ended w'. \<exists>cl'. blocks (clis w') c = Some cl' \<and>
    life_step\<^sup>*\<^sup>* \<lparr>lf_client = cl, lf_stopped = b, lf_task = T_created, lf_ctrl = p\<rparr>
      \<lparr>lf_client = cl', lf_stopped = ended, lf_task = (if ended then T_deleted else T_loop), lf_ctrl = p\<rparr>) w"
    (is "wp _ ?Q w")
proof -
  let ?start = "\<lparr>lf_client = cl, lf_stopped = b, lf_task = T_created, lf_ctrl = p\<rparr>"
  let ?loop = "\<lambda>d. \<lparr>lf_client = d, lf_stopped = False, lf_task = T_loop, lf_ctrl = p\<rparr>"
  obtain d k' cs where spec:
    "prologue_spec E (cfg_strings k (blocks (strs w)) F_scheme) k (calls w) cl = (d, k', cs)"
    by (metis prod_cases3)
  have pro: "life_step\<^sup>*\<^sup>* ?start (?loop d)"
    using life_prologue [of ?start E "cfg_strings k (blocks (strs w)) F_scheme" k "calls w"] spec by simp
  have loop: "wp (bnd (task_loop n E (Some c)) (\<lambda>ended. andthen (when_do ended
      (andthen (task_signal_stopped (Some c)) (task_exit (Some c)))) (ret ended))) ?Q v"
    if v: "ready ob d k' v" for v
    unfolding wp_bnd
  proof (rule wp_mono [OF wp_loop_life [OF v, of n False p]], elim exE conjE)
    fix ended u o' e
    assume u: "ready o' e k' u" "ended \<longleftrightarrow> \<not> cl_run e" "life_step\<^sup>*\<^sup>* (?loop d) (?loop e)"
    have reach: "life_step\<^sup>*\<^sup>* ?start (?loop e)" using pro u(3) by (rule rtranclp_trans)
    show "wp (andthen (when_do ended (andthen (task_signal_stopped (Some c)) (task_exit (Some c))))
        (ret ended)) ?Q u"
    proof (cases ended)
      case False
      with reach ready_cli [OF u(1)] show ?thesis by (simp add: wp_andthen when_do_def wp_ret)
    next
      case True
      let ?e = "e\<lparr>cl_state := WEBSOCKET_STATE_UNKNOW\<rparr>"
      have "life_step\<^sup>*\<^sup>* (?loop e)
          \<lparr>lf_client = ?e, lf_stopped = True, lf_task = T_deleted, lf_ctrl = p\<rparr>"
        using life_end [of "?loop e"] True u(2) by simp
      with reach have fin: "life_step\<^sup>*\<^sup>* ?start
          \<lparr>lf_client = ?e, lf_stopped = True, lf_task = T_deleted, lf_ctrl = p\<rparr>"
        by (rule rtranclp_trans)
      have "wp (andthen (task_signal_stopped (Some c)) (task_exit (Some c))) (\<lambda>_. ?Q True) u"
        by (rule wp_task_end [OF u(1)]) (use fin ready_cli in auto)
      with True show ?thesis by (simp add: wp_andthen when_do_def wp_ret)
    qed
  qed
  show ?thesis
    unfolding esp_websocket_client_task_def wp_andthen [of "task_prologue E (Some c)"]
    by (rule wp_prologue [OF r]) (use spec loop in auto)
qed

end

subsection \<open>Properties\<close>

text \<open>Property C8. In every interleaving of the task with its start and stop, a stop that returns \<open>ESP_OK\<close>
  returns only after the task has signalled that it is past its last use of the transport; at
  most the write of the final state is then left, and once the task is deleted the client is
  in the state UNKNOWN and does not run.\<close>

theorem stop_after_task:
  assumes "reach life_init life_step s" and "lf_ctrl s = C_stopped"
  shows "(lf_task s = T_exit \<or> lf_task s = T_deleted) \<and> \<not> cl_run (lf_client s) \<and>
    (lf_task s = T_deleted \<longrightarrow> cl_state (lf_client s) = WEBSOCKET_STATE_UNKNOW)"
  using life.reach_inv [OF assms(1)] assms(2)
  by (auto simp: life_inv_def past_signal_def may_run_def)

text \<open>
  A run of the machine to a stop that returns while the task has still to write its state; no
  transport is found for the scheme.
\<close>

definition life_example :: "task_pc \<Rightarrow> ctrl_pc \<Rightarrow> bool \<Rightarrow> websocket_client_state \<Rightarrow> life" where
  "life_example t cpc r st = \<lparr>lf_client = zero_client\<lparr>cl_run := r, cl_state := st\<rparr>,
     lf_stopped = past_signal t, lf_task = t, lf_ctrl = cpc\<rparr>"

lemmas life_example_simps = life_example_def past_signal_def zero_client_def

lemma life_example_start: "reach life_init life_step (life_example T_lookup C_wait False WEBSOCKET_STATE_UNKNOW)"
proof -
  have "reach life_init life_step (life_example T_created C_clear False WEBSOCKET_STATE_UNKNOW)"
    by (rule reach_init) (simp add: life_init_def life_example_simps)
  then have "reach life_init life_step (life_example T_created C_idle False WEBSOCKET_STATE_UNKNOW)"
    by (rule reach_step) (use c_clear [of "life_example T_created C_clear False WEBSOCKET_STATE_UNKNOW"] in \<open>simp add: life_example_simps\<close>)
  then have "reach life_init life_step (life_example T_lookup C_idle True WEBSOCKET_STATE_UNKNOW)"
    by (rule reach_step) (use t_run [of "life_example T_created C_idle False WEBSOCKET_STATE_UNKNOW"] in \<open>simp add: life_example_simps\<close>)
  then have "reach life_init life_step (life_example T_lookup C_request True WEBSOCKET_STATE_UNKNOW)"
    by (rule reach_step) (use c_stop [of "life_example T_lookup C_idle True WEBSOCKET_STATE_UNKNOW"] in \<open>simp add: life_example_simps\<close>)
  then show ?thesis
    by (rule reach_step) (use c_request [of "life_example T_lookup C_request True WEBSOCKET_STATE_UNKNOW"] in \<open>simp add: life_example_simps\<close>)
qed

lemma life_example_end: "reach life_init life_step (life_example T_exit C_stopped False WEBSOCKET_STATE_UNKNOW)"
proof -
  note life_example_start
  then have "reach life_init life_step (life_example T_check C_wait False WEBSOCKET_STATE_UNKNOW)"
    by (rule reach_step) (use t_lookup [of "life_example T_lookup C_wait False WEBSOCKET_STATE_UNKNOW" NULL] in \<open>simp add: life_example_simps\<close>)
  then have "reach life_init life_step (life_example T_init C_wait False WEBSOCKET_STATE_UNKNOW)"
    by (rule reach_step) (use t_check [of "life_example T_check C_wait False WEBSOCKET_STATE_UNKNOW"] in \<open>simp add: life_example_simps\<close>)
  then have "reach life_init life_step (life_example T_clear C_wait False WEBSOCKET_STATE_INIT)"
    by (rule reach_step) (use t_init [of "life_example T_init C_wait False WEBSOCKET_STATE_UNKNOW"] in \<open>simp add: life_example_simps\<close>)
  then have "reach life_init life_step (life_example T_loop C_wait False WEBSOCKET_STATE_INIT)"
    by (rule reach_step) (use t_clear [of "life_example T_clear C_wait False WEBSOCKET_STATE_INIT"] in \<open>simp add: life_example_simps\<close>)
  then have "reach life_init life_step (life_example T_close C_wait False WEBSOCKET_STATE_INIT)"
    by (rule reach_step) (use t_leave [of "life_example T_loop C_wait False WEBSOCKET_STATE_INIT"] in \<open>simp add: life_example_simps\<close>)
  then have "reach life_init life_step (life_example T_signal C_wait False WEBSOCKET_STATE_INIT)"
    by (rule reach_step) (use t_close [of "life_example T_close C_wait False WEBSOCKET_STATE_INIT"] in \<open>simp add: life_example_simps\<close>)
  then have "reach life_init life_step (life_example T_exit C_wait False WEBSOCKET_STATE_INIT)"
    by (rule reach_step) (use t_signal [of "life_example T_signal C_wait False WEBSOCKET_STATE_INIT"] in \<open>simp add: life_example_simps\<close>)
  then have "reach life_init life_step (life_example T_exit C_finish False WEBSOCKET_STATE_INIT)"
    by (rule reach_step) (use c_wake [of "life_example T_exit C_wait False WEBSOCKET_STATE_INIT"] in \<open>simp add: life_example_simps\<close>)
  then show ?thesis
    by (rule reach_step) (use c_finish [of "life_example T_exit C_finish False WEBSOCKET_STATE_INIT"] in \<open>simp add: life_example_simps\<close>)
qed

lemma life_example_stopped: "lf_ctrl (life_example T_exit C_stopped False WEBSOCKET_STATE_UNKNOW) = C_stopped"
  by (simp add: life_example_def)

theorem stop_after_task_witness:
  "lf_task (life_example T_exit C_stopped False WEBSOCKET_STATE_UNKNOW) \<in> {T_exit, T_deleted} \<and>
   \<not> cl_run (lf_client (life_example T_exit C_stopped False WEBSOCKET_STATE_UNKNOW))"
  using stop_after_task [OF life_example_end life_example_stopped] by blast


lemma life_example_one: "((\<lambda>a b. life_step a b \<and> lf_ctrl b = C_wait) ^^ 1)
    (life_example T_lookup C_wait False WEBSOCKET_STATE_UNKNOW) (life_example T_check C_wait False WEBSOCKET_STATE_UNKNOW)"
  using t_lookup [of "life_example T_lookup C_wait False WEBSOCKET_STATE_UNKNOW" NULL]
  by (simp add: life_example_simps relcompp.simps eq_OO)




end
