(* ===== verification/Layout.thy ===== *)
theory Layout
  imports Mailbox
begin

text \<open>
  The memory layout of the structures. \<^verbatim>\<open>components/websocket/websocket.h\<close> repeats the private
  structures of the client, so that its functions can read \<open>client->config->uri\<close>; they read the
  right words only if both declarations have the same layout. The declarations are lists of
  fields; offsets and sizes follow from the alignment rules of the target.
\<close>

subsection \<open>Sizes and alignment on a 32-bit target\<close>

datatype c_type = C_int | C_enum | C_bool | C_pointer | C_uint64

fun c_size :: "c_type \<Rightarrow> nat" where
  "c_size C_bool = 1"
| "c_size C_uint64 = 8"
| "c_size _ = 4"

definition align_to :: "nat \<Rightarrow> nat \<Rightarrow> nat" where
  "align_to a off = (off + a - 1) div a * a"

type_synonym c_struct = "(string \<times> c_type) list"

text \<open>The offset of every field, the first one at or after \<open>off\<close>; a type is aligned to its size.\<close>

fun offsets :: "nat \<Rightarrow> c_struct \<Rightarrow> (string \<times> nat) list" where
  "offsets off [] = []"
| "offsets off ((f, t) # fs) = (let o' = align_to (c_size t) off in (f, o') # offsets (o' + c_size t) fs)"

fun fields_end :: "nat \<Rightarrow> c_struct \<Rightarrow> nat" where
  "fields_end off [] = off"
| "fields_end off ((f, t) # fs) = fields_end (align_to (c_size t) off + c_size t) fs"

definition c_sizeof :: "c_struct \<Rightarrow> nat" where
  "c_sizeof fs = align_to (foldr max (map (c_size \<circ> snd) fs) 1) (fields_end 0 fs)"

subsection \<open>The declarations\<close>

definition client_struct_c :: c_struct where
  "client_struct_c = [(''event_handle'', C_pointer), (''transport_list'', C_pointer),
     (''transport'', C_pointer), (''config'', C_pointer), (''state'', C_enum),
     (''keepalive_tick_ms'', C_uint64), (''reconnect_tick_ms'', C_uint64),
     (''ping_tick_ms'', C_uint64), (''wait_timeout_ms'', C_int), (''auto_reconnect'', C_int),
     (''run'', C_bool), (''status_bits'', C_pointer), (''lock'', C_pointer),
     (''rx_buffer'', C_pointer), (''tx_buffer'', C_pointer), (''buffer_size'', C_int)]"

definition client_struct_h :: c_struct where
  "client_struct_h = [(''event_handle'', C_pointer), (''transport_list'', C_pointer),
     (''transport'', C_pointer), (''config'', C_pointer), (''state'', C_enum),
     (''keepalive_tick_ms'', C_uint64), (''reconnect_tick_ms'', C_uint64),
     (''ping_tick_ms'', C_uint64), (''wait_timeout_ms'', C_int), (''auto_reconnect'', C_int),
     (''run'', C_bool), (''status_bits'', C_pointer), (''lock'', C_pointer),
     (''rx_buffer'', C_pointer), (''tx_buffer'', C_pointer), (''buffer_size'', C_int)]"

definition config_struct_c :: c_struct where
  "config_struct_c = [(''task_stack'', C_int), (''task_prio'', C_int), (''uri'', C_pointer),
     (''host'', C_pointer), (''path'', C_pointer), (''scheme'', C_pointer), (''username'', C_pointer),
     (''password'', C_pointer), (''port'', C_int), (''auto_reconnect'', C_bool),
     (''user_context'', C_pointer), (''network_timeout_ms'', C_int)]"

definition config_struct_h :: c_struct where
  "config_struct_h = [(''task_stack'', C_int), (''task_prio'', C_int), (''uri'', C_pointer),
     (''host'', C_pointer), (''path'', C_pointer), (''scheme'', C_pointer), (''username'', C_pointer),
     (''password'', C_pointer), (''port'', C_int), (''auto_reconnect'', C_bool),
     (''user_context'', C_pointer), (''network_timeout_ms'', C_int)]"

definition message_struct :: c_struct where
  "message_struct = [(''onRecieve'', C_pointer), (''pData'', C_pointer), (''length'', C_int),
     (''messageId'', C_int), (''messageType'', C_int), (''endpointId'', C_int)]"

text \<open>The enum of the states as the header repeats it, with the values C gives it.\<close>

definition states_h :: "(string \<times> int option) list" where
  "states_h = [(''WEBSOCKET_STATE_ERROR'', Some (- 1)), (''WEBSOCKET_STATE_UNKNOW'', Some 0),
     (''WEBSOCKET_STATE_INIT'', None), (''WEBSOCKET_STATE_CONNECTED'', None),
     (''WEBSOCKET_STATE_WAIT_TIMEOUT'', None)]"

fun enum_values :: "int \<Rightarrow> (string \<times> int option) list \<Rightarrow> (string \<times> int) list" where
  "enum_values i [] = []"
| "enum_values i ((n, v) # es) = (let j = (case v of None \<Rightarrow> i | Some k \<Rightarrow> k) in (n, j) # enum_values (j + 1) es)"

subsection \<open>Computed layouts\<close>

lemma same_declarations: "client_struct_h = client_struct_c" "config_struct_h = config_struct_c"
  by (simp_all only: client_struct_h_def client_struct_c_def config_struct_h_def config_struct_c_def)

lemma message_size: "c_sizeof message_struct = sizeof_message"
  by code_simp

lemma config_layout: "c_sizeof config_struct_c = sizeof_config_storage"
  "map_of (offsets 0 config_struct_c) ''uri'' = Some 8"
  by code_simp+

lemma client_layout: "c_sizeof client_struct_c = sizeof_client"
  "map_of (offsets 0 client_struct_c) ''config'' = Some 12"
  by code_simp+

lemma state_values: "map snd (enum_values 0 states_h) = [- 1, 0, 1, 2, 3]"
  by code_simp

subsection \<open>Properties\<close>


end
